theory Spec2Isabelle
  imports Main "HOL-Library.Sublist"
begin

section \<open>Rows and the JavaScript runtime\<close>

text \<open>
  A parsed CSV row is a JavaScript object with string keys and string values
  (\<^verbatim>\<open>Record<string, string>\<close>).  It is modelled as an association list
  in key insertion order, so that \<^verbatim>\<open>Object.keys\<close> is the list of first
  components (header names that are canonical array indices, which JavaScript
  enumerates first, are not treated apart).  JavaScript strings are modelled as
  \<^typ>\<open>string\<close>, which is exact for ASCII text.
\<close>

type_synonym row = "(string \<times> string) list"

text \<open>\<^verbatim>\<open>row[field] ?? ''\<close> (and \<^verbatim>\<open>row[field] || ''\<close>, which agrees with it on strings).\<close>

definition getField :: "row \<Rightarrow> string \<Rightarrow> string" where
  "getField r f = (case map_of r f of None \<Rightarrow> [] | Some v \<Rightarrow> v)"

text \<open>\<^verbatim>\<open>row[field] = v\<close>: an existing key keeps its position, a new key is appended.\<close>

fun setField :: "string \<Rightarrow> string \<Rightarrow> row \<Rightarrow> row" where
  "setField f v [] = [(f, v)]"
| "setField f v ((k, w) # r) = (if k = f then (f, v) # r else (k, w) # setField f v r)"

text \<open>
  The built-ins of the language that the routes call are parameters of the model:
  \<^item> \<open>regExp p flags\<close> is \<^verbatim>\<open>new RegExp(p, flags)\<close>: \<open>Inl msg\<close> when the constructor
    throws a SyntaxError, otherwise \<open>Inr t\<close> where \<open>t s\<close> is \<^verbatim>\<open>re.test(s)\<close> started at
    \<^verbatim>\<open>lastIndex = 0\<close> (the simple route resets \<^verbatim>\<open>lastIndex\<close> before every test, the
    advanced route compiles without the \<^verbatim>\<open>g\<close> flag);
  \<^item> \<open>toLowerCase\<close> and \<open>trim\<close> are \<^verbatim>\<open>String.prototype.toLowerCase\<close> and
    \<^verbatim>\<open>String.prototype.trim\<close>.
\<close>

record runtime =
  regExp :: "string \<Rightarrow> string \<Rightarrow> string + (string \<Rightarrow> bool)"
  toLowerCase :: "string \<Rightarrow> string"
  trim :: "string \<Rightarrow> string"

section \<open>Field Matcher (\<^verbatim>\<open>buildFieldMatcher\<close>)\<close>

datatype matchMode = Contains | Equals | Regex | StartsWith | EndsWith

datatype advancedLogic = AND | OR

record fieldSearchCondition =
  cond_field :: string
  cond_value :: string
  cond_mode :: "matchMode option"

record advancedSearchConfig =
  conditions :: "fieldSearchCondition list"
  logic :: "advancedLogic option"
  adv_caseSensitive :: "bool option"

definition buildFieldMatcher ::
  "runtime \<Rightarrow> fieldSearchCondition \<Rightarrow> bool \<Rightarrow> string + (string \<Rightarrow> bool)" where
  "buildFieldMatcher R c globalCaseSensitive =
     (let caseSensitive = globalCaseSensitive;
          mode = (case cond_mode c of None \<Rightarrow> Contains | Some m \<Rightarrow> m)
      in if mode = Regex
         then regExp R (cond_value c) (if caseSensitive then [] else ''i'')
         else
           (let needle = (if caseSensitive then cond_value c else toLowerCase R (cond_value c))
            in Inr (\<lambda>raw.
                 let hay = (if caseSensitive then raw else toLowerCase R raw)
                 in (case mode of
                       Equals \<Rightarrow> hay = needle
                     | StartsWith \<Rightarrow> prefix needle hay
                     | EndsWith \<Rightarrow> suffix needle hay
                     | _ \<Rightarrow> sublist needle hay))))"

section \<open>Row Predicate Evaluator, advanced mode (\<^verbatim>\<open>rowMatchesAdvanced\<close>)\<close>

text \<open>The filter \<^verbatim>\<open>c.value && c.value.trim() !== ''\<close>.\<close>

definition isActive :: "runtime \<Rightarrow> fieldSearchCondition \<Rightarrow> bool" where
  "isActive R c = (cond_value c \<noteq> [] \<and> trim R (cond_value c) \<noteq> [])"

text \<open>
  \<^verbatim>\<open>activeConds.map((c) => ({ cond: c, match: buildFieldMatcher(c, caseSensitive) }))\<close>:
  the first constructor that throws ends the whole call.
\<close>

fun buildMatchers ::
  "runtime \<Rightarrow> bool \<Rightarrow> fieldSearchCondition list \<Rightarrow>
     string + (fieldSearchCondition \<times> (string \<Rightarrow> bool)) list" where
  "buildMatchers R cs [] = Inr []"
| "buildMatchers R cs (c # rest) =
     (case buildFieldMatcher R c cs of
        Inl e \<Rightarrow> Inl e
      | Inr m \<Rightarrow>
          (case buildMatchers R cs rest of
             Inl e \<Rightarrow> Inl e
           | Inr ms \<Rightarrow> Inr ((c, m) # ms)))"

text \<open>The AND loop, with its two early returns; \<open>acc\<close> is \<^verbatim>\<open>matchedFields\<close>.\<close>

fun andLoop ::
  "row \<Rightarrow> string list \<Rightarrow> (fieldSearchCondition \<times> (string \<Rightarrow> bool)) list \<Rightarrow> string list \<Rightarrow>
     bool \<times> string list" where
  "andLoop r headers [] acc = (True, acc)"
| "andLoop r headers ((c, m) # rest) acc =
     (if cond_field c \<notin> set headers then (False, [])
      else if \<not> m (getField r (cond_field c)) then (False, [])
      else andLoop r headers rest (acc @ [cond_field c]))"

text \<open>The OR loop; \<open>any\<close> and \<open>acc\<close> are the two mutable locals.\<close>

fun orLoop ::
  "row \<Rightarrow> string list \<Rightarrow> (fieldSearchCondition \<times> (string \<Rightarrow> bool)) list \<Rightarrow> bool \<Rightarrow>
     string list \<Rightarrow> bool \<times> string list" where
  "orLoop r headers [] any acc = (any, if any then acc else [])"
| "orLoop r headers ((c, m) # rest) any acc =
     (if cond_field c \<notin> set headers then orLoop r headers rest any acc
      else if m (getField r (cond_field c))
           then orLoop r headers rest True (acc @ [cond_field c])
           else orLoop r headers rest any acc)"

definition activeConds :: "runtime \<Rightarrow> advancedSearchConfig \<Rightarrow> fieldSearchCondition list" where
  "activeConds R advanced = filter (isActive R) (conditions advanced)"

definition rowMatchesAdvanced ::
  "runtime \<Rightarrow> row \<Rightarrow> string list \<Rightarrow> advancedSearchConfig \<Rightarrow> string + (bool \<times> string list)" where
  "rowMatchesAdvanced R r headers advanced =
     (let lg = (case logic advanced of None \<Rightarrow> AND | Some l \<Rightarrow> l);
          caseSensitive = (case adv_caseSensitive advanced of None \<Rightarrow> False | Some b \<Rightarrow> b);
          active = activeConds R advanced
      in if length active = 0 then Inr (True, [])
         else
           (case buildMatchers R caseSensitive active of
              Inl e \<Rightarrow> Inl e
            | Inr fieldMatchers \<Rightarrow>
                if lg = AND then Inr (andLoop r headers fieldMatchers [])
                else Inr (orLoop r headers fieldMatchers False [])))"

subsection \<open>The reference definition of the advanced evaluator\<close>

text \<open>
  The reference definition, written from the specification's words.  A condition is
  \<^emph>\<open>accepted\<close> by a row when its field matcher, built with the configuration's case
  policy, returns true on the row's cell value.
\<close>

definition configCaseSensitive :: "advancedSearchConfig \<Rightarrow> bool" where
  "configCaseSensitive advanced = (adv_caseSensitive advanced = Some True)"

definition configIsAnd :: "advancedSearchConfig \<Rightarrow> bool" where
  "configIsAnd advanced = (logic advanced \<noteq> Some OR)"

definition accepts :: "runtime \<Rightarrow> advancedSearchConfig \<Rightarrow> row \<Rightarrow> fieldSearchCondition \<Rightarrow> bool" where
  "accepts R advanced r c =
     (case buildFieldMatcher R c (configCaseSensitive advanced) of
        Inl e \<Rightarrow> False
      | Inr m \<Rightarrow> m (getField r (cond_field c)))"

definition blankValue :: "runtime \<Rightarrow> string \<Rightarrow> bool" where
  "blankValue R v = (trim R v = [] \<or> v = [])"

definition referenceAdvanced ::
  "runtime \<Rightarrow> row \<Rightarrow> string list \<Rightarrow> advancedSearchConfig \<Rightarrow> bool \<times> string list" where
  "referenceAdvanced R r headers advanced =
     (let active = filter (\<lambda>c. \<not> blankValue R (cond_value c)) (conditions advanced)
      in if active = [] then (True, [])
         else if configIsAnd advanced
         then (if list_all (\<lambda>c. cond_field c \<in> set headers \<and> accepts R advanced r c) active
               then (True, map cond_field active)
               else (False, []))
         else (let contributing =
                     filter (\<lambda>c. cond_field c \<in> set headers \<and> accepts R advanced r c) active
               in (contributing \<noteq> [], map cond_field contributing)))"

text \<open>The acceptance test with the case policy given directly (the local \<^verbatim>\<open>caseSensitive\<close>).\<close>

definition acceptsCS :: "runtime \<Rightarrow> bool \<Rightarrow> row \<Rightarrow> fieldSearchCondition \<Rightarrow> bool" where
  "acceptsCS R cs r c = (case buildFieldMatcher R c cs of Inl e \<Rightarrow> False | Inr m \<Rightarrow> m (getField r (cond_field c)))"

section \<open>Strings, paths and artifact names\<close>

text \<open>\<^verbatim>\<open>Array.prototype.join\<close>.\<close>

fun join :: "string \<Rightarrow> string list \<Rightarrow> string" where
  "join sep [] = []"
| "join sep [x] = x"
| "join sep (x # y # ys) = x @ sep @ join sep (y # ys)"

text \<open>
  \<^verbatim>\<open>Array.from(new Set(xs))\<close>: the first occurrence of every element, in order
  (\<^const>\<open>remdups\<close> keeps the last occurrence, hence the two reversals).
\<close>

definition uniq :: "'a list \<Rightarrow> 'a list" where
  "uniq xs = rev (remdups (rev xs))"

text \<open>Decimal text of a number, as a template literal prints a timestamp.\<close>

definition digitChar :: "nat \<Rightarrow> char" where
  "digitChar d = ''0123456789'' ! d"

fun showNat :: "nat \<Rightarrow> string" where
  "showNat n = (if n < 10 then [digitChar n] else showNat (n div 10) @ [digitChar (n mod 10)])"

declare showNat.simps [simp del]

definition lowerLetters :: string where
  "lowerLetters = ''abcdefghijklmnopqrstuvwxyz''"

definition upperLetters :: string where
  "upperLetters = ''ABCDEFGHIJKLMNOPQRSTUVWXYZ''"

definition digits :: string where
  "digits = ''0123456789''"

text \<open>The character class \<^verbatim>\<open>[a-zA-Z0-9.-]\<close> of \<^verbatim>\<open>saveProcessedFile\<close>.\<close>

definition safeChar :: "char \<Rightarrow> bool" where
  "safeChar c = (c \<in> set (lowerLetters @ upperLetters @ digits @ ''.-''))"

text \<open>
  \<^verbatim>\<open>encodeURIComponent\<close> on a string given as its UTF-8 bytes: the unreserved marks
  stay, every other byte becomes \<^verbatim>\<open>%XX\<close>.
\<close>

definition uriUnreserved :: "char \<Rightarrow> bool" where
  "uriUnreserved c =
     (c \<in> set (lowerLetters @ upperLetters @ digits @ ''-_.!~*()'' @ [CHR 0x27]))"

definition hexDigit :: "nat \<Rightarrow> char" where
  "hexDigit d = ''0123456789ABCDEF'' ! d"

definition encodeURIComponent :: "string \<Rightarrow> string" where
  "encodeURIComponent s =
     concat (map (\<lambda>c. if uriUnreserved c then [c]
                       else [CHR ''%'', hexDigit (of_char c div 16), hexDigit (of_char c mod 16)]) s)"

text \<open>
  \<^verbatim>\<open>path.basename\<close> (POSIX): trailing slashes are dropped, then everything after the
  last slash is returned.
\<close>

definition pathBasename :: "string \<Rightarrow> string" where
  "pathBasename p =
     rev (takeWhile (\<lambda>c. c \<noteq> CHR ''/'') (dropWhile (\<lambda>c. c = CHR ''/'') (rev p)))"

text \<open>
  \<^verbatim>\<open>path.join(dir, name)\<close> and \<^verbatim>\<open>path.relative(dir, file)\<close>, on the arguments the
  routes pass: \<open>name\<close> is a single path segment, \<open>file\<close> lies directly in \<open>dir\<close>.
\<close>

definition pathJoin :: "string \<Rightarrow> string \<Rightarrow> string" where
  "pathJoin dir n = dir @ ''/'' @ n"

definition pathRelative :: "string \<Rightarrow> string \<Rightarrow> string" where
  "pathRelative dir file = (if prefix (dir @ ''/'') file then drop (length dir + 1) file else file)"

text \<open>
  The derived artifact name:
  \<^verbatim>\<open>pathParts = p.split('/'); fileName = pathParts.pop() || 'file.csv';\<close>
  \<^verbatim>\<open>nameWithoutExt = fileName.replace(/\.csv$/i, ''); `${nameWithoutExt}_replaced.csv`\<close>.
\<close>

definition lastSegment :: "string \<Rightarrow> string" where
  "lastSegment p = rev (takeWhile (\<lambda>c. c \<noteq> CHR ''/'') (rev p))"

definition stripCsvExt :: "string \<Rightarrow> string" where
  "stripCsvExt n =
     (case rev n of
        v # s # c # d # rest \<Rightarrow>
          if d = CHR ''.'' \<and> (c = CHR ''c'' \<or> c = CHR ''C'') \<and> (s = CHR ''s'' \<or> s = CHR ''S'')
             \<and> (v = CHR ''v'' \<or> v = CHR ''V'')
          then rev rest else n
      | _ \<Rightarrow> n)"

definition replacedFileName :: "string \<Rightarrow> string" where
  "replacedFileName p =
     (let fileName = (if lastSegment p = [] then ''file.csv'' else lastSegment p);
          nameWithoutExt = stripCsvExt fileName
      in nameWithoutExt @ ''_replaced.csv'')"

section \<open>Collaborators, statistics, events and the request state\<close>

text \<open>
  The external collaborators.  A failing collaborator call (a rejected promise) is a
  value: \<open>Inl msg\<close>, or \<open>Some msg\<close> for a call that returns nothing.
  \<^item> \<open>fetchText u\<close>: the retrieval block of a route for the locator \<open>u\<close> (a read from the
    temporary directory or a download from cloud storage);
  \<^item> \<open>papaParse text\<close>: \<^verbatim>\<open>Papa.parse\<close> with \<^verbatim>\<open>header: true\<close>, the messages of
    \<^verbatim>\<open>errors\<close> and the rows of \<^verbatim>\<open>data\<close>;
  \<^item> \<open>papaUnparse rows\<close>: \<^verbatim>\<open>Papa.unparse(rows, { header: true })\<close>;
  \<^item> \<open>writeFile p content\<close>: \<^verbatim>\<open>fs.writeFile\<close>;
  \<^item> \<open>archiver zipPath entries\<close>: the archive run of \<^verbatim>\<open>createZipFile\<close> over the
    entries \<open>(filename, filePath)\<close>;
  \<^item> \<open>dateNow k\<close>: the \<open>k\<close>-th reading of \<^verbatim>\<open>Date.now()\<close> in the request;
  \<^item> \<open>tmpDir\<close>: \<^verbatim>\<open>TMP_DIR = path.join(process.cwd(), 'tmp')\<close>.
\<close>

record collab =
  fetchText :: "string \<Rightarrow> string + string"
  papaParse :: "string \<Rightarrow> string list \<times> row list"
  papaUnparse :: "row list \<Rightarrow> string"
  writeFile :: "string \<Rightarrow> string \<Rightarrow> string option"
  archiver :: "string \<Rightarrow> (string \<times> string) list \<Rightarrow> string option"
  dateNow :: "nat \<Rightarrow> nat"
  tmpDir :: string

record processStats =
  totalFiles :: nat
  processedFiles :: nat
  totalRows :: nat
  processedRows :: nat
  totalMatches :: nat
  totalReplacements :: nat
  currentFile :: "string option"
  currentFileRows :: "nat option"
  currentFileMatches :: "nat option"

record rowChange =
  ch_field :: string
  oldValue :: string
  newValue :: string

record outputFileRecord =
  originalPath :: string
  newPath :: "string option"

text \<open>
  The events of the progress channel, with their payloads in the order of the source:
  \<^verbatim>\<open>file-start {filename, path}\<close>, \<^verbatim>\<open>file-info {filename, totalRows, fieldsToSearch | fieldsToReplace}\<close>,
  \<^verbatim>\<open>row-processed {filename, filePath, rowIndex, totalRows, matches}\<close>, \<^verbatim>\<open>stats\<close>,
  \<^verbatim>\<open>file-complete {filename, matchesCount, replacementsCount, newPath}\<close>,
  \<^verbatim>\<open>error {filename?, error | message}\<close> and
  \<^verbatim>\<open>complete {outputFiles?, downloadUrl, isZip, stats}\<close>.  The \<^verbatim>\<open>complete\<close> event of the
  source copies the counters of the statistics; the model passes the record they are
  read from.
\<close>

datatype event =
    FileStart string string
  | FileInfo string nat nat
  | RowProcessed string string nat nat "rowChange list"
  | Stats processStats
  | FileComplete string nat nat "string option"
  | ErrorEvent "string option" string
  | Complete "outputFileRecord list option" "string option" bool processStats

text \<open>
  The state of one request: the statistics, the event channel, the output records, and
  the effects on storage (files written by \<^verbatim>\<open>saveProcessedFile\<close>, archive runs
  requested by \<^verbatim>\<open>createZipFile\<close>, and the number of clock readings so far).
\<close>

record pstate =
  stats :: processStats
  events :: "event list"
  outputFiles :: "outputFileRecord list"
  saved :: "(string \<times> string) list"
  zipRequests :: "(string \<times> (string \<times> string) list) list"
  clock :: nat

definition sendEvent :: "event \<Rightarrow> pstate \<Rightarrow> pstate" where
  "sendEvent ev st = st\<lparr>events := events st @ [ev]\<rparr>"

definition initialStats :: "nat \<Rightarrow> processStats" where
  "initialStats n =
     \<lparr>totalFiles = n, processedFiles = 0, totalRows = 0, processedRows = 0, totalMatches = 0,
      totalReplacements = 0, currentFile = None, currentFileRows = None,
      currentFileMatches = None\<rparr>"

definition initialState :: "nat \<Rightarrow> pstate" where
  "initialState n =
     \<lparr>stats = initialStats n, events = [], outputFiles = [], saved = [], zipRequests = [],
      clock = 0\<rparr>"

text \<open>\<^verbatim>\<open>saveProcessedFile\<close>, \<^verbatim>\<open>createZipFile\<close> and \<^verbatim>\<open>getDownloadUrl\<close> of the file processor.\<close>

definition saveProcessedFile ::
  "collab \<Rightarrow> string \<Rightarrow> string \<Rightarrow> pstate \<Rightarrow> (string + string) \<times> pstate" where
  "saveProcessedFile E filename content st =
     (let timestamp = dateNow E (clock st);
          safeFilename = map (\<lambda>c. if safeChar c then c else CHR ''_'') filename;
          filePath = pathJoin (tmpDir E) (showNat timestamp @ ''_'' @ safeFilename);
          st1 = st\<lparr>clock := Suc (clock st)\<rparr>
      in case writeFile E filePath content of
           Some msg \<Rightarrow> (Inl msg, st1)
         | None \<Rightarrow> (Inr filePath, st1\<lparr>saved := saved st1 @ [(filePath, content)]\<rparr>))"

definition createZipFile ::
  "collab \<Rightarrow> (string \<times> string) list \<Rightarrow> pstate \<Rightarrow> (string + string) \<times> pstate" where
  "createZipFile E files st =
     (let timestamp = dateNow E (clock st);
          zipPath = pathJoin (tmpDir E) (''processed_'' @ showNat timestamp @ ''.zip'');
          st1 = st\<lparr>clock := Suc (clock st), zipRequests := zipRequests st @ [(zipPath, files)]\<rparr>
      in case archiver E zipPath files of
           Some msg \<Rightarrow> (Inl msg, st1)
         | None \<Rightarrow> (Inr zipPath, st1))"

definition getDownloadUrl :: "collab \<Rightarrow> string \<Rightarrow> string" where
  "getDownloadUrl E filePath =
     (let relativePath = pathRelative (tmpDir E) filePath
      in ''/api/download?file='' @ encodeURIComponent relativePath)"

text \<open>
  The end of every batch: \<^verbatim>\<open>filesWithOutput = outputFiles.filter(f => f.newPath)\<close>, one
  archive when there are several, the single locator when there is one.  The result is
  \<open>(downloadUrl, isZip)\<close> and the state after the archive run.
\<close>

definition hasOutput :: "outputFileRecord \<Rightarrow> bool" where
  "hasOutput f = (case newPath f of None \<Rightarrow> False | Some p \<Rightarrow> p \<noteq> [])"

definition newPathText :: "outputFileRecord \<Rightarrow> string" where
  "newPathText f = (case newPath f of None \<Rightarrow> [] | Some p \<Rightarrow> p)"

definition zipEntry :: "collab \<Rightarrow> outputFileRecord \<Rightarrow> string \<times> string" where
  "zipEntry E f =
     (let filePath = pathJoin (tmpDir E) (pathBasename (newPathText f))
      in (pathBasename (newPathText f), filePath))"

definition bundleOutputs :: "collab \<Rightarrow> pstate \<Rightarrow> (string option \<times> bool) \<times> pstate" where
  "bundleOutputs E st =
     (let filesWithOutput = filter hasOutput (outputFiles st)
      in if length filesWithOutput > 1
         then (let filesToZip = map (zipEntry E) filesWithOutput
               in case createZipFile E filesToZip st of
                    (Inr zipPath, st1) \<Rightarrow> ((Some (getDownloadUrl E zipPath), True), st1)
                  | (Inl msg, st1) \<Rightarrow> ((None, False), st1))
         else if length filesWithOutput = 1
         then ((newPath (hd filesWithOutput), False), st)
         else ((None, False), st))"

section \<open>The search route (\<^verbatim>\<open>POST /api/csv/process\<close>)\<close>

record fileDesc =
  file_path :: string
  file_name :: string
  file_url :: "string option"

text \<open>The request body; an absent (undefined) member is \<open>None\<close>.\<close>

record processRequest =
  files :: "fileDesc list"
  searchTerm :: "string option"
  replaceTerm :: "string option"
  selectedFields :: "string list"
  showOnlyMatches :: bool
  caseSensitive :: "bool option"
  wholeWord :: "bool option"
  useRegex :: "bool option"
  advanced :: "advancedSearchConfig option"
  replaceTargetField :: "string option"
  replaceValue :: "string option"

definition orFalse :: "bool option \<Rightarrow> bool" where
  "orFalse b = (case b of None \<Rightarrow> False | Some v \<Rightarrow> v)"

text \<open>Truthiness of an optional string: defined and not empty.\<close>

definition truthy :: "string option \<Rightarrow> bool" where
  "truthy s = (case s of None \<Rightarrow> False | Some v \<Rightarrow> v \<noteq> [])"

definition orEmpty :: "string option \<Rightarrow> string" where
  "orEmpty s = (case s of None \<Rightarrow> [] | Some v \<Rightarrow> v)"

text \<open>The state of one row scan: the statistics and the channel, and the three locals
  \<^verbatim>\<open>processedRows\<close>, \<^verbatim>\<open>fileMatches\<close> and \<^verbatim>\<open>fileReplacements\<close>.\<close>

record scan =
  sc_stats :: processStats
  sc_events :: "event list"
  sc_rows :: "row list"
  sc_matches :: nat
  sc_replacements :: nat

definition startScan :: "pstate \<Rightarrow> scan" where
  "startScan st =
     \<lparr>sc_stats = stats st, sc_events = events st, sc_rows = [], sc_matches = 0,
      sc_replacements = 0\<rparr>"

definition emit :: "event \<Rightarrow> scan \<Rightarrow> scan" where
  "emit ev sc = sc\<lparr>sc_events := sc_events sc @ [ev]\<rparr>"

text \<open>\<^verbatim>\<open>if ((i + 1) % 10 === 0 || i === rows.length - 1) sendEvent('stats', { ...stats })\<close>.\<close>

definition statsTick :: "nat \<Rightarrow> nat \<Rightarrow> scan \<Rightarrow> scan" where
  "statsTick n i sc =
     (if (i + 1) mod 10 = 0 \<or> int i = int n - 1 then emit (Stats (sc_stats sc)) sc else sc)"

definition countRow :: "scan \<Rightarrow> scan" where
  "countRow sc = sc\<lparr>sc_stats := (sc_stats sc)\<lparr>processedRows := processedRows (sc_stats sc) + 1\<rparr>\<rparr>"

definition pushRow :: "row \<Rightarrow> scan \<Rightarrow> scan" where
  "pushRow r sc = sc\<lparr>sc_rows := sc_rows sc @ [r]\<rparr>"

definition countMatch :: "scan \<Rightarrow> scan" where
  "countMatch sc =
     sc\<lparr>sc_matches := sc_matches sc + 1,
        sc_stats := (sc_stats sc)\<lparr>totalMatches := totalMatches (sc_stats sc) + 1\<rparr>\<rparr>"

definition countReplacement :: "scan \<Rightarrow> scan" where
  "countReplacement sc =
     sc\<lparr>sc_replacements := sc_replacements sc + 1,
        sc_stats := (sc_stats sc)\<lparr>totalReplacements := totalReplacements (sc_stats sc) + 1\<rparr>\<rparr>"

text \<open>The \<^verbatim>\<open>for (let i = 0; i < rows.length; i++)\<close> loop over the parsed rows.\<close>

fun scanRows :: "(nat \<Rightarrow> row \<Rightarrow> scan \<Rightarrow> scan) \<Rightarrow> nat \<Rightarrow> row list \<Rightarrow> scan \<Rightarrow> scan" where
  "scanRows step i [] sc = sc"
| "scanRows step i (r # rs) sc = scanRows step (Suc i) rs (step i r sc)"

text \<open>The same loop when the body can throw: the scan stops at the throwing row.\<close>

fun scanRowsThrowing ::
  "(nat \<Rightarrow> row \<Rightarrow> scan \<Rightarrow> string + scan) \<Rightarrow> nat \<Rightarrow> row list \<Rightarrow> scan \<Rightarrow> string option \<times> scan" where
  "scanRowsThrowing step i [] sc = (None, sc)"
| "scanRowsThrowing step i (r # rs) sc =
     (case step i r sc of
        Inl msg \<Rightarrow> (Some msg, sc)
      | Inr sc1 \<Rightarrow> scanRowsThrowing step (Suc i) rs sc1)"

text \<open>
  \<^verbatim>\<open>headers = Array.from(new Set(Object.keys(rows[0] || {}).map(h => h.trim()).filter(h => h)))\<close>.
\<close>

definition fileHeaders :: "runtime \<Rightarrow> row list \<Rightarrow> string list" where
  "fileHeaders R rows =
     (let rawHeaders = map fst (case rows of [] \<Rightarrow> [] | r # rest \<Rightarrow> r)
      in uniq (filter (\<lambda>h. h \<noteq> []) (map (trim R) rawHeaders)))"

text \<open>The retrieval block of the search route.\<close>

definition acquire :: "collab \<Rightarrow> fileDesc \<Rightarrow> string + string" where
  "acquire E file =
     (if truthy (file_url file) then fetchText E (orEmpty (file_url file))
      else Inl ''File must have a url'')"

definition beginFile :: "string \<Rightarrow> string \<Rightarrow> pstate \<Rightarrow> pstate" where
  "beginFile filename p st =
     sendEvent (FileStart filename p)
       (st\<lparr>stats := (stats st)\<lparr>currentFile := Some filename, currentFileRows := Some 0,
                                 currentFileMatches := Some 0\<rparr>\<rparr>)"

definition parseErrorEvent :: "string \<Rightarrow> string list \<Rightarrow> event" where
  "parseErrorEvent filename errors =
     ErrorEvent (Some filename) (''CSV parsing errors: '' @ join '', '' errors)"

definition noteRows :: "nat \<Rightarrow> pstate \<Rightarrow> pstate" where
  "noteRows n st =
     st\<lparr>stats := (stats st)\<lparr>totalRows := totalRows (stats st) + n, currentFileRows := Some n\<rparr>\<rparr>"

text \<open>After the scan: the statistics and the channel of the scan become the request's.\<close>

definition endScan :: "scan \<Rightarrow> pstate \<Rightarrow> pstate" where
  "endScan sc st =
     st\<lparr>stats := (sc_stats sc)\<lparr>currentFileMatches := Some (sc_matches sc)\<rparr>,
        events := sc_events sc\<rparr>"

text \<open>
  The end of a file in the search route: the output record, \<^verbatim>\<open>stats.processedFiles++\<close>,
  the \<^verbatim>\<open>file-complete\<close> event and a statistics snapshot.
\<close>

definition completeFile :: "fileDesc \<Rightarrow> scan \<Rightarrow> string option \<Rightarrow> pstate \<Rightarrow> pstate" where
  "completeFile file sc np st =
     (let st1 = st\<lparr>outputFiles := outputFiles st @ [\<lparr>originalPath = file_path file, newPath = np\<rparr>]\<rparr>;
          st2 = st1\<lparr>stats := (stats st1)\<lparr>processedFiles := processedFiles (stats st1) + 1,
                                          currentFile := None\<rparr>\<rparr>;
          st3 = sendEvent (FileComplete (file_name file) (sc_matches sc) (sc_replacements sc) np) st2
      in sendEvent (Stats (stats st3)) st3)"

text \<open>Serialize the retained rows, persist them under the derived name, complete the file.\<close>

definition persistAndComplete :: "collab \<Rightarrow> fileDesc \<Rightarrow> scan \<Rightarrow> pstate \<Rightarrow> pstate" where
  "persistAndComplete E file sc st =
     (let newCsv = papaUnparse E (sc_rows sc)
      in case saveProcessedFile E (replacedFileName (file_path file)) newCsv st of
           (Inl msg, st1) \<Rightarrow> sendEvent (ErrorEvent (Some (file_name file)) msg) st1
         | (Inr filePath, st1) \<Rightarrow> completeFile file sc (Some (getDownloadUrl E filePath)) st1)"

subsection \<open>Simple mode\<close>

text \<open>The character class \<^verbatim>\<open>[.*+?^${}()|[\]\\]\<close> and \<^verbatim>\<open>searchTerm.replace(..., '\\$&')\<close>.\<close>

definition backslash :: char where
  "backslash = CHR 0x5C"

definition regexSpecial :: "char \<Rightarrow> bool" where
  "regexSpecial c = (c \<in> set (''.*+?^${}()|[]'' @ [backslash]))"

fun escapeRegExp :: "string \<Rightarrow> string" where
  "escapeRegExp [] = []"
| "escapeRegExp (c # cs) =
     (if regexSpecial c then backslash # c # escapeRegExp cs else c # escapeRegExp cs)"

definition wordBoundary :: string where
  "wordBoundary = [backslash, CHR ''b'']"

definition searchPattern :: "bool \<Rightarrow> bool \<Rightarrow> string \<Rightarrow> string" where
  "searchPattern useRx whole term =
     (if useRx
      then (if whole then wordBoundary @ ''('' @ term @ '')'' @ wordBoundary else term)
      else (let escaped = escapeRegExp term
            in if whole then wordBoundary @ escaped @ wordBoundary else escaped))"

definition searchFlags :: "bool \<Rightarrow> string" where
  "searchFlags cs = (if cs then ''g'' else ''gi'')"

definition compileSearch :: "runtime \<Rightarrow> processRequest \<Rightarrow> string + (string \<Rightarrow> bool)" where
  "compileSearch R req =
     regExp R (searchPattern (orFalse (useRegex req)) (orFalse (wholeWord req)) (orEmpty (searchTerm req)))
       (searchFlags (orFalse (caseSensitive req)))"

text \<open>The row-level text and the row-level test of simple mode.\<close>

definition rowText :: "string list \<Rightarrow> row \<Rightarrow> string" where
  "rowText searchFields r = join '' '' (map (\<lambda>field. getField r field) searchFields)"

definition rowMatchedSimple :: "(string \<Rightarrow> bool) \<Rightarrow> string list \<Rightarrow> row \<Rightarrow> bool" where
  "rowMatchedSimple searchRegex searchFields r = searchRegex (rowText searchFields r)"

definition simpleIsReplaceMode :: "processRequest \<Rightarrow> bool" where
  "simpleIsReplaceMode req = (replaceTerm req \<noteq> None \<and> replaceTerm req \<noteq> Some [])"

definition replaceFieldsOf :: "processRequest \<Rightarrow> string list \<Rightarrow> string list" where
  "replaceFieldsOf req headers =
     (if ''All'' \<in> set (selectedFields req) \<or> length (selectedFields req) = 0 then headers
      else filter (\<lambda>f. f \<in> set headers) (selectedFields req))"

text \<open>Search-only branch: the per-field attribution pass.\<close>

fun attributeFields :: "(string \<Rightarrow> bool) \<Rightarrow> row \<Rightarrow> string list \<Rightarrow> rowChange list" where
  "attributeFields searchRegex r [] = []"
| "attributeFields searchRegex r (field # rest) =
     (let v = getField r field
      in if searchRegex v
         then \<lparr>ch_field = field, oldValue = v, newValue = v\<rparr> # attributeFields searchRegex r rest
         else attributeFields searchRegex r rest)"

text \<open>Replace branch: the loop over \<^verbatim>\<open>replaceFields\<close>; the accumulator holds the row, the
  change records and the scan (for the two counters).\<close>

fun replaceInFields ::
  "string \<Rightarrow> string list \<Rightarrow> row \<times> rowChange list \<times> scan \<Rightarrow> row \<times> rowChange list \<times> scan" where
  "replaceInFields nv [] acc = acc"
| "replaceInFields nv (field # rest) (r, rowMatches, sc) =
     (let ov = getField r field
      in if nv \<noteq> ov
         then replaceInFields nv rest
                (setField field nv r,
                 rowMatches @ [\<lparr>ch_field = field, oldValue = ov, newValue = nv\<rparr>],
                 countReplacement sc)
         else replaceInFields nv rest (r, rowMatches, sc))"

definition rowProcessed :: "fileDesc \<Rightarrow> nat \<Rightarrow> nat \<Rightarrow> rowChange list \<Rightarrow> scan \<Rightarrow> scan" where
  "rowProcessed file n i rowMatches sc =
     (if length rowMatches > 0
      then emit (RowProcessed (file_name file) (file_path file) (i + 1) n rowMatches) sc
      else sc)"

definition simpleRow ::
  "processRequest \<Rightarrow> (string \<Rightarrow> bool) \<Rightarrow> fileDesc \<Rightarrow> string list \<Rightarrow> string list \<Rightarrow> nat \<Rightarrow>
     nat \<Rightarrow> row \<Rightarrow> scan \<Rightarrow> scan" where
  "simpleRow req searchRegex file searchFields replaceFields n i r sc =
     (let rowMatched = rowMatchedSimple searchRegex searchFields r
      in if \<not> rowMatched
         then statsTick n i (countRow (if \<not> showOnlyMatches req then pushRow r sc else sc))
         else
           (let sc1 = countMatch sc;
                (r2, rowMatches, sc2) =
                   (if \<not> simpleIsReplaceMode req
                    then (r, attributeFields searchRegex r searchFields, sc1)
                    else replaceInFields (orEmpty (replaceTerm req)) replaceFields (r, [], sc1));
                sc3 = (if \<not> showOnlyMatches req \<or> rowMatched then pushRow r2 sc2 else sc2)
            in statsTick n i (rowProcessed file n i rowMatches (countRow sc3))))"

definition processFileSimple :: "collab \<Rightarrow> runtime \<Rightarrow> processRequest \<Rightarrow> fileDesc \<Rightarrow> pstate \<Rightarrow> pstate" where
  "processFileSimple E R req file st =
     (let st1 = beginFile (file_name file) (file_path file) st
      in case acquire E file of
           Inl msg \<Rightarrow> sendEvent (ErrorEvent (Some (file_name file)) msg) st1
         | Inr text \<Rightarrow>
             (case papaParse E text of
                (errors, rows) \<Rightarrow>
                  if length errors > 0
                  then sendEvent (parseErrorEvent (file_name file) errors) st1
                  else
                    (let headers = fileHeaders R rows;
                         st2 = noteRows (length rows) st1;
                         replaceFields = replaceFieldsOf req headers;
                         searchFields = headers
                     in case compileSearch R req of
                          Inl msg \<Rightarrow> sendEvent (ErrorEvent (Some (file_name file)) msg) st2
                        | Inr searchRegex \<Rightarrow>
                            (let st3 = sendEvent (FileInfo (file_name file) (length rows)
                                                   (length searchFields)) st2;
                                 sc = scanRows (simpleRow req searchRegex file searchFields
                                                  replaceFields (length rows))
                                        0 rows (startScan st3);
                                 st4 = endScan sc st3
                             in if simpleIsReplaceMode req
                                then persistAndComplete E file sc st4
                                else completeFile file sc None st4))))"

subsection \<open>Advanced mode (\<^verbatim>\<open>processFilesWithAdvancedSearch\<close>)\<close>

definition advancedIsReplaceMode :: "processRequest \<Rightarrow> bool" where
  "advancedIsReplaceMode req = (truthy (replaceTargetField req) \<and> replaceValue req \<noteq> None)"

definition attribution :: "row \<Rightarrow> string list \<Rightarrow> rowChange list" where
  "attribution r matchedFields =
     map (\<lambda>field. \<lparr>ch_field = field, oldValue = getField r field, newValue = getField r field\<rparr>)
       matchedFields"

text \<open>The body of the advanced row loop after a match was found.\<close>

definition advancedMatched ::
  "processRequest \<Rightarrow> fileDesc \<Rightarrow> string list \<Rightarrow> nat \<Rightarrow> nat \<Rightarrow> row \<Rightarrow> string list \<Rightarrow> scan \<Rightarrow> scan" where
  "advancedMatched req file headers n i r matchedFields sc =
     (let sc1 = countMatch sc;
          target = orEmpty (replaceTargetField req);
          (r2, rowMatchesEvents, sc2) =
             (if advancedIsReplaceMode req \<and> truthy (replaceTargetField req) \<and> target \<in> set headers
              then (let ov = getField r target; nv = orEmpty (replaceValue req)
                    in if nv \<noteq> ov
                       then (setField target nv r,
                             [\<lparr>ch_field = target, oldValue = ov, newValue = nv\<rparr>],
                             countReplacement sc1)
                       else (r, [], sc1))
              else (r, attribution r matchedFields, sc1));
          sc3 = (if \<not> showOnlyMatches req \<or> length rowMatchesEvents > 0 then pushRow r2 sc2 else sc2)
      in statsTick n i (rowProcessed file n i rowMatchesEvents (countRow sc3)))"

definition advancedRow ::
  "runtime \<Rightarrow> processRequest \<Rightarrow> advancedSearchConfig \<Rightarrow> fileDesc \<Rightarrow> string list \<Rightarrow> nat \<Rightarrow>
     nat \<Rightarrow> row \<Rightarrow> scan \<Rightarrow> string + scan" where
  "advancedRow R req adv file headers n i r sc =
     (case rowMatchesAdvanced R r headers adv of
        Inl msg \<Rightarrow> Inl msg
      | Inr (rowMatchesFlag, matchedFields) \<Rightarrow>
          if \<not> rowMatchesFlag
          then Inr (statsTick n i (countRow (if \<not> showOnlyMatches req then pushRow r sc else sc)))
          else Inr (advancedMatched req file headers n i r matchedFields sc))"

definition processFileAdvanced ::
  "collab \<Rightarrow> runtime \<Rightarrow> processRequest \<Rightarrow> advancedSearchConfig \<Rightarrow> fileDesc \<Rightarrow> pstate \<Rightarrow> pstate" where
  "processFileAdvanced E R req adv file st =
     (let st1 = beginFile (file_name file) (file_path file) st
      in case acquire E file of
           Inl msg \<Rightarrow> sendEvent (ErrorEvent (Some (file_name file)) msg) st1
         | Inr text \<Rightarrow>
             (case papaParse E text of
                (errors, rows) \<Rightarrow>
                  if length errors > 0
                  then sendEvent (parseErrorEvent (file_name file) errors) st1
                  else
                    (let headers = fileHeaders R rows;
                         st2 = noteRows (length rows) st1;
                         st3 = sendEvent (FileInfo (file_name file) (length rows) (length headers)) st2
                     in case scanRowsThrowing (advancedRow R req adv file headers (length rows))
                               0 rows (startScan st3) of
                          (Some msg, sc) \<Rightarrow>
                            sendEvent (ErrorEvent (Some (file_name file)) msg)
                              (st3\<lparr>stats := sc_stats sc, events := sc_events sc\<rparr>)
                        | (None, sc) \<Rightarrow>
                            (let st4 = endScan sc st3
                             in if advancedIsReplaceMode req
                                then persistAndComplete E file sc st4
                                else completeFile file sc None st4))))"

subsection \<open>The whole request\<close>

definition finishBatch :: "collab \<Rightarrow> bool \<Rightarrow> pstate \<Rightarrow> pstate" where
  "finishBatch E withOutputFiles st =
     (case bundleOutputs E st of
        ((downloadUrl, isZip), st1) \<Rightarrow>
          sendEvent (Complete (if withOutputFiles then Some (outputFiles st1) else None)
                       downloadUrl isZip (stats st1)) st1)"

definition processFilesWithAdvancedSearch ::
  "collab \<Rightarrow> runtime \<Rightarrow> processRequest \<Rightarrow> advancedSearchConfig \<Rightarrow> pstate \<Rightarrow> pstate" where
  "processFilesWithAdvancedSearch E R req adv st =
     finishBatch E True (fold (processFileAdvanced E R req adv) (files req) st)"

text \<open>Simple mode over the whole batch, after the check of the search term.\<close>

definition processFilesSimple :: "collab \<Rightarrow> runtime \<Rightarrow> processRequest \<Rightarrow> pstate \<Rightarrow> pstate" where
  "processFilesSimple E R req st =
     (if \<not> truthy (searchTerm req)
      then sendEvent (ErrorEvent None ''Search term is required in simple mode'') st
      else finishBatch E True (fold (processFileSimple E R req) (files req) st))"

text \<open>
  \<^verbatim>\<open>useAdvanced = advanced && Array.isArray(advanced.conditions) && advanced.conditions.length > 0\<close>
  selects the mode.
\<close>

definition processPOST :: "collab \<Rightarrow> runtime \<Rightarrow> processRequest \<Rightarrow> pstate" where
  "processPOST E R req =
     (if length (files req) = 0
      then sendEvent (ErrorEvent None ''Files are required'') (initialState 0)
      else
        (let st = initialState (length (files req))
         in case advanced req of
              Some adv \<Rightarrow>
                if length (conditions adv) > 0
                then processFilesWithAdvancedSearch E R req adv st
                else processFilesSimple E R req st
            | None \<Rightarrow> processFilesSimple E R req st))"

section \<open>The replay route (\<^verbatim>\<open>POST /api/csv/replace\<close>)\<close>

record searchResultRow =
  rowIndex :: int
  sr_fields :: "(string \<times> string) list"

record searchResult =
  sr_filename :: string
  sr_path :: string
  sr_rows :: "searchResultRow list"

text \<open>A replace operation as it arrives (members may be absent) and after validation.\<close>

record rawOperation =
  raw_field :: "string option"
  raw_value :: "string option"

record replaceOperation =
  op_field :: string
  op_value :: string

record replaceRequest =
  searchResults :: "searchResult list"
  selectedFiles :: "fileDesc list"
  rp_replaceTargetField :: "string option"
  rp_replaceValue :: "string option"
  replaceOperations :: "rawOperation list"

text \<open>
  The operations of a request: the new format when \<^verbatim>\<open>replaceOperations\<close> is not empty,
  else the single field and value of the old format.
\<close>

definition rawOperations :: "replaceRequest \<Rightarrow> string + rawOperation list" where
  "rawOperations req =
     (if length (replaceOperations req) > 0 then Inr (replaceOperations req)
      else if truthy (rp_replaceTargetField req)
      then (if rp_replaceValue req = None
            then Inl ''Replace value must be provided (empty string is allowed)''
            else Inr [\<lparr>raw_field = rp_replaceTargetField req, raw_value = rp_replaceValue req\<rparr>])
      else Inl ''Either replaceOperations or replaceTargetField must be provided'')"

fun validateOperations :: "rawOperation list \<Rightarrow> string + replaceOperation list" where
  "validateOperations [] = Inr []"
| "validateOperations (op # rest) =
     (if \<not> truthy (raw_field op)
      then Inl ''All replace operations must have a field specified''
      else if raw_value op = None
      then Inl ''All replace operations must have a value specified (empty string is allowed)''
      else (case validateOperations rest of
              Inl msg \<Rightarrow> Inl msg
            | Inr ops \<Rightarrow> Inr (\<lparr>op_field = orEmpty (raw_field op), op_value = orEmpty (raw_value op)\<rparr> # ops)))"

text \<open>\<^verbatim>\<open>filesMap.set(result.path, result)\<close>: a \<^verbatim>\<open>Map\<close> in insertion order.\<close>

fun mapSet :: "string \<Rightarrow> 'v \<Rightarrow> (string \<times> 'v) list \<Rightarrow> (string \<times> 'v) list" where
  "mapSet k v [] = [(k, v)]"
| "mapSet k v ((k1, v1) # m) = (if k1 = k then (k, v) # m else (k1, v1) # mapSet k v m)"

fun groupByPath :: "searchResult list \<Rightarrow> (string \<times> searchResult) list \<Rightarrow> (string \<times> searchResult) list" where
  "groupByPath [] filesMap = filesMap"
| "groupByPath (result # rest) filesMap =
     (if length (sr_rows result) > 0
      then groupByPath rest (mapSet (sr_path result) result filesMap)
      else groupByPath rest filesMap)"

text \<open>The locator of a file: the URL of the matching original file when there is one.\<close>

definition actualFilePath :: "fileDesc list \<Rightarrow> string \<Rightarrow> searchResult \<Rightarrow> string" where
  "actualFilePath selected filePath sr =
     (case find (\<lambda>f. file_name f = sr_filename sr \<or> file_path f = filePath \<or> file_path f = sr_path sr)
             selected of
        Some originalFile \<Rightarrow>
          if truthy (file_url originalFile) then orEmpty (file_url originalFile) else filePath
      | None \<Rightarrow> filePath)"

text \<open>\<^verbatim>\<open>rowsToReplace = new Set(searchResult.rows.map((r) => r.rowIndex - 1))\<close> and
  \<^verbatim>\<open>rowsToReplace.has(i)\<close>.\<close>

definition rowsToReplace :: "searchResult \<Rightarrow> int set" where
  "rowsToReplace sr = set (map (\<lambda>r. rowIndex r - 1) (sr_rows sr))"

text \<open>The loop over the operations for one selected row.\<close>

fun applyOperations ::
  "string list \<Rightarrow> replaceOperation list \<Rightarrow> row \<times> rowChange list \<times> scan \<Rightarrow> row \<times> rowChange list \<times> scan" where
  "applyOperations headers [] acc = acc"
| "applyOperations headers (op # rest) (r, rowMatchesEvents, sc) =
     (if op_field op \<notin> set headers then applyOperations headers rest (r, rowMatchesEvents, sc)
      else
        (let ov = getField r (op_field op); nv = op_value op
         in if ov \<noteq> nv
            then applyOperations headers rest
                   (setField (op_field op) nv r,
                    rowMatchesEvents @ [\<lparr>ch_field = op_field op, oldValue = ov, newValue = nv\<rparr>],
                    countReplacement sc)
            else applyOperations headers rest (r, rowMatchesEvents, sc)))"

definition replayRow ::
  "replaceOperation list \<Rightarrow> searchResult \<Rightarrow> string \<Rightarrow> string list \<Rightarrow> nat \<Rightarrow> nat \<Rightarrow> row \<Rightarrow> scan \<Rightarrow> scan" where
  "replayRow operations sr filePath headers n i r sc =
     (let (r2, rowMatchesEvents, sc2) =
             (if int i \<in> rowsToReplace sr then applyOperations headers operations (r, [], sc)
              else (r, [], sc));
          sc3 = countRow (pushRow r2 sc2);
          sc4 = (if length rowMatchesEvents > 0
                 then emit (RowProcessed (sr_filename sr) filePath (i + 1) n rowMatchesEvents) sc3
                 else sc3)
      in statsTick n i sc4)"

definition invalidFields :: "replaceOperation list \<Rightarrow> string list \<Rightarrow> string list" where
  "invalidFields operations headers = filter (\<lambda>field. field \<notin> set headers) (map op_field operations)"

definition fieldsNotFoundEvent :: "string \<Rightarrow> string list \<Rightarrow> event" where
  "fieldsNotFoundEvent filename missing =
     ErrorEvent (Some filename) (''Fields not found in CSV headers: '' @ join '', '' missing)"

text \<open>The end of a file in the replay route.\<close>

definition completeReplay :: "searchResult \<Rightarrow> string \<Rightarrow> scan \<Rightarrow> string option \<Rightarrow> pstate \<Rightarrow> pstate" where
  "completeReplay sr filePath sc np st =
     (let st1 = st\<lparr>outputFiles := outputFiles st @ [\<lparr>originalPath = filePath, newPath = np\<rparr>]\<rparr>;
          st2 = st1\<lparr>stats := (stats st1)\<lparr>currentFile := None\<rparr>\<rparr>;
          st3 = sendEvent (FileComplete (sr_filename sr) (sc_replacements sc) (sc_replacements sc) np) st2
      in sendEvent (Stats (stats st3)) st3)"

definition replayFile ::
  "collab \<Rightarrow> runtime \<Rightarrow> fileDesc list \<Rightarrow> replaceOperation list \<Rightarrow> string \<times> searchResult \<Rightarrow> pstate \<Rightarrow> pstate" where
  "replayFile E R selected operations entry st =
     (case entry of
        (filePath, sr) \<Rightarrow>
          (let st1 = sendEvent (FileStart (sr_filename sr) filePath)
                       (st\<lparr>stats := (stats st)\<lparr>currentFile := Some (sr_filename sr)\<rparr>\<rparr>)
           in case fetchText E (actualFilePath selected filePath sr) of
                Inl msg \<Rightarrow> sendEvent (ErrorEvent (Some (sr_filename sr)) msg) st1
              | Inr text \<Rightarrow>
                  (case papaParse E text of
                     (errors, rows) \<Rightarrow>
                       if length errors > 0
                       then sendEvent (parseErrorEvent (sr_filename sr) errors) st1
                       else
                         (let headers = fileHeaders R rows;
                              st2 = st1\<lparr>stats := (stats st1)\<lparr>totalRows := totalRows (stats st1) + length rows\<rparr>\<rparr>
                          in if length (invalidFields operations headers) > 0
                             then sendEvent (fieldsNotFoundEvent (sr_filename sr)
                                               (invalidFields operations headers)) st2
                             else
                               (let st3 = sendEvent (FileInfo (sr_filename sr) (length rows)
                                                      (length operations)) st2;
                                    sc = scanRows (replayRow operations sr filePath headers (length rows))
                                           0 rows (startScan st3);
                                    st4 = st3\<lparr>stats := sc_stats sc, events := sc_events sc\<rparr>
                                in if sc_replacements sc > 0
                                   then (case saveProcessedFile E (replacedFileName filePath)
                                                (papaUnparse E (sc_rows sc)) st4 of
                                           (Inl msg, st5) \<Rightarrow>
                                             sendEvent (ErrorEvent (Some (sr_filename sr)) msg) st5
                                         | (Inr filePathSaved, st5) \<Rightarrow>
                                             completeReplay sr filePath sc
                                               (Some (getDownloadUrl E filePathSaved))
                                               (st5\<lparr>stats := (stats st5)\<lparr>processedFiles :=
                                                       processedFiles (stats st5) + 1\<rparr>\<rparr>))
                                   else completeReplay sr filePath sc None st4)))))"

definition replacePOST :: "collab \<Rightarrow> runtime \<Rightarrow> replaceRequest \<Rightarrow> pstate" where
  "replacePOST E R req =
     (if length (searchResults req) = 0
      then sendEvent (ErrorEvent None ''No search results provided'') (initialState 0)
      else
        (case rawOperations req of
           Inl msg \<Rightarrow> sendEvent (ErrorEvent None msg) (initialState 0)
         | Inr raw \<Rightarrow>
             (case validateOperations raw of
                Inl msg \<Rightarrow> sendEvent (ErrorEvent None msg) (initialState 0)
              | Inr operations \<Rightarrow>
                  (let filesMap = groupByPath (searchResults req) []
                   in if length filesMap = 0
                      then sendEvent (ErrorEvent None ''No files with matching rows found'') (initialState 0)
                      else finishBatch E False
                             (fold (replayFile E R (selectedFiles req) operations) filesMap
                                (initialState (length filesMap)))))))"

section \<open>A concrete runtime and concrete collaborators\<close>

text \<open>
  An instance of the parameters, for evaluating the model on concrete requests.  It
  covers ASCII text: lowering and trimming of ASCII, regular expressions made of
  letters, digits and spaces only (for which \<^verbatim>\<open>test\<close> is a substring search, folded to
  lower case under the \<^verbatim>\<open>i\<close> flag; any other pattern is answered like a constructor
  that throws), and delimited text without quoted fields.
\<close>

definition asciiLower :: "char \<Rightarrow> char" where
  "asciiLower c = (case map_of (zip upperLetters lowerLetters) c of None \<Rightarrow> c | Some d \<Rightarrow> d)"

definition asciiSpace :: "char \<Rightarrow> bool" where
  "asciiSpace c = (c \<in> set [CHR '' '', CHR 0x09, CHR 0x0A, CHR 0x0B, CHR 0x0C, CHR 0x0D])"

definition asciiTrim :: "string \<Rightarrow> string" where
  "asciiTrim s = rev (dropWhile asciiSpace (rev (dropWhile asciiSpace s)))"

definition literalRegExp :: "string \<Rightarrow> string \<Rightarrow> string + (string \<Rightarrow> bool)" where
  "literalRegExp p flags =
     (if list_all (\<lambda>c. c \<in> set (lowerLetters @ upperLetters @ digits @ '' '')) p
      then Inr (\<lambda>s. if CHR ''i'' \<in> set flags
                     then sublist (map asciiLower p) (map asciiLower s)
                     else sublist p s)
      else Inl (''Invalid regular expression: /'' @ p @ ''/''))"

definition asciiRuntime :: runtime where
  "asciiRuntime = \<lparr>regExp = literalRegExp, toLowerCase = map asciiLower, trim = asciiTrim\<rparr>"

text \<open>Splitting at a separator character (\<^verbatim>\<open>String.prototype.split\<close> with one character).\<close>

fun splitAt :: "char \<Rightarrow> string \<Rightarrow> string \<Rightarrow> string list" where
  "splitAt sep cur [] = [rev cur]"
| "splitAt sep cur (c # cs) =
     (if c = sep then rev cur # splitAt sep [] cs else splitAt sep (c # cur) cs)"

definition newline :: char where
  "newline = CHR 0x0A"

text \<open>
  Delimited text without quotes: the first non-empty line is the header (trimmed by
  \<^verbatim>\<open>transformHeader\<close>), every further non-empty line is a row; a line with another
  number of fields than the header is a structural error.
\<close>

definition plainParse :: "string \<Rightarrow> string list \<times> row list" where
  "plainParse text =
     (case filter (\<lambda>l. l \<noteq> []) (splitAt newline [] text) of
        [] \<Rightarrow> ([], [])
      | h # ls \<Rightarrow>
          (let header = map asciiTrim (splitAt (CHR '','') [] h);
               cells = map (splitAt (CHR '','') []) ls
           in if list_all (\<lambda>cs. length cs = length header) cells
              then ([], map (\<lambda>cs. zip header cs) cells)
              else ([''Field count mismatch''], map (\<lambda>cs. zip header cs) cells)))"

definition plainUnparse :: "row list \<Rightarrow> string" where
  "plainUnparse rows =
     (case rows of
        [] \<Rightarrow> []
      | r # rest \<Rightarrow>
          join [CHR 0x0D, newline]
            (join '','' (map fst r) # map (\<lambda>x. join '','' (map (getField x) (map fst r))) rows))"

text \<open>Two small files, reachable under two locators; every write and archive run succeeds.\<close>

definition citiesCsv :: string where
  "citiesCsv = ''name,state'' @ [newline] @ ''Ann,NY'' @ [newline] @ ''Bob,CA'' @ [newline] @ ''Cy,ny''"

definition ordersCsv :: string where
  "ordersCsv = ''id,city,state'' @ [newline] @ ''1,Albany,NY'' @ [newline] @ ''2,Troy,New York''"

definition demoFetch :: "string \<Rightarrow> string + string" where
  "demoFetch u =
     (if u = ''/api/download?file=1_cities.csv'' then Inr citiesCsv
      else if u = ''/api/download?file=2_orders.csv'' then Inr ordersCsv
      else Inl ''ENOENT: no such file or directory'')"

definition demoCollab :: collab where
  "demoCollab =
     \<lparr>fetchText = demoFetch, papaParse = plainParse, papaUnparse = plainUnparse,
      writeFile = (\<lambda>p content. None), archiver = (\<lambda>zipPath entries. None),
      dateNow = (\<lambda>k. 1700 + k), tmpDir = ''/app/tmp''\<rparr>"

text \<open>The same collaborators with an archive run that fails.\<close>

definition brokenZipCollab :: collab where
  "brokenZipCollab = demoCollab\<lparr>archiver := (\<lambda>zipPath entries. Some ''archive failed'')\<rparr>"

definition citiesFile :: fileDesc where
  "citiesFile =
     \<lparr>file_path = ''/app/tmp/1_cities.csv'', file_name = ''cities.csv'',
      file_url = Some ''/api/download?file=1_cities.csv''\<rparr>"

definition ordersFile :: fileDesc where
  "ordersFile =
     \<lparr>file_path = ''/app/tmp/2_orders.csv'', file_name = ''orders.csv'',
      file_url = Some ''/api/download?file=2_orders.csv''\<rparr>"

definition citiesRows :: "row list" where
  "citiesRows =
     [[(''name'', ''Ann''), (''state'', ''NY'')],
      [(''name'', ''Bob''), (''state'', ''CA'')],
      [(''name'', ''Cy''), (''state'', ''ny'')]]"

definition ordersRows :: "row list" where
  "ordersRows =
     [[(''id'', ''1''), (''city'', ''Albany''), (''state'', ''NY'')],
      [(''id'', ''2''), (''city'', ''Troy''), (''state'', ''New York'')]]"

text \<open>A simple-mode request and an advanced-mode request over these files.\<close>

definition simpleRequest :: processRequest where
  "simpleRequest =
     \<lparr>files = [citiesFile], searchTerm = Some ''NY'', replaceTerm = None, selectedFields = [],
      showOnlyMatches = False, caseSensitive = None, wholeWord = None, useRegex = None,
      advanced = None, replaceTargetField = None, replaceValue = None\<rparr>"

definition stateEqualsNY :: advancedSearchConfig where
  "stateEqualsNY =
     \<lparr>conditions = [\<lparr>cond_field = ''state'', cond_value = ''NY'', cond_mode = Some Equals\<rparr>],
      logic = Some AND, adv_caseSensitive = None\<rparr>"

definition advancedRequest :: processRequest where
  "advancedRequest =
     \<lparr>files = [citiesFile, ordersFile], searchTerm = None, replaceTerm = None, selectedFields = [],
      showOnlyMatches = False, caseSensitive = None, wholeWord = None, useRegex = None,
      advanced = Some stateEqualsNY, replaceTargetField = Some ''state'',
      replaceValue = Some ''New York''\<rparr>"

text \<open>A search result naming the first and third row of the cities file, and requests
  of the replay route over it.\<close>

definition citiesResult :: searchResult where
  "citiesResult =
     \<lparr>sr_filename = ''cities.csv'', sr_path = ''/app/tmp/1_cities.csv'',
      sr_rows = [\<lparr>rowIndex = 1, sr_fields = [(''state'', ''NY'')]\<rparr>,
                 \<lparr>rowIndex = 3, sr_fields = [(''state'', ''ny'')]\<rparr>]\<rparr>"


definition replayRequest :: replaceRequest where
  "replayRequest =
     \<lparr>searchResults = [citiesResult], selectedFiles = [citiesFile],
      rp_replaceTargetField = None, rp_replaceValue = None,
      replaceOperations = [\<lparr>raw_field = Some ''state'', raw_value = Some ''New York''\<rparr>]\<rparr>"

text \<open>Scenario D: one operation on a field \<open>status\<close> that the file does not have; and the
  same request with a second operation on a field the file has.\<close>

definition statusRequest :: replaceRequest where
  "statusRequest =
     replayRequest\<lparr>replaceOperations := [\<lparr>raw_field = Some ''status'', raw_value = Some ''closed''\<rparr>]\<rparr>"

definition stateAndStatusRequest :: replaceRequest where
  "stateAndStatusRequest =
     replayRequest\<lparr>replaceOperations :=
       [\<lparr>raw_field = Some ''state'', raw_value = Some ''New York''\<rparr>,
        \<lparr>raw_field = Some ''status'', raw_value = Some ''closed''\<rparr>]\<rparr>"

definition closeStatus :: "replaceOperation list" where
  "closeStatus = [\<lparr>op_field = ''status'', op_value = ''closed''\<rparr>]"

definition citiesPath :: string where
  "citiesPath = ''/app/tmp/1_cities.csv''"

text \<open>An advanced request whose target field \<open>status\<close> is in neither file.\<close>

definition statusAdvancedRequest :: processRequest where
  "statusAdvancedRequest =
     advancedRequest\<lparr>replaceTargetField := Some ''status'', replaceValue := Some ''closed''\<rparr>"

text \<open>The simple request with a replacement term that is supplied but empty.\<close>

definition emptyReplaceRequest :: processRequest where
  "emptyReplaceRequest = simpleRequest\<lparr>replaceTerm := Some []\<rparr>"

text \<open>The advanced request over the cities file alone, keeping only matching rows and
  writing \<open>NY\<close> into \<open>state\<close>: the first row matches and already holds \<open>NY\<close>.\<close>

definition onlyMatchesRequest :: processRequest where
  "onlyMatchesRequest =
     advancedRequest\<lparr>files := [citiesFile], showOnlyMatches := True, replaceValue := Some ''NY''\<rparr>"


text \<open>Simple-mode requests over the cities file: a case-sensitive search, a whole-word
  search for a term with a special character, and a replacement of \<open>state\<close> by \<open>NY\<close> in
  the rows that contain \<open>NY\<close> in any letter case.\<close>

definition caseSensitiveRequest :: processRequest where
  "caseSensitiveRequest = simpleRequest\<lparr>caseSensitive := Some True\<rparr>"

definition wholeWordRequest :: processRequest where
  "wholeWordRequest = simpleRequest\<lparr>searchTerm := Some ''a.b'', wholeWord := Some True\<rparr>"

definition stateReplaceRequest :: processRequest where
  "stateReplaceRequest = simpleRequest\<lparr>replaceTerm := Some ''NY'', selectedFields := [''state'']\<rparr>"

text \<open>The replay operation that writes \<open>NY\<close> into \<open>state\<close>.\<close>

definition stateToNY :: "replaceOperation list" where
  "stateToNY = [\<lparr>op_field = ''state'', op_value = ''NY''\<rparr>]"
section \<open>Auxiliary functions for the proofs\<close>

text \<open>
  The row and the change records that the loop over the operations leaves behind, as
  functions of the row alone; \<open>applyOperations_eq\<close> below shows that the loop computes
  them.
\<close>

fun appliedRow :: "string list \<Rightarrow> replaceOperation list \<Rightarrow> row \<Rightarrow> row" where
  "appliedRow hs [] r = r"
| "appliedRow hs (op # rest) r =
     (if op_field op \<in> set hs \<and> getField r (op_field op) \<noteq> op_value op
      then appliedRow hs rest (setField (op_field op) (op_value op) r)
      else appliedRow hs rest r)"

fun appliedChanges :: "string list \<Rightarrow> replaceOperation list \<Rightarrow> row \<Rightarrow> rowChange list" where
  "appliedChanges hs [] r = []"
| "appliedChanges hs (op # rest) r =
     (if op_field op \<in> set hs \<and> getField r (op_field op) \<noteq> op_value op
      then \<lparr>ch_field = op_field op, oldValue = getField r (op_field op), newValue = op_value op\<rparr>
             # appliedChanges hs rest (setField (op_field op) (op_value op) r)
      else appliedChanges hs rest r)"

text \<open>The value of a field after a sequence of operations: that of the last operation
  naming the field, else the value the row had.\<close>

definition valueAfter :: "replaceOperation list \<Rightarrow> row \<Rightarrow> string \<Rightarrow> string" where
  "valueAfter ops r f =
     (case find (\<lambda>op. op_field op = f) (rev ops) of
        None \<Rightarrow> getField r f
      | Some op \<Rightarrow> op_value op)"

text \<open>The operations that write one value into each of a list of fields.\<close>

definition sameValueOps :: "string \<Rightarrow> string list \<Rightarrow> replaceOperation list" where
  "sameValueOps nv fs = map (\<lambda>f. \<lparr>op_field = f, op_value = nv\<rparr>) fs"

definition isRowProcessed :: "event \<Rightarrow> bool" where
  "isRowProcessed ev = (case ev of RowProcessed a b c d e \<Rightarrow> True | _ \<Rightarrow> False)"

definition isError :: "event \<Rightarrow> bool" where
  "isError ev = (case ev of ErrorEvent a b \<Rightarrow> True | _ \<Rightarrow> False)"

text \<open>
  The reference definitions for the row test of simple mode, written from the words of
  the specification and without the functions of the route.  The special characters
  are the thirteen characters \<^verbatim>\<open>. * + ? ^ $ { } ( ) | [ ]\<close> and the backslash (character
  code 92); a special character of a literal term is escaped by a backslash put before
  it; a word boundary is a backslash followed by the letter \<open>b\<close>; the flags hold \<open>i\<close> exactly when the search is
  not case sensitive; the row text is the sequence of the cells with one space before
  every cell but the first.
\<close>

definition specialChars :: "char list" where
  "specialChars =
     [CHR ''.'', CHR ''*'', CHR ''+'', CHR ''?'', CHR ''^'', CHR ''$'', CHR ''{'', CHR ''}'',
      CHR ''('', CHR '')'', CHR ''|'', CHR ''['', CHR '']'', CHR 0x5C]"

definition escapedChar :: "char \<Rightarrow> string" where
  "escapedChar c = (if c \<in> set specialChars then [CHR 0x5C, c] else [c])"

definition inWordBoundaries :: "string \<Rightarrow> string" where
  "inWordBoundaries p = [CHR 0x5C, CHR ''b''] @ p @ [CHR 0x5C, CHR ''b'']"

definition compiledPattern :: "bool \<Rightarrow> bool \<Rightarrow> string \<Rightarrow> string" where
  "compiledPattern useRx whole term =
     (let body = (if useRx then term else concat (map escapedChar term))
      in if whole
         then inWordBoundaries (if useRx then ''('' @ body @ '')'' else body)
         else body)"

definition compiledFlags :: "bool \<Rightarrow> string" where
  "compiledFlags cs = ''g'' @ (if cs then [] else ''i'')"

fun spaceSeparated :: "string list \<Rightarrow> string" where
  "spaceSeparated [] = []"
| "spaceSeparated (x # xs) = x @ concat (map (\<lambda>y. CHR '' '' # y) xs)"

text \<open>The cell values of a row for a list of headers, in the order of the headers.\<close>

definition cellsOf :: "string list \<Rightarrow> row \<Rightarrow> string list" where
  "cellsOf headers r = map (getField r) headers"

text \<open>
  The reference definitions for the counting of replacements, written from the words
  of the specification.  A replace path performs, on a selected row, a sequence of
  writes (a field and a value each).  The value a field has when write \<open>k\<close> is made is
  the value of the last earlier write to that field, or else the value of the parsed
  row; write \<open>k\<close> is effective when its value differs from that existing value; the
  change records of the row are those of its effective writes, in the order of the
  writes.
\<close>

definition existingValue :: "replaceOperation list \<Rightarrow> row \<Rightarrow> nat \<Rightarrow> string" where
  "existingValue ws r k = valueAfter (take k ws) r (op_field (ws ! k))"

definition effectiveWrites :: "replaceOperation list \<Rightarrow> row \<Rightarrow> nat list" where
  "effectiveWrites ws r = filter (\<lambda>k. op_value (ws ! k) \<noteq> existingValue ws r k) [0..<length ws]"

definition changeRecords :: "replaceOperation list \<Rightarrow> row \<Rightarrow> rowChange list" where
  "changeRecords ws r =
     map (\<lambda>k. \<lparr>ch_field = op_field (ws ! k), oldValue = existingValue ws r k,
               newValue = op_value (ws ! k)\<rparr>)
       (effectiveWrites ws r)"

text \<open>The parsed rows with their 0-based offsets.\<close>

definition numbered :: "row list \<Rightarrow> (nat \<times> row) list" where
  "numbered rows = zip [0..<length rows] rows"

text \<open>The change records of a numbered row under a selection of rows and a sequence of
  writes: none for a row that is not selected.\<close>

definition selectedChanges ::
  "(nat \<times> row \<Rightarrow> bool) \<Rightarrow> replaceOperation list \<Rightarrow> nat \<times> row \<Rightarrow> rowChange list" where
  "selectedChanges sel ws jr = (if sel jr then changeRecords ws (snd jr) else [])"

text \<open>One \<^verbatim>\<open>row-processed\<close> event, with the 1-based row number, for every numbered row
  that has a change record; and the number of change records of all rows.\<close>

definition rowEventsFor ::
  "string \<Rightarrow> string \<Rightarrow> nat \<Rightarrow> (nat \<times> row \<Rightarrow> rowChange list) \<Rightarrow> (nat \<times> row) list \<Rightarrow> event list" where
  "rowEventsFor name path n cs jrs =
     concat (map (\<lambda>jr. if cs jr = [] then [] else [RowProcessed name path (fst jr + 1) n (cs jr)]) jrs)"

definition recordCount :: "(nat \<times> row \<Rightarrow> rowChange list) \<Rightarrow> (nat \<times> row) list \<Rightarrow> nat" where
  "recordCount cs jrs = sum_list (map (\<lambda>jr. length (cs jr)) jrs)"

text \<open>What a scan (or the processing of a file) has appended to a list of the state:
  the events added to the channel, the output records added to \<^verbatim>\<open>outputFiles\<close>.\<close>

definition emitted :: "'a list \<Rightarrow> 'a list \<Rightarrow> 'a list" where
  "emitted before after = drop (length before) after"

text \<open>What the replay loop does to row \<open>j\<close>: the retained row and its change records.\<close>

definition replayedRow ::
  "replaceOperation list \<Rightarrow> searchResult \<Rightarrow> string list \<Rightarrow> nat \<times> row \<Rightarrow> row" where
  "replayedRow ops sr hs jr =
     (if int (fst jr) \<in> rowsToReplace sr then appliedRow hs ops (snd jr) else snd jr)"

definition replayedChanges ::
  "replaceOperation list \<Rightarrow> searchResult \<Rightarrow> string list \<Rightarrow> nat \<times> row \<Rightarrow> rowChange list" where
  "replayedChanges ops sr hs jr =
     (if int (fst jr) \<in> rowsToReplace sr then appliedChanges hs ops (snd jr) else [])"


text \<open>The body of the advanced row loop when the matchers compile: the row test is then
  the reference definition, and the body cannot throw.\<close>

definition advancedStep ::
  "runtime \<Rightarrow> processRequest \<Rightarrow> advancedSearchConfig \<Rightarrow> fileDesc \<Rightarrow> string list \<Rightarrow> nat \<Rightarrow>
     nat \<Rightarrow> row \<Rightarrow> scan \<Rightarrow> scan" where
  "advancedStep R req adv file headers n i r sc =
     (if \<not> fst (referenceAdvanced R r headers adv)
      then statsTick n i (countRow (if \<not> showOnlyMatches req then pushRow r sc else sc))
      else advancedMatched req file headers n i r (snd (referenceAdvanced R r headers adv)) sc)"

definition matchersCompile :: "runtime \<Rightarrow> advancedSearchConfig \<Rightarrow> bool" where
  "matchersCompile R adv =
     (case buildMatchers R (configCaseSensitive adv) (activeConds R adv) of
        Inl e \<Rightarrow> False
      | Inr ms \<Rightarrow> True)"

text \<open>The Boolean decision of the advanced evaluator for a row (false when it throws).\<close>

definition rowMatches :: "runtime \<Rightarrow> string list \<Rightarrow> advancedSearchConfig \<Rightarrow> row \<Rightarrow> bool" where
  "rowMatches R headers adv r =
     (case rowMatchesAdvanced R r headers adv of Inl e \<Rightarrow> False | Inr res \<Rightarrow> fst res)"

text \<open>The advanced loop attributes (instead of replacing) when the request is not in
  replace mode or the target field is not a header of the file.\<close>

definition attributing :: "processRequest \<Rightarrow> string list \<Rightarrow> bool" where
  "attributing req headers =
     (\<not> (advancedIsReplaceMode req \<and> truthy (replaceTargetField req)
          \<and> orEmpty (replaceTargetField req) \<in> set headers))"

definition attributedEvents ::
  "runtime \<Rightarrow> advancedSearchConfig \<Rightarrow> fileDesc \<Rightarrow> string list \<Rightarrow> nat \<Rightarrow> nat \<times> row \<Rightarrow> event list" where
  "attributedEvents R adv file headers n jr =
     (if fst (referenceAdvanced R (snd jr) headers adv)
         \<and> snd (referenceAdvanced R (snd jr) headers adv) \<noteq> []
      then [RowProcessed (file_name file) (file_path file) (fst jr + 1) n
              (attribution (snd jr) (snd (referenceAdvanced R (snd jr) headers adv)))]
      else [])"

definition unchangedRecord :: "rowChange \<Rightarrow> bool" where
  "unchangedRecord c = (oldValue c = newValue c)"

text \<open>An event as pure search produces it: change records with equal old and new
  value, a \<^verbatim>\<open>file-complete\<close> with no replacement and a null \<^verbatim>\<open>newPath\<close>, a \<^verbatim>\<open>complete\<close>
  with a null \<^verbatim>\<open>downloadUrl\<close> and \<^verbatim>\<open>isZip = false\<close>.\<close>

definition noRewrite :: "event \<Rightarrow> bool" where
  "noRewrite ev =
     (case ev of
        RowProcessed a b k m cs \<Rightarrow> list_all unchangedRecord cs
      | FileComplete a m k np \<Rightarrow> k = 0 \<and> np = None
      | Complete outs url isZip s \<Rightarrow> url = None \<and> \<not> isZip
      | _ \<Rightarrow> True)"

text \<open>The mode of a request of the search route: \<^verbatim>\<open>isReplaceMode\<close> of the path that
  \<^verbatim>\<open>useAdvanced\<close> selects.\<close>

definition inReplaceMode :: "processRequest \<Rightarrow> bool" where
  "inReplaceMode req =
     (case advanced req of
        None \<Rightarrow> simpleIsReplaceMode req
      | Some adv \<Rightarrow>
          if length (conditions adv) > 0 then advancedIsReplaceMode req else simpleIsReplaceMode req)"

text \<open>A request state in which nothing was replaced, written or archived.\<close>

definition searchOnlyState :: "pstate \<Rightarrow> bool" where
  "searchOnlyState st =
     (saved st = [] \<and> zipRequests st = [] \<and> list_all (\<lambda>f. newPath f = None) (outputFiles st)
      \<and> totalReplacements (stats st) = 0 \<and> list_all noRewrite (events st))"

definition searchOnlyScan :: "scan \<Rightarrow> bool" where
  "searchOnlyScan s =
     (totalReplacements (sc_stats s) = 0 \<and> sc_replacements s = 0 \<and> list_all noRewrite (sc_events s))"

section \<open>Evaluation of the concrete instance\<close>

lemma plainParse_cities: "plainParse citiesCsv = ([], citiesRows)"
  by (simp add: plainParse_def citiesCsv_def citiesRows_def newline_def asciiTrim_def asciiSpace_def)

lemma plainParse_orders: "plainParse ordersCsv = ([], ordersRows)"
  by (simp add: plainParse_def ordersCsv_def ordersRows_def newline_def asciiTrim_def asciiSpace_def)

lemma fileHeaders_cities: "fileHeaders asciiRuntime citiesRows = [''name'', ''state'']"
  by (simp add: fileHeaders_def citiesRows_def asciiRuntime_def asciiTrim_def asciiSpace_def uniq_def)

lemma fileHeaders_orders: "fileHeaders asciiRuntime ordersRows = [''id'', ''city'', ''state'']"
  by (simp add: fileHeaders_def ordersRows_def asciiRuntime_def asciiTrim_def asciiSpace_def uniq_def)

lemma fetch_cities:
  "fetchText demoCollab (actualFilePath [citiesFile] citiesPath citiesResult) = Inr citiesCsv"
  by (simp add: demoCollab_def demoFetch_def actualFilePath_def citiesFile_def citiesResult_def
      citiesPath_def truthy_def orEmpty_def)

lemma acquire_cities: "acquire demoCollab citiesFile = Inr citiesCsv"
  by (simp add: acquire_def demoCollab_def demoFetch_def citiesFile_def truthy_def orEmpty_def)

lemma acquire_orders: "acquire demoCollab ordersFile = Inr ordersCsv"
  by (simp add: acquire_def demoCollab_def demoFetch_def ordersFile_def truthy_def orEmpty_def)

lemma parse_cities: "papaParse demoCollab citiesCsv = ([], citiesRows)"
  by (simp add: demoCollab_def plainParse_cities)

lemma parse_orders: "papaParse demoCollab ordersCsv = ([], ordersRows)"
  by (simp add: demoCollab_def plainParse_orders)

lemma compile_simpleRequest:
  "compileSearch asciiRuntime simpleRequest = Inr (\<lambda>s. sublist (map asciiLower ''NY'') (map asciiLower s))"
  by (simp add: compileSearch_def searchPattern_def searchFlags_def simpleRequest_def orFalse_def
      orEmpty_def asciiRuntime_def literalRegExp_def regexSpecial_def backslash_def
      lowerLetters_def upperLetters_def digits_def)

section \<open>Basic facts about rows, scans and operations\<close>

lemma map_of_setField: "map_of (setField f v r) = (map_of r)(f \<mapsto> v)"
  by (induction r) (auto simp: fun_eq_iff)

lemma getField_setField: "getField (setField f v r) g = (if g = f then v else getField r g)"
  by (simp add: getField_def map_of_setField)

lemma sc_simps [simp]:
  "sc_rows (emit ev sc) = sc_rows sc" "sc_matches (emit ev sc) = sc_matches sc"
  "sc_replacements (emit ev sc) = sc_replacements sc" "sc_stats (emit ev sc) = sc_stats sc"
  "sc_events (emit ev sc) = sc_events sc @ [ev]"
  "sc_rows (countRow sc) = sc_rows sc" "sc_matches (countRow sc) = sc_matches sc"
  "sc_replacements (countRow sc) = sc_replacements sc" "sc_events (countRow sc) = sc_events sc"
  "sc_rows (pushRow r sc) = sc_rows sc @ [r]" "sc_matches (pushRow r sc) = sc_matches sc"
  "sc_replacements (pushRow r sc) = sc_replacements sc" "sc_events (pushRow r sc) = sc_events sc"
  "sc_stats (pushRow r sc) = sc_stats sc"
  "sc_rows (countMatch sc) = sc_rows sc" "sc_matches (countMatch sc) = sc_matches sc + 1"
  "sc_replacements (countMatch sc) = sc_replacements sc" "sc_events (countMatch sc) = sc_events sc"
  "sc_rows (countReplacement sc) = sc_rows sc" "sc_matches (countReplacement sc) = sc_matches sc"
  "sc_replacements (countReplacement sc) = sc_replacements sc + 1"
  "sc_events (countReplacement sc) = sc_events sc"
  by (simp_all add: emit_def countRow_def pushRow_def countMatch_def countReplacement_def)

lemma statsTick_simps [simp]:
  "sc_rows (statsTick n i sc) = sc_rows sc" "sc_matches (statsTick n i sc) = sc_matches sc"
  "sc_replacements (statsTick n i sc) = sc_replacements sc" "sc_stats (statsTick n i sc) = sc_stats sc"
  by (simp_all add: statsTick_def)

lemma stats_simps [simp]:
  "totalReplacements (sc_stats (countRow sc)) = totalReplacements (sc_stats sc)"
  "totalReplacements (sc_stats (countMatch sc)) = totalReplacements (sc_stats sc)"
  "totalReplacements (sc_stats (countReplacement sc)) = totalReplacements (sc_stats sc) + 1"
  "processedFiles (sc_stats (countRow sc)) = processedFiles (sc_stats sc)"
  "processedFiles (sc_stats (countMatch sc)) = processedFiles (sc_stats sc)"
  "processedFiles (sc_stats (countReplacement sc)) = processedFiles (sc_stats sc)"
  "totalMatches (sc_stats (countRow sc)) = totalMatches (sc_stats sc)"
  "totalMatches (sc_stats (countMatch sc)) = totalMatches (sc_stats sc) + 1"
  "totalMatches (sc_stats (countReplacement sc)) = totalMatches (sc_stats sc)"
  "processedRows (sc_stats (countRow sc)) = processedRows (sc_stats sc) + 1"
  "processedRows (sc_stats (countMatch sc)) = processedRows (sc_stats sc)"
  "processedRows (sc_stats (countReplacement sc)) = processedRows (sc_stats sc)"
  by (simp_all add: countRow_def countMatch_def countReplacement_def)

lemma applyOperations_eq:
  "applyOperations hs ops (r, ev, sc) =
     (appliedRow hs ops r, ev @ appliedChanges hs ops r,
      (countReplacement ^^ length (appliedChanges hs ops r)) sc)"
  by (induction ops arbitrary: r ev sc) (auto simp: Let_def funpow_swap1)

lemma replaceInFields_eq:
  "replaceInFields nv fs acc = applyOperations fs (sameValueOps nv fs) acc"
proof -
  have "set fs \<subseteq> set hs \<Longrightarrow> replaceInFields nv fs acc = applyOperations hs (sameValueOps nv fs) acc" for hs
    by (induction nv fs acc rule: replaceInFields.induct) (auto simp: sameValueOps_def Let_def)
  then show ?thesis by simp
qed

lemma funpow_countReplacement [simp]:
  "sc_replacements ((countReplacement ^^ k) sc) = sc_replacements sc + k"
  "totalReplacements (sc_stats ((countReplacement ^^ k) sc)) = totalReplacements (sc_stats sc) + k"
  "sc_rows ((countReplacement ^^ k) sc) = sc_rows sc"
  "sc_events ((countReplacement ^^ k) sc) = sc_events sc"
  "sc_matches ((countReplacement ^^ k) sc) = sc_matches sc"
  "processedFiles (sc_stats ((countReplacement ^^ k) sc)) = processedFiles (sc_stats sc)"
  "totalMatches (sc_stats ((countReplacement ^^ k) sc)) = totalMatches (sc_stats sc)"
  "processedRows (sc_stats ((countReplacement ^^ k) sc)) = processedRows (sc_stats sc)"
  by (induction k) simp_all

lemma appliedChanges_differ:
  "c \<in> set (appliedChanges hs ops r) \<Longrightarrow>
     oldValue c \<noteq> newValue c \<and> ch_field c \<in> set hs \<and>
     (\<exists>op \<in> set ops. ch_field c = op_field op \<and> newValue c = op_value op)"
  by (induction ops arbitrary: r) (auto split: if_splits)


lemma getField_appliedRow_nothdr:
  "f \<notin> set hs \<Longrightarrow> map_of (appliedRow hs ops r) f = map_of r f"
  by (induction ops arbitrary: r) (auto simp: map_of_setField)

lemma find_app:
  "find P (xs @ ys) = (case find P xs of None \<Rightarrow> find P ys | Some x \<Rightarrow> Some x)"
  by (induction xs) auto

lemma valueAfter_Nil [simp]: "valueAfter [] r f = getField r f"
  by (simp add: valueAfter_def)

lemma valueAfter_Cons:
  "valueAfter (op # ops) r f =
     valueAfter ops (if op_field op = f then setField f (op_value op) r else r) f"
  by (auto simp: valueAfter_def find_app getField_setField split: option.splits)

lemma getField_appliedRow:
  "op_field ` set ops \<subseteq> set hs \<Longrightarrow> getField (appliedRow hs ops r) f = valueAfter ops r f"
proof (induction ops arbitrary: r)
  case Nil then show ?case by simp
next
  case (Cons op ops)
  show ?case
  proof (cases "getField r (op_field op) \<noteq> op_value op")
    case True
    with Cons show ?thesis
      apply (simp add: valueAfter_Cons)
      apply (auto simp: valueAfter_def getField_setField split: option.splits)
      done
  next
    case False
    with Cons show ?thesis
      apply (simp add: valueAfter_Cons)
      apply (auto simp: valueAfter_def getField_setField split: option.splits)
      done
  qed
qed

lemma appliedChanges_iff:
  "op_field ` set ops \<subseteq> set hs \<Longrightarrow>
   (\<exists>c \<in> set (appliedChanges hs ops r). ch_field c = f) \<longleftrightarrow>
   (\<exists>op \<in> set ops. op_field op = f \<and> op_value op \<noteq> getField r f)"
proof (induction ops arbitrary: r)
  case Nil then show ?case by simp
next
  case (Cons op ops)
  then have IH: "\<And>r. (\<exists>c \<in> set (appliedChanges hs ops r). ch_field c = f) \<longleftrightarrow>
   (\<exists>op \<in> set ops. op_field op = f \<and> op_value op \<noteq> getField r f)" by simp
  show ?case using Cons.prems
    by (auto simp: IH getField_setField)
qed

section \<open>Properties of the adv evaluator\<close>

lemma activeConds_reference:
  "activeConds R adv = filter (\<lambda>c. \<not> blankValue R (cond_value c)) (conditions adv)"
  by (auto simp: activeConds_def isActive_def blankValue_def intro: filter_cong)

lemma buildMatchers_conds:
  "buildMatchers R cs conds = Inr ms \<Longrightarrow> map fst ms = conds"
  by (induction conds arbitrary: ms) (auto split: sum.splits)

lemma buildMatchers_matcher:
  "buildMatchers R cs conds = Inr ms \<Longrightarrow> (c, m) \<in> set ms \<Longrightarrow> buildFieldMatcher R c cs = Inr m"
  by (induction conds arbitrary: ms) (auto split: sum.splits)

lemma andLoop_char:
  "buildMatchers R cs conds = Inr ms \<Longrightarrow>
   andLoop r hs ms acc =
     (if list_all (\<lambda>c. cond_field c \<in> set hs \<and> acceptsCS R cs r c) conds
      then (True, acc @ map cond_field conds) else (False, []))"
  by (induction conds arbitrary: ms acc) (auto split: sum.splits simp: acceptsCS_def)

lemma orLoop_char:
  "buildMatchers R cs conds = Inr ms \<Longrightarrow>
   orLoop r hs ms any acc =
     (let contributing = filter (\<lambda>c. cond_field c \<in> set hs \<and> acceptsCS R cs r c) conds
      in (any \<or> contributing \<noteq> [],
          if any \<or> contributing \<noteq> [] then acc @ map cond_field contributing else []))"
  by (induction conds arbitrary: ms acc any) (auto split: sum.splits simp: acceptsCS_def Let_def)

lemma accepts_CS: "accepts R adv r c = acceptsCS R (case adv_caseSensitive adv of None \<Rightarrow> False | Some b \<Rightarrow> b) r c"
  by (auto simp: accepts_def acceptsCS_def configCaseSensitive_def split: option.splits)

lemma caseSensitive_config:
  "(case adv_caseSensitive adv of None \<Rightarrow> False | Some b \<Rightarrow> b) = configCaseSensitive adv"
  by (auto simp: configCaseSensitive_def split: option.splits)

lemma rowMatchesAdvanced_throws:
  assumes "buildMatchers R (configCaseSensitive adv) (activeConds R adv) = Inl e"
  shows "rowMatchesAdvanced R r headers adv = Inl e"
proof -
  from assms have "activeConds R adv \<noteq> []" by auto
  with assms show ?thesis
    by (simp add: rowMatchesAdvanced_def Let_def caseSensitive_config)
qed

lemma rowMatchesAdvanced_compiled:
  assumes ms: "buildMatchers R (configCaseSensitive adv) (activeConds R adv) = Inr ms"
  shows "rowMatchesAdvanced R r headers adv = Inr (referenceAdvanced R r headers adv)"
proof (cases "activeConds R adv = []")
  case True
  then show ?thesis
    by (simp add: rowMatchesAdvanced_def referenceAdvanced_def activeConds_reference [symmetric])
next
  case False
  show ?thesis
  proof (cases "logic adv = Some OR")
    case True
    then show ?thesis using ms False
      by (simp add: rowMatchesAdvanced_def referenceAdvanced_def activeConds_reference [symmetric]
          caseSensitive_config configIsAnd_def orLoop_char [OF ms] Let_def accepts_CS)
  next
    case nor: False
    then have "(case logic adv of None \<Rightarrow> AND | Some l \<Rightarrow> l) = AND"
      by (cases "logic adv") (auto intro: advancedLogic.exhaust)
    then show ?thesis using ms False nor
      by (simp add: rowMatchesAdvanced_def referenceAdvanced_def activeConds_reference [symmetric]
          caseSensitive_config configIsAnd_def andLoop_char [OF ms] Let_def accepts_CS)
  qed
qed

text \<open>
  Claim C2.  For every row, header list and advanced configuration, the advanced
  evaluator returns what the reference definition returns: blank conditions are
  left out; with no active condition the result is \<open>(True, [])\<close>; under AND every active
  condition must name a header and be accepted, and the result of a failure is
  \<open>(False, [])\<close>; under OR the conditions naming a missing header are skipped, the row
  matches when a remaining condition is accepted, and the matched fields are those of
  the accepted conditions.  The only other outcome is the exception of a regular
  expression that does not compile, which the call passes on.
\<close>

theorem C2_rowMatchesAdvanced_reference:
  "rowMatchesAdvanced R r headers adv =
     (case buildMatchers R (configCaseSensitive adv) (activeConds R adv) of
        Inl e \<Rightarrow> Inl e
      | Inr ms \<Rightarrow> Inr (referenceAdvanced R r headers adv))"
proof (cases "buildMatchers R (configCaseSensitive adv) (activeConds R adv)")
  case (Inl e)
  then show ?thesis by (simp add: rowMatchesAdvanced_throws)
next
  case (Inr ms)
  then show ?thesis by (simp add: rowMatchesAdvanced_compiled)
qed

theorem C2_rowMatchesAdvanced_reference_witness:
  "rowMatchesAdvanced asciiRuntime [(''name'', ''Ann''), (''state'', ''NY'')] [''name'', ''state'']
     stateEqualsNY = Inr (True, [''state''])"
proof -
  let ?r = "[(''name'', ''Ann''), (''state'', ''NY'')]"
  let ?hs = "[''name'', ''state'']"
  have "rowMatchesAdvanced asciiRuntime ?r ?hs stateEqualsNY =
          (case buildMatchers asciiRuntime (configCaseSensitive stateEqualsNY)
                  (activeConds asciiRuntime stateEqualsNY) of
             Inl e \<Rightarrow> Inl e
           | Inr ms \<Rightarrow> Inr (referenceAdvanced asciiRuntime ?r ?hs stateEqualsNY))"
    by (rule C2_rowMatchesAdvanced_reference)
  also have "\<dots> = Inr (True, [''state''])"
    by code_simp
  finally show ?thesis .
qed

section \<open>The replay scan\<close>

lemma replayRow_eq:
  "replayRow ops sr fp hs n j r sc =
     statsTick n j
       ((if replayedChanges ops sr hs (j, r) \<noteq> []
         then emit (RowProcessed (sr_filename sr) fp (j + 1) n (replayedChanges ops sr hs (j, r)))
         else (\<lambda>x. x))
        (countRow (pushRow (replayedRow ops sr hs (j, r))
           ((countReplacement ^^ length (replayedChanges ops sr hs (j, r))) sc))))"
  by (simp add: replayRow_def replayedChanges_def replayedRow_def applyOperations_eq Let_def)

lemma enum_Cons: "zip [i..<i + Suc n] (r # rs) = (i, r) # zip [Suc i..<Suc i + n] rs"
  by (simp add: upt_conv_Cons)


lemma replay_replacements:
  "sc_replacements (scanRows (replayRow ops sr fp hs n) i rows sc) =
     sc_replacements sc + sum_list (map (\<lambda>jr. length (replayedChanges ops sr hs jr)) (zip [i..<i + length rows] rows))"
proof (induction rows arbitrary: i sc)
  case Nil then show ?case by simp
next
  case (Cons r rs)
  show ?case
    by (simp only: scanRows.simps Cons.IH length_Cons enum_Cons list.map)
       (simp add: replayRow_eq)
qed

lemma replay_totalReplacements:
  "totalReplacements (sc_stats (scanRows (replayRow ops sr fp hs n) i rows sc)) =
     totalReplacements (sc_stats sc) + sum_list (map (\<lambda>jr. length (replayedChanges ops sr hs jr)) (zip [i..<i + length rows] rows))"
proof (induction rows arbitrary: i sc)
  case Nil then show ?case by simp
next
  case (Cons r rs)
  show ?case
    by (simp only: scanRows.simps Cons.IH length_Cons enum_Cons list.map)
       (simp add: replayRow_eq)
qed

lemma replay_processedFiles:
  "processedFiles (sc_stats (scanRows (replayRow ops sr fp hs n) i rows sc)) = processedFiles (sc_stats sc)"
proof (induction rows arbitrary: i sc)
  case Nil then show ?case by simp
next
  case (Cons r rs)
  show ?case
    by (simp only: scanRows.simps Cons.IH) (simp add: replayRow_eq)
qed

lemma isError_simps [simp]:
  "isError (FileStart a b) = False" "isError (FileInfo a c d) = False"
  "isError (RowProcessed a b c d e) = False" "isError (Stats f) = False"
  "isError (FileComplete a c d g) = False" "isError (ErrorEvent h b) = True"
  "isError (Complete k g l f) = False"
  by (simp_all add: isError_def)

lemma isRowProcessed_simps [simp]:
  "isRowProcessed (FileStart a b) = False" "isRowProcessed (FileInfo a c d) = False"
  "isRowProcessed (RowProcessed a b c d e) = True" "isRowProcessed (Stats f) = False"
  "isRowProcessed (FileComplete a c d g) = False" "isRowProcessed (ErrorEvent h b) = False"
  "isRowProcessed (Complete k g l f) = False"
  by (simp_all add: isRowProcessed_def)

lemma statsTick_events:
  "filter isRowProcessed (sc_events (statsTick n i sc)) = filter isRowProcessed (sc_events sc)"
  "filter isError (sc_events (statsTick n i sc)) = filter isError (sc_events sc)"
  "\<exists>new. sc_events (statsTick n i sc) = sc_events sc @ new"
  by (simp_all add: statsTick_def)





lemma replay_errorEvents:
  "filter isError (sc_events (scanRows (replayRow ops sr fp hs n) i rows sc)) =
     filter isError (sc_events sc)"
proof (induction rows arbitrary: i sc)
  case Nil then show ?case by simp
next
  case (Cons r rs)
  show ?case
    by (simp only: scanRows.simps Cons.IH)
       (simp add: replayRow_eq statsTick_events)
qed

lemma invalidFields_Nil: "invalidFields ops hs = [] \<longleftrightarrow> op_field ` set ops \<subseteq> set hs"
  by (auto simp: invalidFields_def filter_empty_conv)

lemma emitted_append [simp]: "emitted xs (xs @ new) = new"
  by (simp add: emitted_def)








section \<open>Files: persisting, completing, counting\<close>

lemma sendEvent_simps [simp]:
  "stats (sendEvent ev st) = stats st" "events (sendEvent ev st) = events st @ [ev]"
  "outputFiles (sendEvent ev st) = outputFiles st" "saved (sendEvent ev st) = saved st"
  "zipRequests (sendEvent ev st) = zipRequests st" "clock (sendEvent ev st) = clock st"
  by (simp_all add: sendEvent_def)

lemma saveProcessedFile_Inl:
  "saveProcessedFile E fname content st = (Inl msg, st1) \<Longrightarrow>
     stats st1 = stats st \<and> events st1 = events st \<and> outputFiles st1 = outputFiles st \<and>
     saved st1 = saved st \<and> zipRequests st1 = zipRequests st \<and> clock st1 = Suc (clock st)"
  by (auto simp: saveProcessedFile_def Let_def split: option.splits)

lemma saveProcessedFile_Inr:
  "saveProcessedFile E fname content st = (Inr p, st1) \<Longrightarrow>
     stats st1 = stats st \<and> events st1 = events st \<and> outputFiles st1 = outputFiles st \<and>
     saved st1 = saved st @ [(p, content)] \<and> zipRequests st1 = zipRequests st \<and>
     clock st1 = Suc (clock st) \<and>
     p = pathJoin (tmpDir E) (showNat (dateNow E (clock st)) @ ''_'' @
                                map (\<lambda>c. if safeChar c then c else CHR ''_'') fname) \<and>
     writeFile E p content = None"
  by (auto simp: saveProcessedFile_def Let_def split: option.splits)


lemma completeReplay_simps [simp]:
  "stats (completeReplay sr fp sc np st) = (stats st)\<lparr>currentFile := None\<rparr>"
  "events (completeReplay sr fp sc np st) =
     events st @ [FileComplete (sr_filename sr) (sc_replacements sc) (sc_replacements sc) np,
                  Stats ((stats st)\<lparr>currentFile := None\<rparr>)]"
  "outputFiles (completeReplay sr fp sc np st) = outputFiles st @ [\<lparr>originalPath = fp, newPath = np\<rparr>]"
  "saved (completeReplay sr fp sc np st) = saved st"
  "zipRequests (completeReplay sr fp sc np st) = zipRequests st"
  "clock (completeReplay sr fp sc np st) = clock st"
  by (simp_all add: completeReplay_def Let_def)

lemma completeFile_simps [simp]:
  "stats (completeFile file sc np st) =
     (stats st)\<lparr>processedFiles := processedFiles (stats st) + 1, currentFile := None\<rparr>"
  "events (completeFile file sc np st) =
     events st @ [FileComplete (file_name file) (sc_matches sc) (sc_replacements sc) np,
                  Stats ((stats st)\<lparr>processedFiles := processedFiles (stats st) + 1, currentFile := None\<rparr>)]"
  "outputFiles (completeFile file sc np st) =
     outputFiles st @ [\<lparr>originalPath = file_path file, newPath = np\<rparr>]"
  "saved (completeFile file sc np st) = saved st"
  "zipRequests (completeFile file sc np st) = zipRequests st"
  "clock (completeFile file sc np st) = clock st"
  by (simp_all add: completeFile_def Let_def)

lemma startScan_simps [simp]:
  "sc_stats (startScan st) = stats st" "sc_events (startScan st) = events st"
  "sc_rows (startScan st) = []" "sc_matches (startScan st) = 0" "sc_replacements (startScan st) = 0"
  by (simp_all add: startScan_def)

lemma replay_scan_zero:
  "sc_replacements (scanRows (replayRow ops sr fp hs n) i rows sc) = sc_replacements sc \<Longrightarrow>
   totalReplacements (sc_stats (scanRows (replayRow ops sr fp hs n) i rows sc)) = totalReplacements (sc_stats sc)"
  by (simp add: replay_replacements replay_totalReplacements)

lemma replay_scan_diff:
  "totalReplacements (sc_stats (scanRows (replayRow ops sr fp hs n) i rows sc)) + sc_replacements sc
     = totalReplacements (sc_stats sc) + sc_replacements (scanRows (replayRow ops sr fp hs n) i rows sc)"
  by (simp add: replay_replacements replay_totalReplacements)

lemma replayFile_counts:
  "processedFiles (stats (replayFile E R selected ops (fp, sr) st)) =
     processedFiles (stats st) +
       (if saved (replayFile E R selected ops (fp, sr) st) = saved st then 0 else 1)
   \<and> (saved (replayFile E R selected ops (fp, sr) st) \<noteq> saved st \<longrightarrow>
        totalReplacements (stats st) < totalReplacements (stats (replayFile E R selected ops (fp, sr) st)))
   \<and> (totalReplacements (stats (replayFile E R selected ops (fp, sr) st)) = totalReplacements (stats st) \<longrightarrow>
        list_all (\<lambda>f. newPath f = None) (emitted (outputFiles st) (outputFiles (replayFile E R selected ops (fp, sr) st))))"
  apply (simp add: replayFile_def Let_def split: sum.splits prod.splits)
  apply (intro allI impI conjI)
  apply (auto dest!: saveProcessedFile_Inl saveProcessedFile_Inr simp: replay_processedFiles emitted_def)
  using replay_scan_diff [of ops sr fp _ _ 0 _ "startScan _"]
  apply (simp_all)
  done

lemma scanRows_invariant:
  assumes "P sc" and "\<And>i r s. r \<in> set rows \<Longrightarrow> P s \<Longrightarrow> P (step i r s)"
  shows "P (scanRows step i rows sc)"
  using assms by (induction rows arbitrary: i sc) auto

lemma scanRowsThrowing_total:
  "(\<And>i r s. r \<in> set rows \<Longrightarrow> step i r s = Inr (g i r s)) \<Longrightarrow>
   scanRowsThrowing step i rows sc = (None, scanRows g i rows sc)"
  by (induction rows arbitrary: i sc) auto

lemma advancedRow_compiled:
  "matchersCompile R adv \<Longrightarrow>
   advancedRow R req adv file hs n i r sc = Inr (advancedStep R req adv file hs n i r sc)"
  by (auto simp: matchersCompile_def advancedRow_def advancedStep_def rowMatchesAdvanced_compiled
      split: sum.splits prod.splits)

lemma advanced_scan_compiled:
  "matchersCompile R adv \<Longrightarrow>
   scanRowsThrowing (advancedRow R req adv file hs n) i rows sc =
     (None, scanRows (advancedStep R req adv file hs n) i rows sc)"
  by (rule scanRowsThrowing_total) (simp add: advancedRow_compiled)

lemma advancedRow_throws:
  "buildMatchers R (configCaseSensitive adv) (activeConds R adv) = Inl e \<Longrightarrow>
   advancedRow R req adv file hs n i r sc = Inl e"
  by (simp add: advancedRow_def rowMatchesAdvanced_throws)

lemma statsTick_processedFiles [simp]:
  "processedFiles (sc_stats (statsTick n i sc)) = processedFiles (sc_stats sc)"
  by simp

lemma rowProcessed_simps [simp]:
  "sc_rows (rowProcessed file n i cs sc) = sc_rows sc"
  "sc_matches (rowProcessed file n i cs sc) = sc_matches sc"
  "sc_replacements (rowProcessed file n i cs sc) = sc_replacements sc"
  "sc_stats (rowProcessed file n i cs sc) = sc_stats sc"
  by (simp_all add: rowProcessed_def)

text \<open>What the matched branch of the advanced loop does, field by field of the scan.\<close>

lemma advancedMatched_stats:
  "processedFiles (sc_stats (advancedMatched req file hs n i r mf sc)) = processedFiles (sc_stats sc)"
  by (simp_all add: advancedMatched_def Let_def split: prod.splits if_splits)


lemma simpleRow_processedFiles:
  "processedFiles (sc_stats (simpleRow req re file hs rf n i r sc)) = processedFiles (sc_stats sc)"
  by (simp add: simpleRow_def Let_def replaceInFields_eq applyOperations_eq split: prod.splits)

lemma simple_scan_processedFiles:
  "processedFiles (sc_stats (scanRows (simpleRow req re file hs rf n) i rows sc)) = processedFiles (sc_stats sc)"
  by (rule scanRows_invariant [where P = "\<lambda>s. processedFiles (sc_stats s) = processedFiles (sc_stats sc)"])
     (simp_all add: simpleRow_processedFiles)


lemma scanRowsThrowing_invariant:
  assumes "P sc" and "\<And>i r s s1. r \<in> set rows \<Longrightarrow> P s \<Longrightarrow> step i r s = Inr s1 \<Longrightarrow> P s1"
  shows "P (snd (scanRowsThrowing step i rows sc))"
  using assms
proof (induction rows arbitrary: i sc)
  case Nil
  then show ?case by simp
next
  case (Cons r rs)
  show ?case
  proof (cases "step i r sc")
    case (Inl e)
    then show ?thesis using Cons.prems(1) by simp
  next
    case (Inr s1)
    have "P s1" using Cons.prems(2) [of r sc i s1] Cons.prems(1) Inr by simp
    moreover have "\<And>i r' s s2. r' \<in> set rs \<Longrightarrow> P s \<Longrightarrow> step i r' s = Inr s2 \<Longrightarrow> P s2"
      using Cons.prems(2) by auto
    ultimately have "P (snd (scanRowsThrowing step (Suc i) rs s1))"
      using Cons.IH by blast
    then show ?thesis using Inr by simp
  qed
qed

lemma advancedRow_processedFiles:
  "advancedRow R req adv file hs n i r sc = Inr s1 \<Longrightarrow>
   processedFiles (sc_stats s1) = processedFiles (sc_stats sc)"
  by (auto simp: advancedRow_def advancedMatched_stats split: sum.splits prod.splits if_splits)

lemma advanced_throwing_processedFiles:
  "processedFiles (sc_stats (snd (scanRowsThrowing (advancedRow R req adv file hs n) i rows sc)))
     = processedFiles (sc_stats sc)"
  by (rule scanRowsThrowing_invariant [where P = "\<lambda>s. processedFiles (sc_stats s) = processedFiles (sc_stats sc)"])
     (simp_all add: advancedRow_processedFiles)

lemma beginFile_simps [simp]:
  "events (beginFile a b st) = events st @ [FileStart a b]"
  "outputFiles (beginFile a b st) = outputFiles st" "saved (beginFile a b st) = saved st"
  "zipRequests (beginFile a b st) = zipRequests st" "clock (beginFile a b st) = clock st"
  "processedFiles (stats (beginFile a b st)) = processedFiles (stats st)"
  "totalReplacements (stats (beginFile a b st)) = totalReplacements (stats st)"
  "totalMatches (stats (beginFile a b st)) = totalMatches (stats st)"
  "processedRows (stats (beginFile a b st)) = processedRows (stats st)"
  by (simp_all add: beginFile_def)

lemma noteRows_simps [simp]:
  "events (noteRows k st) = events st"
  "outputFiles (noteRows k st) = outputFiles st" "saved (noteRows k st) = saved st"
  "zipRequests (noteRows k st) = zipRequests st" "clock (noteRows k st) = clock st"
  "processedFiles (stats (noteRows k st)) = processedFiles (stats st)"
  "totalReplacements (stats (noteRows k st)) = totalReplacements (stats st)"
  "totalMatches (stats (noteRows k st)) = totalMatches (stats st)"
  "processedRows (stats (noteRows k st)) = processedRows (stats st)"
  by (simp_all add: noteRows_def)

lemma endScan_simps [simp]:
  "events (endScan sc st) = sc_events sc"
  "outputFiles (endScan sc st) = outputFiles st" "saved (endScan sc st) = saved st"
  "zipRequests (endScan sc st) = zipRequests st" "clock (endScan sc st) = clock st"
  "processedFiles (stats (endScan sc st)) = processedFiles (sc_stats sc)"
  "totalReplacements (stats (endScan sc st)) = totalReplacements (sc_stats sc)"
  "totalMatches (stats (endScan sc st)) = totalMatches (sc_stats sc)"
  "processedRows (stats (endScan sc st)) = processedRows (sc_stats sc)"
  by (simp_all add: endScan_def)

lemma persistAndComplete_counts:
  "processedFiles (stats (persistAndComplete E file sc st)) =
     processedFiles (stats st) + length (emitted (outputFiles st) (outputFiles (persistAndComplete E file sc st)))"
  by (auto simp: persistAndComplete_def Let_def emitted_def split: prod.splits sum.splits
      dest!: saveProcessedFile_Inl saveProcessedFile_Inr)

lemma processFileSimple_counts:
  "processedFiles (stats (processFileSimple E R req file st)) =
     processedFiles (stats st) +
     length (emitted (outputFiles st) (outputFiles (processFileSimple E R req file st)))"
  by (auto simp: processFileSimple_def Let_def emitted_def simple_scan_processedFiles
      persistAndComplete_def
      split: prod.splits sum.splits dest!: saveProcessedFile_Inl saveProcessedFile_Inr)

lemma processFileAdvanced_counts:
  "processedFiles (stats (processFileAdvanced E R req adv file st)) =
     processedFiles (stats st) +
     length (emitted (outputFiles st) (outputFiles (processFileAdvanced E R req adv file st)))"
proof -
  have *: "scanRowsThrowing (advancedRow R req adv file hs n) 0 rows (startScan s) = (x, sc) \<Longrightarrow>
       processedFiles (sc_stats sc) = processedFiles (stats s)" for hs n rows s x sc
    using advanced_throwing_processedFiles [of R req adv "file" hs n 0 rows "startScan s"] by simp
  show ?thesis
    by (auto simp: processFileAdvanced_def Let_def emitted_def persistAndComplete_def
      split: prod.splits sum.splits option.splits
      dest!: saveProcessedFile_Inl saveProcessedFile_Inr *)
qed


text \<open>Counting along a scan, and what persisting a file leaves as it was.\<close>

lemma sum_list_indicator:
  "sum_list (map (\<lambda>r. if P r then 1 else 0) rows) = length (filter P rows)"
  by (induction rows) simp_all

lemma scanRows_count:
  assumes "\<And>i r s. f (step i r s) = f s + g r"
  shows "f (scanRows step i rows sc) = (f sc :: nat) + sum_list (map g rows)"
  by (induction rows arbitrary: i sc) (simp_all add: assms)

lemma persistAndComplete_keeps:
  "totalMatches (stats (persistAndComplete E fd sc st)) = totalMatches (stats st)"
  "totalReplacements (stats (persistAndComplete E fd sc st)) = totalReplacements (stats st)"
  "currentFileMatches (stats (persistAndComplete E fd sc st)) = currentFileMatches (stats st)"
  "filter isRowProcessed (events (persistAndComplete E fd sc st)) = filter isRowProcessed (events st)"
  by (auto simp: persistAndComplete_def Let_def split: prod.splits sum.splits
      dest!: saveProcessedFile_Inl saveProcessedFile_Inr)


section \<open>Simple mode: the row test\<close>

lemma escapeRegExp_concat: "escapeRegExp term = concat (map escapedChar term)"
  by (induction "term") (simp_all add: escapedChar_def specialChars_def regexSpecial_def backslash_def)

lemma join_spaceSeparated: "join '' '' xs = spaceSeparated xs"
  by (induction "'' ''" xs rule: join.induct) simp_all

lemma searchPattern_compiled: "searchPattern useRx whole term = compiledPattern useRx whole term"
  by (simp add: searchPattern_def compiledPattern_def escapeRegExp_concat Let_def inWordBoundaries_def
      wordBoundary_def backslash_def)

lemma compileSearch_compiled:
  "compileSearch R req =
     regExp R (compiledPattern (orFalse (useRegex req)) (orFalse (wholeWord req)) (orEmpty (searchTerm req)))
       (compiledFlags (orFalse (caseSensitive req)))"
  by (simp add: compileSearch_def searchPattern_compiled compiledFlags_def searchFlags_def)

lemma rowMatchedSimple_cells:
  "rowMatchedSimple re hs r = re (spaceSeparated (cellsOf hs r))"
  by (simp add: rowMatchedSimple_def rowText_def join_spaceSeparated cellsOf_def)

lemma simpleRow_matches:
  "sc_matches (simpleRow req re fd hs rf n i r sc) =
     sc_matches sc + (if re (spaceSeparated (cellsOf hs r)) then 1 else 0)"
  "totalMatches (sc_stats (simpleRow req re fd hs rf n i r sc)) =
     totalMatches (sc_stats sc) + (if re (spaceSeparated (cellsOf hs r)) then 1 else 0)"
  by (simp_all add: simpleRow_def Let_def rowProcessed_def replaceInFields_eq applyOperations_eq
      rowMatchedSimple_cells split: prod.splits)

lemma simple_scan_matches:
  "sc_matches (scanRows (simpleRow req re fd hs rf n) i rows sc) =
     sc_matches sc + length (filter (\<lambda>r. re (spaceSeparated (cellsOf hs r))) rows)"
  "totalMatches (sc_stats (scanRows (simpleRow req re fd hs rf n) i rows sc)) =
     totalMatches (sc_stats sc) + length (filter (\<lambda>r. re (spaceSeparated (cellsOf hs r))) rows)"
proof -
  show "sc_matches (scanRows (simpleRow req re fd hs rf n) i rows sc) =
     sc_matches sc + length (filter (\<lambda>r. re (spaceSeparated (cellsOf hs r))) rows)"
    using scanRows_count [where f = sc_matches and step = "simpleRow req re fd hs rf n"
        and g = "\<lambda>r. if re (spaceSeparated (cellsOf hs r)) then 1 else 0"]
    by (simp add: simpleRow_matches sum_list_indicator)
  show "totalMatches (sc_stats (scanRows (simpleRow req re fd hs rf n) i rows sc)) =
     totalMatches (sc_stats sc) + length (filter (\<lambda>r. re (spaceSeparated (cellsOf hs r))) rows)"
    using scanRows_count [where f = "\<lambda>s. totalMatches (sc_stats s)" and step = "simpleRow req re fd hs rf n"
        and g = "\<lambda>r. if re (spaceSeparated (cellsOf hs r)) then 1 else 0"]
    by (simp add: simpleRow_matches sum_list_indicator)
qed

lemma processFileSimple_compile_fails:
  assumes "acquire E fd = Inr csv" and "papaParse E csv = ([], rows)"
    and "compileSearch R req = Inl msg"
  shows "events (processFileSimple E R req fd st) =
           events st @ [FileStart (file_name fd) (file_path fd), ErrorEvent (Some (file_name fd)) msg]"
    and "totalMatches (stats (processFileSimple E R req fd st)) = totalMatches (stats st)"
  using assms by (simp_all add: processFileSimple_def Let_def)

lemma processFileSimple_matches:
  assumes "acquire E fd = Inr csv" and "papaParse E csv = ([], rows)"
    and "compileSearch R req = Inr re"
  shows "totalMatches (stats (processFileSimple E R req fd st)) =
           totalMatches (stats st) +
           length (filter (\<lambda>r. re (spaceSeparated (cellsOf (fileHeaders R rows) r))) rows)"
    and "currentFileMatches (stats (processFileSimple E R req fd st)) =
           Some (length (filter (\<lambda>r. re (spaceSeparated (cellsOf (fileHeaders R rows) r))) rows))"
    and "\<not> simpleIsReplaceMode req \<Longrightarrow>
         \<exists>k. FileComplete (file_name fd)
                (length (filter (\<lambda>r. re (spaceSeparated (cellsOf (fileHeaders R rows) r))) rows)) k None
              \<in> set (events (processFileSimple E R req fd st))"
proof -
  show "totalMatches (stats (processFileSimple E R req fd st)) =
           totalMatches (stats st) +
           length (filter (\<lambda>r. re (spaceSeparated (cellsOf (fileHeaders R rows) r))) rows)"
    using assms
    by (simp add: processFileSimple_def Let_def persistAndComplete_keeps simple_scan_matches endScan_def)
  show "currentFileMatches (stats (processFileSimple E R req fd st)) =
           Some (length (filter (\<lambda>r. re (spaceSeparated (cellsOf (fileHeaders R rows) r))) rows))"
    using assms
    by (simp add: processFileSimple_def Let_def persistAndComplete_keeps simple_scan_matches endScan_def)
  show "\<exists>k. FileComplete (file_name fd)
                (length (filter (\<lambda>r. re (spaceSeparated (cellsOf (fileHeaders R rows) r))) rows)) k None
              \<in> set (events (processFileSimple E R req fd st))"
    if "\<not> simpleIsReplaceMode req"
    using assms that
    by (auto simp: processFileSimple_def Let_def simple_scan_matches)
qed

text \<open>
  Claim C1.  For a file of the simple route that was retrieved and parsed without
  error, the pattern handed to the regular expression constructor is the user's term,
  with every special character escaped when \<open>useRegex\<close> is false, wrapped in word
  boundaries when \<open>wholeWord\<close> is true (around a group when the term is itself a regular
  expression), and the flags hold \<open>i\<close> exactly when \<open>caseSensitive\<close> is false.  When the
  constructor throws, the file ends with the error and no row is declared a match.
  Otherwise, with \<open>test\<close> the test of the compiled expression, a row is declared a match
  exactly when \<open>test\<close> accepts the cells of the file's headers, in header order, separated
  by single spaces: this holds for the body of the row loop at every row, the number of
  matches that the file adds to \<^verbatim>\<open>totalMatches\<close> and leaves in \<^verbatim>\<open>currentFileMatches\<close> is
  the number of such rows, and in search-only mode the \<^verbatim>\<open>file-complete\<close> event reports it.
\<close>

theorem C1_simple_row_predicate:
  assumes "acquire E fd = Inr csv" and "papaParse E csv = ([], rows)"
  shows "case regExp R (compiledPattern (orFalse (useRegex req)) (orFalse (wholeWord req))
                          (orEmpty (searchTerm req)))
                (compiledFlags (orFalse (caseSensitive req))) of
           Inl msg \<Rightarrow>
             events (processFileSimple E R req fd st) =
               events st @ [FileStart (file_name fd) (file_path fd),
                            ErrorEvent (Some (file_name fd)) msg]
             \<and> totalMatches (stats (processFileSimple E R req fd st)) = totalMatches (stats st)
         | Inr test \<Rightarrow>
             totalMatches (stats (processFileSimple E R req fd st)) =
               totalMatches (stats st) +
               length (filter (\<lambda>r. test (spaceSeparated (cellsOf (fileHeaders R rows) r))) rows)
             \<and> currentFileMatches (stats (processFileSimple E R req fd st)) =
                 Some (length (filter (\<lambda>r. test (spaceSeparated (cellsOf (fileHeaders R rows) r))) rows))
             \<and> (\<not> simpleIsReplaceMode req \<longrightarrow>
                  (\<exists>k. FileComplete (file_name fd)
                         (length (filter (\<lambda>r. test (spaceSeparated (cellsOf (fileHeaders R rows) r))) rows))
                         k None
                       \<in> set (events (processFileSimple E R req fd st))))
             \<and> (\<forall>i r sc.
                  sc_matches (simpleRow req test fd (fileHeaders R rows)
                                (replaceFieldsOf req (fileHeaders R rows)) (length rows) i r sc) =
                    sc_matches sc +
                    (if test (spaceSeparated (cellsOf (fileHeaders R rows) r)) then 1 else 0))"
proof (cases "compileSearch R req")
  case (Inl msg)
  then show ?thesis
    using processFileSimple_compile_fails [OF assms Inl, of st]
    by (simp add: compileSearch_compiled)
next
  case (Inr re)
  then show ?thesis
    using processFileSimple_matches [OF assms Inr, of st]
    by (simp add: compileSearch_compiled simpleRow_matches)
qed

lemma compile_caseSensitiveRequest:
  "regExp asciiRuntime (compiledPattern (orFalse (useRegex caseSensitiveRequest))
       (orFalse (wholeWord caseSensitiveRequest)) (orEmpty (searchTerm caseSensitiveRequest)))
     (compiledFlags (orFalse (caseSensitive caseSensitiveRequest))) = Inr (sublist ''NY'')"
  by (simp add: compiledPattern_def compiledFlags_def caseSensitiveRequest_def simpleRequest_def
      orFalse_def orEmpty_def asciiRuntime_def literalRegExp_def escapedChar_def specialChars_def
      lowerLetters_def upperLetters_def digits_def)

lemma compile_simpleRequest_reference:
  "regExp asciiRuntime (compiledPattern (orFalse (useRegex simpleRequest))
       (orFalse (wholeWord simpleRequest)) (orEmpty (searchTerm simpleRequest)))
     (compiledFlags (orFalse (caseSensitive simpleRequest))) =
   Inr (\<lambda>s. sublist ''ny'' (map asciiLower s))"
  by (simp add: compiledPattern_def compiledFlags_def simpleRequest_def
      orFalse_def orEmpty_def asciiRuntime_def literalRegExp_def escapedChar_def specialChars_def
      lowerLetters_def upperLetters_def digits_def asciiLower_def)

lemma compile_wholeWordRequest:
  "regExp asciiRuntime (compiledPattern (orFalse (useRegex wholeWordRequest))
       (orFalse (wholeWord wholeWordRequest)) (orEmpty (searchTerm wholeWordRequest)))
     (compiledFlags (orFalse (caseSensitive wholeWordRequest))) =
   Inl (''Invalid regular expression: /'' @ [CHR 0x5C] @ ''ba'' @ [CHR 0x5C] @ ''.b'' @ [CHR 0x5C] @ ''b/'')"
  by (simp add: compiledPattern_def compiledFlags_def wholeWordRequest_def simpleRequest_def
      orFalse_def orEmpty_def asciiRuntime_def literalRegExp_def escapedChar_def specialChars_def
      inWordBoundaries_def lowerLetters_def upperLetters_def digits_def)

theorem C1_simple_row_predicate_witness:
  "acquire demoCollab citiesFile = Inr citiesCsv
   \<and> papaParse demoCollab citiesCsv = ([], citiesRows)
   \<and> totalMatches (stats (processFileSimple demoCollab asciiRuntime simpleRequest citiesFile
        (initialState 1))) = 2
   \<and> totalMatches (stats (processFileSimple demoCollab asciiRuntime caseSensitiveRequest citiesFile
        (initialState 1))) = 1
   \<and> events (processFileSimple demoCollab asciiRuntime wholeWordRequest citiesFile (initialState 1)) =
       [FileStart ''cities.csv'' ''/app/tmp/1_cities.csv'',
        ErrorEvent (Some ''cities.csv'')
          (''Invalid regular expression: /'' @ [CHR 0x5C] @ ''ba'' @ [CHR 0x5C] @ ''.b'' @ [CHR 0x5C] @ ''b/'')]"
proof -
  have n2: "length (filter (\<lambda>r. sublist ''ny'' (map asciiLower
               (spaceSeparated (cellsOf (fileHeaders asciiRuntime citiesRows) r)))) citiesRows) = 2"
    by code_simp
  have n1: "length (filter (\<lambda>r. sublist ''NY''
               (spaceSeparated (cellsOf (fileHeaders asciiRuntime citiesRows) r))) citiesRows) = 1"
    by code_simp
  have a: "totalMatches (stats (processFileSimple demoCollab asciiRuntime simpleRequest citiesFile
        (initialState 1))) = 2"
    using C1_simple_row_predicate [OF acquire_cities parse_cities, of asciiRuntime simpleRequest
        "initialState 1"]
    by (simp add: compile_simpleRequest_reference n2 initialState_def initialStats_def)
  have b: "totalMatches (stats (processFileSimple demoCollab asciiRuntime caseSensitiveRequest citiesFile
        (initialState 1))) = 1"
    using C1_simple_row_predicate [OF acquire_cities parse_cities, of asciiRuntime caseSensitiveRequest
        "initialState 1"]
    by (simp add: compile_caseSensitiveRequest n1 initialState_def initialStats_def)
  have c: "events (processFileSimple demoCollab asciiRuntime wholeWordRequest citiesFile (initialState 1)) =
       [FileStart ''cities.csv'' ''/app/tmp/1_cities.csv'',
        ErrorEvent (Some ''cities.csv'')
          (''Invalid regular expression: /'' @ [CHR 0x5C] @ ''ba'' @ [CHR 0x5C] @ ''.b'' @ [CHR 0x5C] @ ''b/'')]"
    using C1_simple_row_predicate [OF acquire_cities parse_cities, of asciiRuntime wholeWordRequest
        "initialState 1"]
    by (simp add: compile_wholeWordRequest initialState_def citiesFile_def)
  from a b c acquire_cities parse_cities show ?thesis by simp
qed

section \<open>Aborted and counted files\<close>

lemma replayFile_missing_field:
  assumes "fetchText E (actualFilePath selected fp sr) = Inr text"
    and "papaParse E text = ([], rows)"
    and "invalidFields ops (fileHeaders R rows) \<noteq> []"
  shows "replayFile E R selected ops (fp, sr) st =
     sendEvent (fieldsNotFoundEvent (sr_filename sr) (invalidFields ops (fileHeaders R rows)))
       (sendEvent (FileStart (sr_filename sr) fp)
          (st\<lparr>stats := (stats st)\<lparr>currentFile := Some (sr_filename sr),
                                    totalRows := totalRows (stats st) + length rows\<rparr>\<rparr>))"
  using assms by (simp add: replayFile_def Let_def sendEvent_def)

lemma processFileSimple_search_scanned:
  assumes "acquire E file = Inr text" and "papaParse E text = ([], rows)"
    and "compileSearch R req = Inr re" and "\<not> simpleIsReplaceMode req"
  shows "emitted (outputFiles st) (outputFiles (processFileSimple E R req file st)) =
           [\<lparr>originalPath = file_path file, newPath = None\<rparr>]"
  using assms by (simp add: processFileSimple_def Let_def emitted_def)

lemma processFileAdvanced_search_scanned:
  assumes "acquire E file = Inr text" and "papaParse E text = ([], rows)"
    and "matchersCompile R adv" and "\<not> advancedIsReplaceMode req"
  shows "emitted (outputFiles st) (outputFiles (processFileAdvanced E R req adv file st)) =
           [\<lparr>originalPath = file_path file, newPath = None\<rparr>]"
  using assms by (simp add: processFileAdvanced_def Let_def emitted_def advanced_scan_compiled)

text \<open>
  Claim C4.  In the replay route, a file for which an operation names a field that is
  not among the deduplicated headers is aborted: the only events of the file are its
  \<^verbatim>\<open>file-start\<close> and an \<^verbatim>\<open>error\<close> listing the missing fields; no row is scanned, nothing
  is written, no output record is produced and \<^verbatim>\<open>processedFiles\<close> stays.  For every
  file of the replay route, \<^verbatim>\<open>processedFiles\<close> grows (by one) only together with
  \<^verbatim>\<open>totalReplacements\<close>; a file that leaves \<^verbatim>\<open>totalReplacements\<close> as it was writes
  nothing, is not counted, and has no output record with a locator.  In simple and
  advanced mode, every file that yields an output record is counted, and a scanned file
  yields one even in search-only mode, where nothing is replaced.
\<close>

theorem C4_replay_abort_and_processed_files:
  "(fetchText E (actualFilePath selected fp sr) = Inr text \<and> papaParse E text = ([], rows)
      \<and> invalidFields ops (fileHeaders R rows) \<noteq> [] \<longrightarrow>
        emitted (events st) (events (replayFile E R selected ops (fp, sr) st)) =
          [FileStart (sr_filename sr) fp,
           ErrorEvent (Some (sr_filename sr))
             (''Fields not found in CSV headers: '' @
              join '', '' (filter (\<lambda>f. f \<notin> set (fileHeaders R rows)) (map op_field ops)))]
        \<and> outputFiles (replayFile E R selected ops (fp, sr) st) = outputFiles st
        \<and> saved (replayFile E R selected ops (fp, sr) st) = saved st
        \<and> processedFiles (stats (replayFile E R selected ops (fp, sr) st)) = processedFiles (stats st)
        \<and> processedRows (stats (replayFile E R selected ops (fp, sr) st)) = processedRows (stats st)
        \<and> totalReplacements (stats (replayFile E R selected ops (fp, sr) st)) = totalReplacements (stats st))
   \<and> (processedFiles (stats (replayFile E R selected ops (fp, sr) st)) = processedFiles (stats st)
        \<or> processedFiles (stats (replayFile E R selected ops (fp, sr) st)) = processedFiles (stats st) + 1
           \<and> totalReplacements (stats st) < totalReplacements (stats (replayFile E R selected ops (fp, sr) st)))
   \<and> (totalReplacements (stats (replayFile E R selected ops (fp, sr) st)) = totalReplacements (stats st) \<longrightarrow>
        processedFiles (stats (replayFile E R selected ops (fp, sr) st)) = processedFiles (stats st)
        \<and> saved (replayFile E R selected ops (fp, sr) st) = saved st
        \<and> list_all (\<lambda>f. newPath f = None)
             (emitted (outputFiles st) (outputFiles (replayFile E R selected ops (fp, sr) st))))
   \<and> processedFiles (stats (processFileSimple E R req file st)) =
        processedFiles (stats st) +
        length (emitted (outputFiles st) (outputFiles (processFileSimple E R req file st)))
   \<and> processedFiles (stats (processFileAdvanced E R req adv file st)) =
        processedFiles (stats st) +
        length (emitted (outputFiles st) (outputFiles (processFileAdvanced E R req adv file st)))
   \<and> (acquire E file = Inr text2 \<and> papaParse E text2 = ([], rows2) \<and> \<not> simpleIsReplaceMode req
        \<and> compileSearch R req = Inr re \<longrightarrow>
        emitted (outputFiles st) (outputFiles (processFileSimple E R req file st)) =
          [\<lparr>originalPath = file_path file, newPath = None\<rparr>])
   \<and> (acquire E file = Inr text2 \<and> papaParse E text2 = ([], rows2) \<and> \<not> advancedIsReplaceMode req
        \<and> matchersCompile R adv \<longrightarrow>
        emitted (outputFiles st) (outputFiles (processFileAdvanced E R req adv file st)) =
          [\<lparr>originalPath = file_path file, newPath = None\<rparr>])"
proof -
  let ?st1 = "replayFile E R selected ops (fp, sr) st"
  have a: "fetchText E (actualFilePath selected fp sr) = Inr text \<and> papaParse E text = ([], rows)
      \<and> invalidFields ops (fileHeaders R rows) \<noteq> [] \<longrightarrow>
        emitted (events st) (events ?st1) =
          [FileStart (sr_filename sr) fp,
           ErrorEvent (Some (sr_filename sr))
             (''Fields not found in CSV headers: '' @
              join '', '' (filter (\<lambda>f. f \<notin> set (fileHeaders R rows)) (map op_field ops)))]
        \<and> outputFiles ?st1 = outputFiles st \<and> saved ?st1 = saved st
        \<and> processedFiles (stats ?st1) = processedFiles (stats st)
        \<and> processedRows (stats ?st1) = processedRows (stats st)
        \<and> totalReplacements (stats ?st1) = totalReplacements (stats st)"
  proof (intro impI)
    assume h: "fetchText E (actualFilePath selected fp sr) = Inr text \<and> papaParse E text = ([], rows)
      \<and> invalidFields ops (fileHeaders R rows) \<noteq> []"
    then have "?st1 = sendEvent (fieldsNotFoundEvent (sr_filename sr) (invalidFields ops (fileHeaders R rows)))
       (sendEvent (FileStart (sr_filename sr) fp)
          (st\<lparr>stats := (stats st)\<lparr>currentFile := Some (sr_filename sr),
                                    totalRows := totalRows (stats st) + length rows\<rparr>\<rparr>))"
      using replayFile_missing_field by blast
    then show "emitted (events st) (events ?st1) =
          [FileStart (sr_filename sr) fp,
           ErrorEvent (Some (sr_filename sr))
             (''Fields not found in CSV headers: '' @
              join '', '' (filter (\<lambda>f. f \<notin> set (fileHeaders R rows)) (map op_field ops)))]
        \<and> outputFiles ?st1 = outputFiles st \<and> saved ?st1 = saved st
        \<and> processedFiles (stats ?st1) = processedFiles (stats st)
        \<and> processedRows (stats ?st1) = processedRows (stats st)
        \<and> totalReplacements (stats ?st1) = totalReplacements (stats st)"
      by (simp add: emitted_def fieldsNotFoundEvent_def invalidFields_def)
  qed
  note c = replayFile_counts [of E R selected ops fp sr st]
  have b: "processedFiles (stats ?st1) = processedFiles (stats st)
        \<or> processedFiles (stats ?st1) = processedFiles (stats st) + 1
           \<and> totalReplacements (stats st) < totalReplacements (stats ?st1)"
    using c by (cases "saved ?st1 = saved st") simp_all
  have d: "totalReplacements (stats ?st1) = totalReplacements (stats st) \<longrightarrow>
        processedFiles (stats ?st1) = processedFiles (stats st)
        \<and> saved ?st1 = saved st
        \<and> list_all (\<lambda>f. newPath f = None) (emitted (outputFiles st) (outputFiles ?st1))"
    using c by (cases "saved ?st1 = saved st") simp_all
  have e: "acquire E file = Inr text2 \<and> papaParse E text2 = ([], rows2) \<and> \<not> simpleIsReplaceMode req
        \<and> compileSearch R req = Inr re \<longrightarrow>
        emitted (outputFiles st) (outputFiles (processFileSimple E R req file st)) =
          [\<lparr>originalPath = file_path file, newPath = None\<rparr>]"
    using processFileSimple_search_scanned by blast
  have f: "acquire E file = Inr text2 \<and> papaParse E text2 = ([], rows2) \<and> \<not> advancedIsReplaceMode req
        \<and> matchersCompile R adv \<longrightarrow>
        emitted (outputFiles st) (outputFiles (processFileAdvanced E R req adv file st)) =
          [\<lparr>originalPath = file_path file, newPath = None\<rparr>]"
    using processFileAdvanced_search_scanned by blast
  from a b d e f processFileSimple_counts [of E R req "file" st]
    processFileAdvanced_counts [of E R req adv "file" st]
  show ?thesis by blast
qed

theorem C4_replay_abort_and_processed_files_witness:
  "fetchText demoCollab (actualFilePath [citiesFile] citiesPath citiesResult) = Inr citiesCsv
   \<and> papaParse demoCollab citiesCsv = ([], citiesRows)
   \<and> invalidFields closeStatus (fileHeaders asciiRuntime citiesRows) \<noteq> []
   \<and> emitted (events (initialState 1))
        (events (replayFile demoCollab asciiRuntime [citiesFile] closeStatus (citiesPath, citiesResult)
                   (initialState 1))) =
        [FileStart ''cities.csv'' citiesPath,
         ErrorEvent (Some ''cities.csv'') ''Fields not found in CSV headers: status'']
   \<and> outputFiles (replayFile demoCollab asciiRuntime [citiesFile] closeStatus (citiesPath, citiesResult)
                   (initialState 1)) = []
   \<and> processedFiles (stats (replayFile demoCollab asciiRuntime [citiesFile] closeStatus
                   (citiesPath, citiesResult) (initialState 1))) = 0
   \<and> acquire demoCollab citiesFile = Inr citiesCsv
   \<and> \<not> simpleIsReplaceMode simpleRequest
   \<and> processedFiles (stats (processFileSimple demoCollab asciiRuntime simpleRequest citiesFile
                   (initialState 1))) = 1"
proof -
  have h1: "fetchText demoCollab (actualFilePath [citiesFile] citiesPath citiesResult) = Inr citiesCsv"
    by (rule fetch_cities)
  have h2: "papaParse demoCollab citiesCsv = ([], citiesRows)" by (rule parse_cities)
  have h3: "invalidFields closeStatus (fileHeaders asciiRuntime citiesRows) \<noteq> []"
    by (simp add: fileHeaders_cities invalidFields_def closeStatus_def)
  have h4: "acquire demoCollab citiesFile = Inr citiesCsv" by (rule acquire_cities)
  have h5: "\<not> simpleIsReplaceMode simpleRequest"
    by (simp add: simpleIsReplaceMode_def simpleRequest_def)
  note h6 = compile_simpleRequest
  note t = C4_replay_abort_and_processed_files [of demoCollab "[citiesFile]" citiesPath citiesResult
      citiesCsv citiesRows closeStatus asciiRuntime "initialState 1" simpleRequest citiesFile
      stateEqualsNY citiesCsv citiesRows "\<lambda>s. sublist (map asciiLower ''NY'') (map asciiLower s)"]
  from t h1 h2 h3 have a:
    "emitted (events (initialState 1))
        (events (replayFile demoCollab asciiRuntime [citiesFile] closeStatus (citiesPath, citiesResult)
                   (initialState 1))) =
        [FileStart (sr_filename citiesResult) citiesPath,
         ErrorEvent (Some (sr_filename citiesResult))
          (''Fields not found in CSV headers: '' @
              join '', '' (filter (\<lambda>f. f \<notin> set (fileHeaders asciiRuntime citiesRows)) (map op_field closeStatus)))]
     \<and> outputFiles (replayFile demoCollab asciiRuntime [citiesFile] closeStatus (citiesPath, citiesResult)
                   (initialState 1)) = outputFiles (initialState 1)
     \<and> processedFiles (stats (replayFile demoCollab asciiRuntime [citiesFile] closeStatus
                   (citiesPath, citiesResult) (initialState 1))) = processedFiles (stats (initialState 1))"
    by blast
  from t h2 h4 h5 h6 have b:
    "emitted (outputFiles (initialState 1))
       (outputFiles (processFileSimple demoCollab asciiRuntime simpleRequest citiesFile (initialState 1))) =
          [\<lparr>originalPath = file_path citiesFile, newPath = None\<rparr>]"
    by blast
  from t have c: "processedFiles (stats (processFileSimple demoCollab asciiRuntime simpleRequest citiesFile
                   (initialState 1))) =
        processedFiles (stats (initialState 1)) +
        length (emitted (outputFiles (initialState 1))
           (outputFiles (processFileSimple demoCollab asciiRuntime simpleRequest citiesFile (initialState 1))))"
    by blast
  have d: "processedFiles (stats (processFileSimple demoCollab asciiRuntime simpleRequest citiesFile
                   (initialState 1))) = 1"
    using c b by (simp add: initialState_def initialStats_def)
  from a have a': "emitted (events (initialState 1))
        (events (replayFile demoCollab asciiRuntime [citiesFile] closeStatus (citiesPath, citiesResult)
                   (initialState 1))) =
        [FileStart ''cities.csv'' citiesPath,
         ErrorEvent (Some ''cities.csv'') ''Fields not found in CSV headers: status'']
   \<and> outputFiles (replayFile demoCollab asciiRuntime [citiesFile] closeStatus (citiesPath, citiesResult)
                   (initialState 1)) = []
   \<and> processedFiles (stats (replayFile demoCollab asciiRuntime [citiesFile] closeStatus
                   (citiesPath, citiesResult) (initialState 1))) = 0"
    by (simp add: fileHeaders_cities closeStatus_def citiesResult_def initialState_def initialStats_def)
  from h1 h2 h3 h4 h5 a' d show ?thesis by simp
qed

section \<open>Counting replacements\<close>

lemma appliedChanges_snoc:
  "appliedChanges hs (ws @ [w]) r =
     appliedChanges hs ws r @
     (if op_field w \<in> set hs \<and> getField (appliedRow hs ws r) (op_field w) \<noteq> op_value w
      then [\<lparr>ch_field = op_field w, oldValue = getField (appliedRow hs ws r) (op_field w),
             newValue = op_value w\<rparr>]
      else [])"
  by (induction ws arbitrary: r) simp_all

lemma changeRecords_snoc:
  "changeRecords (ws @ [w]) r =
     changeRecords ws r @
     (if op_value w \<noteq> valueAfter ws r (op_field w)
      then [\<lparr>ch_field = op_field w, oldValue = valueAfter ws r (op_field w), newValue = op_value w\<rparr>]
      else [])"
proof -
  have ex: "existingValue (ws @ [w]) r k = existingValue ws r k" if "k < length ws" for k
    using that by (simp add: existingValue_def nth_append)
  have last: "existingValue (ws @ [w]) r (length ws) = valueAfter ws r (op_field w)"
    by (simp add: existingValue_def)
  have eff: "filter (\<lambda>k. op_value ((ws @ [w]) ! k) \<noteq> existingValue (ws @ [w]) r k) [0..<length ws] =
             effectiveWrites ws r"
    unfolding effectiveWrites_def
    by (rule filter_cong) (simp_all add: ex nth_append)
  have rec: "map (\<lambda>k. \<lparr>ch_field = op_field ((ws @ [w]) ! k), oldValue = existingValue (ws @ [w]) r k,
                       newValue = op_value ((ws @ [w]) ! k)\<rparr>) (effectiveWrites ws r) =
             changeRecords ws r"
    unfolding changeRecords_def
    by (rule map_cong) (auto simp: ex nth_append effectiveWrites_def)
  have "effectiveWrites (ws @ [w]) r =
          effectiveWrites ws r @ (if op_value w \<noteq> valueAfter ws r (op_field w) then [length ws] else [])"
    using eff by (simp add: effectiveWrites_def last)
  then show ?thesis
    using rec by (simp add: changeRecords_def last)
qed

lemma appliedChanges_changeRecords:
  "op_field ` set ws \<subseteq> set hs \<Longrightarrow> appliedChanges hs ws r = changeRecords ws r"
proof (induction ws rule: rev_induct)
  case Nil
  then show ?case by (simp add: changeRecords_def effectiveWrites_def)
next
  case (snoc w ws)
  then have sub: "op_field ` set ws \<subseteq> set hs" and w: "op_field w \<in> set hs" by auto
  show ?case
    using snoc.IH [OF sub] w getField_appliedRow [OF sub, of r "op_field w"]
    by (auto simp: appliedChanges_snoc changeRecords_snoc)
qed

lemma changeRecords_single:
  "changeRecords [w] r =
     (if op_value w \<noteq> getField r (op_field w)
      then [\<lparr>ch_field = op_field w, oldValue = getField r (op_field w), newValue = op_value w\<rparr>]
      else [])"
  using changeRecords_snoc [of "[]" w r] by (simp add: changeRecords_def effectiveWrites_def)

lemma sameValueOps_fields: "op_field ` set (sameValueOps nv fs) \<subseteq> set fs"
  by (auto simp: sameValueOps_def)

lemma rowEventsFor_single:
  "rowEventsFor name path n cs [(i, r)] =
     (if cs (i, r) = [] then [] else [RowProcessed name path (i + 1) n (cs (i, r))])"
  by (simp add: rowEventsFor_def)

lemma rowEventsFor_Cons:
  "rowEventsFor name path n cs (jr # jrs) = rowEventsFor name path n cs [jr] @ rowEventsFor name path n cs jrs"
  by (simp add: rowEventsFor_def)

lemma scan_changes:
  assumes "\<And>i r s. totalReplacements (sc_stats (step i r s)) =
                     totalReplacements (sc_stats s) + length (cs (i, r))"
    and "\<And>i r s. filter isRowProcessed (sc_events (step i r s)) =
                     filter isRowProcessed (sc_events s) @ rowEventsFor name path n cs [(i, r)]"
  shows "totalReplacements (sc_stats (scanRows step i rows sc)) =
           totalReplacements (sc_stats sc) + recordCount cs (zip [i..<i + length rows] rows)"
    and "filter isRowProcessed (sc_events (scanRows step i rows sc)) =
           filter isRowProcessed (sc_events sc) @
           rowEventsFor name path n cs (zip [i..<i + length rows] rows)"
proof -
  show "totalReplacements (sc_stats (scanRows step i rows sc)) =
           totalReplacements (sc_stats sc) + recordCount cs (zip [i..<i + length rows] rows)"
  proof (induction rows arbitrary: i sc)
    case Nil then show ?case by (simp add: recordCount_def)
  next
    case (Cons r rs)
    show ?case
      by (simp only: scanRows.simps Cons.IH length_Cons enum_Cons)
         (simp add: assms(1) recordCount_def)
  qed
  show "filter isRowProcessed (sc_events (scanRows step i rows sc)) =
           filter isRowProcessed (sc_events sc) @
           rowEventsFor name path n cs (zip [i..<i + length rows] rows)"
  proof (induction rows arbitrary: i sc)
    case Nil then show ?case by (simp add: rowEventsFor_def)
  next
    case (Cons r rs)
    show ?case
      by (simp only: scanRows.simps Cons.IH length_Cons enum_Cons)
         (simp add: assms(2) rowEventsFor_def)
  qed
qed

text \<open>The three loop bodies, as a selection of rows and a sequence of writes.\<close>

lemma simpleRow_changes:
  assumes "simpleIsReplaceMode req"
  shows "totalReplacements (sc_stats (simpleRow req re fd hs fs n i r sc)) =
           totalReplacements (sc_stats sc) +
           length (selectedChanges (\<lambda>jr. rowMatchedSimple re hs (snd jr))
                     (sameValueOps (orEmpty (replaceTerm req)) fs) (i, r))"
    and "filter isRowProcessed (sc_events (simpleRow req re fd hs fs n i r sc)) =
           filter isRowProcessed (sc_events sc) @
           rowEventsFor (file_name fd) (file_path fd) n
             (selectedChanges (\<lambda>jr. rowMatchedSimple re hs (snd jr))
                (sameValueOps (orEmpty (replaceTerm req)) fs)) [(i, r)]"
  using assms
    appliedChanges_changeRecords [of "sameValueOps (orEmpty (replaceTerm req)) fs" fs r,
      OF sameValueOps_fields]
  by (simp_all add: simpleRow_def Let_def rowProcessed_def replaceInFields_eq applyOperations_eq
      selectedChanges_def rowEventsFor_single statsTick_events split: prod.splits)

lemma advancedStep_changes:
  assumes "advancedIsReplaceMode req" and "orEmpty (replaceTargetField req) \<in> set hs"
  shows "totalReplacements (sc_stats (advancedStep R req adv fd hs n i r sc)) =
           totalReplacements (sc_stats sc) +
           length (selectedChanges (\<lambda>jr. fst (referenceAdvanced R (snd jr) hs adv))
                     [\<lparr>op_field = orEmpty (replaceTargetField req),
                       op_value = orEmpty (replaceValue req)\<rparr>] (i, r))"
    and "filter isRowProcessed (sc_events (advancedStep R req adv fd hs n i r sc)) =
           filter isRowProcessed (sc_events sc) @
           rowEventsFor (file_name fd) (file_path fd) n
             (selectedChanges (\<lambda>jr. fst (referenceAdvanced R (snd jr) hs adv))
                [\<lparr>op_field = orEmpty (replaceTargetField req),
                  op_value = orEmpty (replaceValue req)\<rparr>]) [(i, r)]"
  using assms
  by (auto simp: advancedStep_def advancedMatched_def advancedIsReplaceMode_def Let_def
      rowProcessed_def selectedChanges_def rowEventsFor_single statsTick_events changeRecords_single)

lemma replayRow_changes:
  assumes "op_field ` set ops \<subseteq> set hs"
  shows "totalReplacements (sc_stats (replayRow ops sr fp hs n i r sc)) =
           totalReplacements (sc_stats sc) +
           length (selectedChanges (\<lambda>jr. int (fst jr) \<in> rowsToReplace sr) ops (i, r))"
    and "filter isRowProcessed (sc_events (replayRow ops sr fp hs n i r sc)) =
           filter isRowProcessed (sc_events sc) @
           rowEventsFor (sr_filename sr) fp n
             (selectedChanges (\<lambda>jr. int (fst jr) \<in> rowsToReplace sr) ops) [(i, r)]"
  using appliedChanges_changeRecords [OF assms, of r]
  by (simp_all add: replayRow_eq replayedChanges_def selectedChanges_def rowEventsFor_single
      statsTick_events)


lemma rowMatches_compiled:
  "matchersCompile R adv \<Longrightarrow> rowMatches R hs adv r = fst (referenceAdvanced R r hs adv)"
  by (auto simp: rowMatches_def matchersCompile_def rowMatchesAdvanced_compiled split: sum.splits)

lemma matchersCompile_stateEqualsNY: "matchersCompile asciiRuntime stateEqualsNY"
  by code_simp

lemma processFileSimple_changes:
  assumes "acquire E fd = Inr csv" and "papaParse E csv = ([], rows)"
    and "compileSearch R req = Inr re" and "simpleIsReplaceMode req"
  shows "totalReplacements (stats (processFileSimple E R req fd st)) =
           totalReplacements (stats st) +
           recordCount (selectedChanges (\<lambda>jr. rowMatchedSimple re (fileHeaders R rows) (snd jr))
                          (sameValueOps (orEmpty (replaceTerm req))
                             (replaceFieldsOf req (fileHeaders R rows))))
             (numbered rows)"
    and "filter isRowProcessed (events (processFileSimple E R req fd st)) =
           filter isRowProcessed (events st) @
           rowEventsFor (file_name fd) (file_path fd) (length rows)
             (selectedChanges (\<lambda>jr. rowMatchedSimple re (fileHeaders R rows) (snd jr))
                (sameValueOps (orEmpty (replaceTerm req)) (replaceFieldsOf req (fileHeaders R rows))))
             (numbered rows)"
proof -
  let ?hs = "fileHeaders R rows"
  let ?step = "simpleRow req re fd ?hs (replaceFieldsOf req ?hs) (length rows)"
  let ?st3 = "sendEvent (FileInfo (file_name fd) (length rows) (length ?hs))
                (noteRows (length rows) (beginFile (file_name fd) (file_path fd) st))"
  let ?sc = "scanRows ?step 0 rows (startScan ?st3)"
  have res: "processFileSimple E R req fd st = persistAndComplete E fd ?sc (endScan ?sc ?st3)"
    using assms by (simp add: processFileSimple_def Let_def)
  note sc = scan_changes [of ?step, OF simpleRow_changes(1) [OF assms(4)] simpleRow_changes(2) [OF assms(4)],
      of 0 rows "startScan ?st3"]
  show "totalReplacements (stats (processFileSimple E R req fd st)) =
           totalReplacements (stats st) +
           recordCount (selectedChanges (\<lambda>jr. rowMatchedSimple re ?hs (snd jr))
                          (sameValueOps (orEmpty (replaceTerm req)) (replaceFieldsOf req ?hs)))
             (numbered rows)"
    unfolding res by (simp add: persistAndComplete_keeps sc(1) numbered_def)
  show "filter isRowProcessed (events (processFileSimple E R req fd st)) =
           filter isRowProcessed (events st) @
           rowEventsFor (file_name fd) (file_path fd) (length rows)
             (selectedChanges (\<lambda>jr. rowMatchedSimple re ?hs (snd jr))
                (sameValueOps (orEmpty (replaceTerm req)) (replaceFieldsOf req ?hs)))
             (numbered rows)"
    unfolding res by (simp add: persistAndComplete_keeps sc(2) numbered_def)
qed

lemma processFileAdvanced_changes:
  assumes "acquire E fd = Inr csv" and "papaParse E csv = ([], rows)"
    and "matchersCompile R adv" and "advancedIsReplaceMode req"
    and "orEmpty (replaceTargetField req) \<in> set (fileHeaders R rows)"
  shows "totalReplacements (stats (processFileAdvanced E R req adv fd st)) =
           totalReplacements (stats st) +
           recordCount (selectedChanges (\<lambda>jr. rowMatches R (fileHeaders R rows) adv (snd jr))
                          [\<lparr>op_field = orEmpty (replaceTargetField req),
                            op_value = orEmpty (replaceValue req)\<rparr>])
             (numbered rows)"
    and "filter isRowProcessed (events (processFileAdvanced E R req adv fd st)) =
           filter isRowProcessed (events st) @
           rowEventsFor (file_name fd) (file_path fd) (length rows)
             (selectedChanges (\<lambda>jr. rowMatches R (fileHeaders R rows) adv (snd jr))
                [\<lparr>op_field = orEmpty (replaceTargetField req),
                  op_value = orEmpty (replaceValue req)\<rparr>])
             (numbered rows)"
proof -
  let ?hs = "fileHeaders R rows"
  let ?step = "advancedStep R req adv fd ?hs (length rows)"
  let ?st3 = "sendEvent (FileInfo (file_name fd) (length rows) (length ?hs))
                (noteRows (length rows) (beginFile (file_name fd) (file_path fd) st))"
  let ?sc = "scanRows ?step 0 rows (startScan ?st3)"
  have res: "processFileAdvanced E R req adv fd st = persistAndComplete E fd ?sc (endScan ?sc ?st3)"
    using assms by (simp add: processFileAdvanced_def Let_def advanced_scan_compiled)
  have sel: "(\<lambda>jr. rowMatches R ?hs adv (snd jr)) = (\<lambda>jr. fst (referenceAdvanced R (snd jr) ?hs adv))"
    by (simp add: rowMatches_compiled [OF assms(3)])
  note sc = scan_changes [of ?step, OF advancedStep_changes(1) [OF assms(4,5)]
      advancedStep_changes(2) [OF assms(4,5)], of 0 rows "startScan ?st3"]
  show "totalReplacements (stats (processFileAdvanced E R req adv fd st)) =
           totalReplacements (stats st) +
           recordCount (selectedChanges (\<lambda>jr. rowMatches R ?hs adv (snd jr))
                          [\<lparr>op_field = orEmpty (replaceTargetField req),
                            op_value = orEmpty (replaceValue req)\<rparr>])
             (numbered rows)"
    unfolding res sel by (simp add: persistAndComplete_keeps sc(1) numbered_def)
  show "filter isRowProcessed (events (processFileAdvanced E R req adv fd st)) =
           filter isRowProcessed (events st) @
           rowEventsFor (file_name fd) (file_path fd) (length rows)
             (selectedChanges (\<lambda>jr. rowMatches R ?hs adv (snd jr))
                [\<lparr>op_field = orEmpty (replaceTargetField req),
                  op_value = orEmpty (replaceValue req)\<rparr>])
             (numbered rows)"
    unfolding res sel by (simp add: persistAndComplete_keeps sc(2) numbered_def)
qed

lemma replayFile_changes:
  assumes "fetchText E (actualFilePath selected fp sr) = Inr csv" and "papaParse E csv = ([], rows)"
    and "invalidFields ops (fileHeaders R rows) = []"
  shows "totalReplacements (stats (replayFile E R selected ops (fp, sr) st)) =
           totalReplacements (stats st) +
           recordCount (selectedChanges (\<lambda>jr. int (fst jr) \<in> rowsToReplace sr) ops) (numbered rows)"
    and "filter isRowProcessed (events (replayFile E R selected ops (fp, sr) st)) =
           filter isRowProcessed (events st) @
           rowEventsFor (sr_filename sr) fp (length rows)
             (selectedChanges (\<lambda>jr. int (fst jr) \<in> rowsToReplace sr) ops) (numbered rows)"
proof -
  let ?hs = "fileHeaders R rows"
  let ?step = "replayRow ops sr fp ?hs (length rows)"
  have sub: "op_field ` set ops \<subseteq> set ?hs"
    using assms(3) by (simp add: invalidFields_Nil)
  note sc = scan_changes [of ?step, OF replayRow_changes(1) [OF sub] replayRow_changes(2) [OF sub]]
  show "totalReplacements (stats (replayFile E R selected ops (fp, sr) st)) =
           totalReplacements (stats st) +
           recordCount (selectedChanges (\<lambda>jr. int (fst jr) \<in> rowsToReplace sr) ops) (numbered rows)"
    using assms
    by (auto simp: replayFile_def Let_def sc(1) numbered_def split: prod.splits sum.splits
        dest!: saveProcessedFile_Inl saveProcessedFile_Inr)
  show "filter isRowProcessed (events (replayFile E R selected ops (fp, sr) st)) =
           filter isRowProcessed (events st) @
           rowEventsFor (sr_filename sr) fp (length rows)
             (selectedChanges (\<lambda>jr. int (fst jr) \<in> rowsToReplace sr) ops) (numbered rows)"
    using assms
    by (auto simp: replayFile_def Let_def sc(2) numbered_def split: prod.splits sum.splits
        dest!: saveProcessedFile_Inl saveProcessedFile_Inr)
qed

lemma recordCount_single_write:
  "recordCount (selectedChanges (\<lambda>jr. P (snd jr)) [w]) (zip [i..<i + length rows] rows) =
     length (filter (\<lambda>r. P r \<and> getField r (op_field w) \<noteq> op_value w) rows)"
proof -
  have "recordCount (selectedChanges (\<lambda>jr. P (snd jr)) [w]) jrs =
          length (filter (\<lambda>r. P r \<and> getField r (op_field w) \<noteq> op_value w) (map snd jrs))" for jrs
    by (induction jrs) (auto simp: recordCount_def selectedChanges_def changeRecords_single)
  moreover have "map snd (zip [i..<i + length rows] rows) = rows"
    by simp
  ultimately show ?thesis by (simp only:)
qed

lemma changeRecords_differ:
  "c \<in> set (changeRecords ws r) \<Longrightarrow> oldValue c \<noteq> newValue c"
  by (auto simp: changeRecords_def effectiveWrites_def)

lemma changeRecords_iff:
  "(\<exists>c \<in> set (changeRecords ws r). ch_field c = f) \<longleftrightarrow>
   (\<exists>w \<in> set ws. op_field w = f \<and> op_value w \<noteq> getField r f)"
  using appliedChanges_iff [of ws "map op_field ws" r f]
    appliedChanges_changeRecords [of ws "map op_field ws" r]
  by simp


text \<open>
  Claim C7.  Each of the three replace paths performs, on the rows it selects, a
  sequence of writes: simple mode writes the replacement term into every field to
  replace, on the rows that pass the row test; advanced mode writes the replacement
  value into the target field, on the rows that the conditions accept; the replay
  route performs the operations, on the rows of the search result.  For a file that is
  retrieved and parsed without error (with a search expression or matchers that
  compile, and for the replay route with operations that name headers only), the file
  adds to \<^verbatim>\<open>totalReplacements\<close> the number of change records of its rows, and the
  \<^verbatim>\<open>row-processed\<close> events of the file are, in row order, one event per row that has
  a change record, carrying the change records of the row.  The change records of a
  row are those of the writes whose value differs from the value the field has when
  the write is made: a change record always differs in old and new value, and a field
  has a change record exactly when a write to it differs from the value of the parsed
  row.  Consequently (Scenario B) an advanced file adds to \<^verbatim>\<open>totalReplacements\<close> the
  number of accepted rows whose target value was not already the replacement value.
\<close>

theorem C7_replacements_counted_iff_changed:
  "(acquire E fd = Inr csv \<and> papaParse E csv = ([], rows) \<and> compileSearch R req = Inr test
      \<and> simpleIsReplaceMode req \<longrightarrow>
      (let hs = fileHeaders R rows;
           cs = selectedChanges (\<lambda>jr. rowMatchedSimple test hs (snd jr))
                  (sameValueOps (orEmpty (replaceTerm req)) (replaceFieldsOf req hs));
           after = processFileSimple E R req fd st
       in totalReplacements (stats after) =
            totalReplacements (stats st) + recordCount cs (numbered rows)
          \<and> filter isRowProcessed (events after) =
              filter isRowProcessed (events st) @
              rowEventsFor (file_name fd) (file_path fd) (length rows) cs (numbered rows)))
   \<and> (acquire E fd = Inr csv \<and> papaParse E csv = ([], rows) \<and> matchersCompile R adv
        \<and> advancedIsReplaceMode req
        \<and> orEmpty (replaceTargetField req) \<in> set (fileHeaders R rows) \<longrightarrow>
      (let hs = fileHeaders R rows;
           target = orEmpty (replaceTargetField req);
           nv = orEmpty (replaceValue req);
           cs = selectedChanges (\<lambda>jr. rowMatches R hs adv (snd jr))
                  [\<lparr>op_field = target, op_value = nv\<rparr>];
           after = processFileAdvanced E R req adv fd st
       in totalReplacements (stats after) =
            totalReplacements (stats st) + recordCount cs (numbered rows)
          \<and> filter isRowProcessed (events after) =
              filter isRowProcessed (events st) @
              rowEventsFor (file_name fd) (file_path fd) (length rows) cs (numbered rows)
          \<and> totalReplacements (stats after) =
              totalReplacements (stats st) +
              length (filter (\<lambda>r. rowMatches R hs adv r \<and> getField r target \<noteq> nv) rows)))
   \<and> (fetchText E (actualFilePath selected fp sr) = Inr csv \<and> papaParse E csv = ([], rows)
        \<and> invalidFields ops (fileHeaders R rows) = [] \<longrightarrow>
      (let cs = selectedChanges (\<lambda>jr. int (fst jr) \<in> rowsToReplace sr) ops;
           after = replayFile E R selected ops (fp, sr) st
       in totalReplacements (stats after) =
            totalReplacements (stats st) + recordCount cs (numbered rows)
          \<and> filter isRowProcessed (events after) =
              filter isRowProcessed (events st) @
              rowEventsFor (sr_filename sr) fp (length rows) cs (numbered rows)))
   \<and> (\<forall>c \<in> set (changeRecords ws r). oldValue c \<noteq> newValue c)
   \<and> (\<forall>f. (\<exists>c \<in> set (changeRecords ws r). ch_field c = f) \<longleftrightarrow>
            (\<exists>w \<in> set ws. op_field w = f \<and> op_value w \<noteq> getField r f))
   \<and> changeRecords [w] r =
       (if op_value w \<noteq> getField r (op_field w)
        then [\<lparr>ch_field = op_field w, oldValue = getField r (op_field w), newValue = op_value w\<rparr>]
        else [])"
proof -
  have s: "acquire E fd = Inr csv \<and> papaParse E csv = ([], rows) \<and> compileSearch R req = Inr test
      \<and> simpleIsReplaceMode req \<longrightarrow>
      (let hs = fileHeaders R rows;
           cs = selectedChanges (\<lambda>jr. rowMatchedSimple test hs (snd jr))
                  (sameValueOps (orEmpty (replaceTerm req)) (replaceFieldsOf req hs));
           after = processFileSimple E R req fd st
       in totalReplacements (stats after) =
            totalReplacements (stats st) + recordCount cs (numbered rows)
          \<and> filter isRowProcessed (events after) =
              filter isRowProcessed (events st) @
              rowEventsFor (file_name fd) (file_path fd) (length rows) cs (numbered rows))"
    unfolding Let_def
    using processFileSimple_changes [of E fd csv rows R req test st] by blast
  have a: "acquire E fd = Inr csv \<and> papaParse E csv = ([], rows) \<and> matchersCompile R adv
        \<and> advancedIsReplaceMode req
        \<and> orEmpty (replaceTargetField req) \<in> set (fileHeaders R rows) \<longrightarrow>
      (let hs = fileHeaders R rows;
           target = orEmpty (replaceTargetField req);
           nv = orEmpty (replaceValue req);
           cs = selectedChanges (\<lambda>jr. rowMatches R hs adv (snd jr))
                  [\<lparr>op_field = target, op_value = nv\<rparr>];
           after = processFileAdvanced E R req adv fd st
       in totalReplacements (stats after) =
            totalReplacements (stats st) + recordCount cs (numbered rows)
          \<and> filter isRowProcessed (events after) =
              filter isRowProcessed (events st) @
              rowEventsFor (file_name fd) (file_path fd) (length rows) cs (numbered rows)
          \<and> totalReplacements (stats after) =
              totalReplacements (stats st) +
              length (filter (\<lambda>r. rowMatches R hs adv r \<and> getField r target \<noteq> nv) rows))"
  proof
    assume h: "acquire E fd = Inr csv \<and> papaParse E csv = ([], rows) \<and> matchersCompile R adv
        \<and> advancedIsReplaceMode req
        \<and> orEmpty (replaceTargetField req) \<in> set (fileHeaders R rows)"
    note ch = processFileAdvanced_changes [of E fd csv rows R adv req st]
    have n: "recordCount (selectedChanges (\<lambda>jr. rowMatches R (fileHeaders R rows) adv (snd jr))
                [\<lparr>op_field = orEmpty (replaceTargetField req), op_value = orEmpty (replaceValue req)\<rparr>])
              (numbered rows) =
             length (filter (\<lambda>r. rowMatches R (fileHeaders R rows) adv r
                       \<and> getField r (orEmpty (replaceTargetField req)) \<noteq> orEmpty (replaceValue req)) rows)"
      using recordCount_single_write [of "rowMatches R (fileHeaders R rows) adv"
          "\<lparr>op_field = orEmpty (replaceTargetField req), op_value = orEmpty (replaceValue req)\<rparr>" 0 rows]
      by (simp add: numbered_def)
    show "let hs = fileHeaders R rows;
           target = orEmpty (replaceTargetField req);
           nv = orEmpty (replaceValue req);
           cs = selectedChanges (\<lambda>jr. rowMatches R hs adv (snd jr))
                  [\<lparr>op_field = target, op_value = nv\<rparr>];
           after = processFileAdvanced E R req adv fd st
       in totalReplacements (stats after) =
            totalReplacements (stats st) + recordCount cs (numbered rows)
          \<and> filter isRowProcessed (events after) =
              filter isRowProcessed (events st) @
              rowEventsFor (file_name fd) (file_path fd) (length rows) cs (numbered rows)
          \<and> totalReplacements (stats after) =
              totalReplacements (stats st) +
              length (filter (\<lambda>r. rowMatches R hs adv r \<and> getField r target \<noteq> nv) rows)"
      unfolding Let_def using h ch n by simp
  qed
  have p: "fetchText E (actualFilePath selected fp sr) = Inr csv \<and> papaParse E csv = ([], rows)
        \<and> invalidFields ops (fileHeaders R rows) = [] \<longrightarrow>
      (let cs = selectedChanges (\<lambda>jr. int (fst jr) \<in> rowsToReplace sr) ops;
           after = replayFile E R selected ops (fp, sr) st
       in totalReplacements (stats after) =
            totalReplacements (stats st) + recordCount cs (numbered rows)
          \<and> filter isRowProcessed (events after) =
              filter isRowProcessed (events st) @
              rowEventsFor (sr_filename sr) fp (length rows) cs (numbered rows))"
    unfolding Let_def
    using replayFile_changes [of E selected fp sr csv rows ops R st] by blast
  have d: "\<forall>c \<in> set (changeRecords ws r). oldValue c \<noteq> newValue c"
    using changeRecords_differ by blast
  have e: "\<forall>f. (\<exists>c \<in> set (changeRecords ws r). ch_field c = f) \<longleftrightarrow>
            (\<exists>w \<in> set ws. op_field w = f \<and> op_value w \<noteq> getField r f)"
    using changeRecords_iff by blast
  note g = changeRecords_single [of w r]
  from s a p d e g show ?thesis by (intro conjI)
qed


lemma compile_stateReplaceRequest:
  "compileSearch asciiRuntime stateReplaceRequest =
     Inr (\<lambda>s. sublist (map asciiLower ''NY'') (map asciiLower s))"
  by (simp add: compileSearch_def searchPattern_def searchFlags_def stateReplaceRequest_def
      simpleRequest_def orFalse_def orEmpty_def asciiRuntime_def literalRegExp_def regexSpecial_def
      backslash_def lowerLetters_def upperLetters_def digits_def)

theorem C7_replacements_counted_iff_changed_witness:
  "simpleIsReplaceMode stateReplaceRequest
   \<and> totalReplacements (stats (processFileSimple demoCollab asciiRuntime stateReplaceRequest
        citiesFile (initialState 1))) = 1
   \<and> filter isRowProcessed (events (processFileSimple demoCollab asciiRuntime stateReplaceRequest
        citiesFile (initialState 1))) =
       [RowProcessed ''cities.csv'' ''/app/tmp/1_cities.csv'' 3 3
          [\<lparr>ch_field = ''state'', oldValue = ''ny'', newValue = ''NY''\<rparr>]]
   \<and> advancedIsReplaceMode onlyMatchesRequest
   \<and> totalReplacements (stats (processFileAdvanced demoCollab asciiRuntime onlyMatchesRequest
        stateEqualsNY citiesFile (initialState 1))) = 1
   \<and> filter isRowProcessed (events (processFileAdvanced demoCollab asciiRuntime onlyMatchesRequest
        stateEqualsNY citiesFile (initialState 1))) =
       [RowProcessed ''cities.csv'' ''/app/tmp/1_cities.csv'' 3 3
          [\<lparr>ch_field = ''state'', oldValue = ''ny'', newValue = ''NY''\<rparr>]]
   \<and> advancedIsReplaceMode advancedRequest
   \<and> totalReplacements (stats (processFileAdvanced demoCollab asciiRuntime advancedRequest
        stateEqualsNY citiesFile (initialState 1))) = 2
   \<and> invalidFields stateToNY (fileHeaders asciiRuntime citiesRows) = []
   \<and> totalReplacements (stats (replayFile demoCollab asciiRuntime [citiesFile] stateToNY
        (citiesPath, citiesResult) (initialState 1))) = 1
   \<and> filter isRowProcessed (events (replayFile demoCollab asciiRuntime [citiesFile] stateToNY
        (citiesPath, citiesResult) (initialState 1))) =
       [RowProcessed ''cities.csv'' ''/app/tmp/1_cities.csv'' 3 3
          [\<lparr>ch_field = ''state'', oldValue = ''ny'', newValue = ''NY''\<rparr>]]"
proof -
  let ?test = "\<lambda>s. sublist (map asciiLower ''NY'') (map asciiLower s)"
  let ?hs = "fileHeaders asciiRuntime citiesRows"
  let ?csS = "selectedChanges (\<lambda>jr. rowMatchedSimple ?test ?hs (snd jr))
                (sameValueOps (orEmpty (replaceTerm stateReplaceRequest))
                   (replaceFieldsOf stateReplaceRequest ?hs))"
  let ?csA = "selectedChanges (\<lambda>jr. rowMatches asciiRuntime ?hs stateEqualsNY (snd jr))
                [\<lparr>op_field = orEmpty (replaceTargetField onlyMatchesRequest),
                  op_value = orEmpty (replaceValue onlyMatchesRequest)\<rparr>]"
  let ?csR = "selectedChanges (\<lambda>jr. int (fst jr) \<in> rowsToReplace citiesResult) stateToNY"
  let ?ev = "[RowProcessed ''cities.csv'' ''/app/tmp/1_cities.csv'' 3 3
               [\<lparr>ch_field = ''state'', oldValue = ''ny'', newValue = ''NY''\<rparr>]]"
  have hS: "simpleIsReplaceMode stateReplaceRequest"
    by (simp add: simpleIsReplaceMode_def stateReplaceRequest_def simpleRequest_def)
  have hA: "advancedIsReplaceMode onlyMatchesRequest"
    by (simp add: advancedIsReplaceMode_def onlyMatchesRequest_def advancedRequest_def truthy_def)
  have hT: "orEmpty (replaceTargetField onlyMatchesRequest) \<in> set ?hs"
    by (simp add: fileHeaders_cities onlyMatchesRequest_def advancedRequest_def orEmpty_def)
  have hR: "invalidFields stateToNY ?hs = []"
    by (simp add: fileHeaders_cities invalidFields_def stateToNY_def)
  have nS: "recordCount ?csS (numbered citiesRows) = 1" by code_simp
  have nA: "recordCount ?csA (numbered citiesRows) = 1" by code_simp
  have nR: "recordCount ?csR (numbered citiesRows) = 1" by code_simp
  have eS: "rowEventsFor (file_name citiesFile) (file_path citiesFile) (length citiesRows) ?csS
              (numbered citiesRows) = ?ev" by code_simp
  have eA: "rowEventsFor (file_name citiesFile) (file_path citiesFile) (length citiesRows) ?csA
              (numbered citiesRows) = ?ev" by code_simp
  have eR: "rowEventsFor (sr_filename citiesResult) citiesPath (length citiesRows) ?csR
              (numbered citiesRows) = ?ev" by code_simp
  have z: "totalReplacements (stats (initialState 1)) = 0" "events (initialState 1) = []"
    by (simp_all add: initialState_def initialStats_def)
  note inst = C7_replacements_counted_iff_changed [where E = demoCollab and R = asciiRuntime
      and fd = citiesFile and csv = citiesCsv and rows = citiesRows and st = "initialState 1"
      and selected = "[citiesFile]" and fp = citiesPath and sr = citiesResult and ops = stateToNY
      and adv = stateEqualsNY, unfolded Let_def]
  have s0: "totalReplacements (stats (processFileSimple demoCollab asciiRuntime stateReplaceRequest
        citiesFile (initialState 1))) =
        totalReplacements (stats (initialState 1)) + recordCount ?csS (numbered citiesRows)
     \<and> filter isRowProcessed (events (processFileSimple demoCollab asciiRuntime stateReplaceRequest
        citiesFile (initialState 1))) =
        filter isRowProcessed (events (initialState 1)) @
        rowEventsFor (file_name citiesFile) (file_path citiesFile) (length citiesRows) ?csS
          (numbered citiesRows)"
    using inst [where req = stateReplaceRequest and test = ?test]
      acquire_cities parse_cities compile_stateReplaceRequest hS
    by blast
  have s: "totalReplacements (stats (processFileSimple demoCollab asciiRuntime stateReplaceRequest
        citiesFile (initialState 1))) = 1
     \<and> filter isRowProcessed (events (processFileSimple demoCollab asciiRuntime stateReplaceRequest
        citiesFile (initialState 1))) = ?ev"
    using s0 by (simp only: nS eS z) simp
  have a0: "totalReplacements (stats (processFileAdvanced demoCollab asciiRuntime onlyMatchesRequest
        stateEqualsNY citiesFile (initialState 1))) =
        totalReplacements (stats (initialState 1)) + recordCount ?csA (numbered citiesRows)
     \<and> filter isRowProcessed (events (processFileAdvanced demoCollab asciiRuntime onlyMatchesRequest
        stateEqualsNY citiesFile (initialState 1))) =
        filter isRowProcessed (events (initialState 1)) @
        rowEventsFor (file_name citiesFile) (file_path citiesFile) (length citiesRows) ?csA
          (numbered citiesRows)"
    using inst [where req = onlyMatchesRequest]
      acquire_cities parse_cities matchersCompile_stateEqualsNY hA hT
    by blast
  have a: "totalReplacements (stats (processFileAdvanced demoCollab asciiRuntime onlyMatchesRequest
        stateEqualsNY citiesFile (initialState 1))) = 1
     \<and> filter isRowProcessed (events (processFileAdvanced demoCollab asciiRuntime onlyMatchesRequest
        stateEqualsNY citiesFile (initialState 1))) = ?ev"
    using a0 by (simp only: nA eA z) simp
  have p0: "totalReplacements (stats (replayFile demoCollab asciiRuntime [citiesFile] stateToNY
        (citiesPath, citiesResult) (initialState 1))) =
        totalReplacements (stats (initialState 1)) + recordCount ?csR (numbered citiesRows)
     \<and> filter isRowProcessed (events (replayFile demoCollab asciiRuntime [citiesFile] stateToNY
        (citiesPath, citiesResult) (initialState 1))) =
        filter isRowProcessed (events (initialState 1)) @
        rowEventsFor (sr_filename citiesResult) citiesPath (length citiesRows) ?csR
          (numbered citiesRows)"
    using inst [where req = stateReplaceRequest] fetch_cities parse_cities hR
    by blast
  have p: "totalReplacements (stats (replayFile demoCollab asciiRuntime [citiesFile] stateToNY
        (citiesPath, citiesResult) (initialState 1))) = 1
     \<and> filter isRowProcessed (events (replayFile demoCollab asciiRuntime [citiesFile] stateToNY
        (citiesPath, citiesResult) (initialState 1))) = ?ev"
    using p0 by (simp only: nR eR z) simp
  have hB: "advancedIsReplaceMode advancedRequest"
    by (simp add: advancedIsReplaceMode_def advancedRequest_def truthy_def)
  have hU: "orEmpty (replaceTargetField advancedRequest) \<in> set ?hs"
    by (simp add: fileHeaders_cities advancedRequest_def orEmpty_def)
  have nB: "length (filter (\<lambda>r. rowMatches asciiRuntime ?hs stateEqualsNY r
                      \<and> getField r (orEmpty (replaceTargetField advancedRequest))
                          \<noteq> orEmpty (replaceValue advancedRequest)) citiesRows) = 2"
    by code_simp
  have b0: "totalReplacements (stats (processFileAdvanced demoCollab asciiRuntime advancedRequest
        stateEqualsNY citiesFile (initialState 1))) =
        totalReplacements (stats (initialState 1)) +
        length (filter (\<lambda>r. rowMatches asciiRuntime ?hs stateEqualsNY r
                      \<and> getField r (orEmpty (replaceTargetField advancedRequest))
                          \<noteq> orEmpty (replaceValue advancedRequest)) citiesRows)"
    using inst [where req = advancedRequest]
      acquire_cities parse_cities matchersCompile_stateEqualsNY hB hU
    by blast
  have b: "totalReplacements (stats (processFileAdvanced demoCollab asciiRuntime advancedRequest
        stateEqualsNY citiesFile (initialState 1))) = 2"
    using b0 by (simp only: nB z)
  from s a b p hS hA hB hR show ?thesis by simp
qed

section \<open>The advanced scan without replacement\<close>

lemma attribution_Nil [simp]: "attribution r mf = [] \<longleftrightarrow> mf = []"
  by (simp add: attribution_def)

lemma advancedMatched_attributing:
  assumes "attributing req hs"
  shows "sc_replacements (advancedMatched req file hs n i r mf sc) = sc_replacements sc"
    and "totalReplacements (sc_stats (advancedMatched req file hs n i r mf sc)) = totalReplacements (sc_stats sc)"
    and "filter isRowProcessed (sc_events (advancedMatched req file hs n i r mf sc)) =
           filter isRowProcessed (sc_events sc) @
           (if mf \<noteq> [] then [RowProcessed (file_name file) (file_path file) (i + 1) n (attribution r mf)]
            else [])"
    and "filter isError (sc_events (advancedMatched req file hs n i r mf sc)) = filter isError (sc_events sc)"
    and "sc_rows (advancedMatched req file hs n i r mf sc) =
           sc_rows sc @ (if \<not> showOnlyMatches req \<or> mf \<noteq> [] then [r] else [])"
  using assms
  by (auto simp: advancedMatched_def attributing_def Let_def rowProcessed_def statsTick_events)

lemma advancedStep_attributing:
  assumes "attributing req hs"
  shows "sc_replacements (advancedStep R req adv file hs n i r sc) = sc_replacements sc"
    and "totalReplacements (sc_stats (advancedStep R req adv file hs n i r sc)) = totalReplacements (sc_stats sc)"
    and "filter isRowProcessed (sc_events (advancedStep R req adv file hs n i r sc)) =
           filter isRowProcessed (sc_events sc) @ attributedEvents R adv file hs n (i, r)"
    and "filter isError (sc_events (advancedStep R req adv file hs n i r sc)) = filter isError (sc_events sc)"
    and "set (sc_rows (advancedStep R req adv file hs n i r sc)) \<subseteq> set (sc_rows sc) \<union> {r}"
  using assms
  by (auto simp: advancedStep_def advancedMatched_attributing attributedEvents_def statsTick_events
      split: if_splits)

lemma advancedStep_events_extend:
  "\<exists>new. sc_events (advancedStep R req adv file hs n i r sc) = sc_events sc @ new"
  by (auto simp: advancedStep_def advancedMatched_def Let_def rowProcessed_def statsTick_def
      split: prod.splits)

lemma simpleRow_events_extend:
  "\<exists>new. sc_events (simpleRow req re file hs rf n i r sc) = sc_events sc @ new"
  by (auto simp: simpleRow_def Let_def rowProcessed_def statsTick_def replaceInFields_eq
      applyOperations_eq split: prod.splits)

lemma scanRows_events_extend:
  assumes "\<And>i r s. \<exists>new. sc_events (step i r s) = sc_events s @ new"
  shows "\<exists>new. sc_events (scanRows step i rows sc) = sc_events sc @ new"
proof (induction rows arbitrary: i sc)
  case Nil then show ?case by simp
next
  case (Cons r rs)
  obtain new1 where n1: "sc_events (step i r sc) = sc_events sc @ new1"
    using assms by blast
  obtain new2 where "sc_events (scanRows step (Suc i) rs (step i r sc)) = sc_events (step i r sc) @ new2"
    using Cons.IH by blast
  then show ?case using n1 by simp
qed

lemma advanced_scan_attributing:
  assumes "attributing req hs"
  shows "sc_replacements (scanRows (advancedStep R req adv file hs n) i rows sc) = sc_replacements sc"
    and "totalReplacements (sc_stats (scanRows (advancedStep R req adv file hs n) i rows sc))
           = totalReplacements (sc_stats sc)"
    and "filter isError (sc_events (scanRows (advancedStep R req adv file hs n) i rows sc))
           = filter isError (sc_events sc)"
    and "set (sc_rows (scanRows (advancedStep R req adv file hs n) i rows sc)) \<subseteq> set (sc_rows sc) \<union> set rows"
proof -
  show "sc_replacements (scanRows (advancedStep R req adv file hs n) i rows sc) = sc_replacements sc"
    by (rule scanRows_invariant [where P = "\<lambda>s. sc_replacements s = sc_replacements sc"])
       (simp_all add: advancedStep_attributing(1) [OF assms])
  show "totalReplacements (sc_stats (scanRows (advancedStep R req adv file hs n) i rows sc))
           = totalReplacements (sc_stats sc)"
    by (rule scanRows_invariant [where P = "\<lambda>s. totalReplacements (sc_stats s) = totalReplacements (sc_stats sc)"])
       (simp_all add: advancedStep_attributing(2) [OF assms])
  show "filter isError (sc_events (scanRows (advancedStep R req adv file hs n) i rows sc))
           = filter isError (sc_events sc)"
    by (rule scanRows_invariant [where P = "\<lambda>s. filter isError (sc_events s) = filter isError (sc_events sc)"])
       (simp_all add: advancedStep_attributing(4) [OF assms])
  show "set (sc_rows (scanRows (advancedStep R req adv file hs n) i rows sc)) \<subseteq> set (sc_rows sc) \<union> set rows"
  proof (rule scanRows_invariant [where P = "\<lambda>s. set (sc_rows s) \<subseteq> set (sc_rows sc) \<union> set rows"])
    show "set (sc_rows sc) \<subseteq> set (sc_rows sc) \<union> set rows" by simp
  next
    fix i r and s :: scan
    assume "r \<in> set rows" "set (sc_rows s) \<subseteq> set (sc_rows sc) \<union> set rows"
    then show "set (sc_rows (advancedStep R req adv file hs n i r s)) \<subseteq> set (sc_rows sc) \<union> set rows"
      using advancedStep_attributing(5) [OF assms, of R adv "file" n i r s] by blast
  qed
qed


lemma emitted_filter:
  "after = before @ new \<Longrightarrow> filter P (emitted before after) = emitted (filter P before) (filter P after)"
  by (simp add: emitted_def)

lemma getDownloadUrl_nonempty: "getDownloadUrl E p \<noteq> []"
  by (simp add: getDownloadUrl_def Let_def)

lemma hasOutput_getDownloadUrl [simp]:
  "hasOutput \<lparr>originalPath = a, newPath = Some (getDownloadUrl E p)\<rparr>"
  by (simp add: hasOutput_def getDownloadUrl_nonempty)


section \<open>A target field that is not a header\<close>

lemma advanced_scan_events_extend:
  "\<exists>new. sc_events (scanRows (advancedStep R req adv file hs n) i rows sc) = sc_events sc @ new"
  by (rule scanRows_events_extend) (rule advancedStep_events_extend)


lemma advanced_scan_new_errors:
  assumes "attributing req hs"
  shows "filter isError
     (emitted (sc_events sc) (sc_events (scanRows (advancedStep R req adv file hs n) i rows sc))) = []"
proof -
  obtain new where n: "sc_events (scanRows (advancedStep R req adv file hs n) i rows sc) = sc_events sc @ new"
    using advanced_scan_events_extend by blast
  have "filter isError (sc_events sc @ new) = filter isError (sc_events sc)"
    using advanced_scan_attributing(3) [OF assms, of R adv "file" n i rows sc] n by simp
  then show ?thesis using n by simp
qed







section \<open>An operation on a field that is not a header\<close>

lemma advancedMatched_rows_headers:
  "r1 \<in> set (emitted (sc_rows sc) (sc_rows (advancedMatched req fd hs n i r mf sc))) \<Longrightarrow>
   f \<notin> set hs \<Longrightarrow> map_of r1 f = map_of r f"
  by (auto simp: advancedMatched_def Let_def emitted_def map_of_setField split: if_splits)

lemma applyOperations_headers:
  assumes "applyOperations hs ops (r, [], sc) = (r2, cs, sc2)"
  shows "f \<notin> set hs \<Longrightarrow> map_of r2 f = map_of r f"
    and "c \<in> set cs \<Longrightarrow> ch_field c \<in> set hs"
proof -
  from assms have r2: "r2 = appliedRow hs ops r" and cs: "cs = appliedChanges hs ops r"
    by (auto simp: applyOperations_eq)
  show "map_of r2 f = map_of r f" if "f \<notin> set hs"
    using that r2 by (simp add: getField_appliedRow_nothdr)
  show "ch_field c \<in> set hs" if "c \<in> set cs"
    using that cs appliedChanges_differ by blast
qed

lemma missing_target_attributing:
  "orEmpty (replaceTargetField req) \<notin> set hs \<Longrightarrow> attributing req hs"
  by (simp add: attributing_def)

lemma finishBatch_last:
  "\<exists>a b c d. last (events (finishBatch E w st)) = Complete a b c d"
  by (auto simp: finishBatch_def split: prod.splits)

text \<open>
  Claim C8, as amended.  Only fields of the header set are written, in both
  multi-operation paths: the loop over the operations leaves every field outside the
  header set as it was and records changes only for headers, and so does the matched
  branch of the advanced loop.  In the advanced path a target field that is not a
  header is skipped silently for that file: the scan raises nothing, emits no error
  event, retains only unmodified rows and counts no replacement.  In the replay path
  an operation naming a field that is not a header is not skipped: the file is
  aborted with an error event before any row is scanned, nothing is written for it,
  and the batch goes on with the remaining files and ends with its \<^verbatim>\<open>complete\<close> event.
\<close>

theorem C8_absent_field_by_path:
  "(applyOperations hs ops (r, [], sc) = (r2, cs, sc2) \<longrightarrow>
      (\<forall>f. f \<notin> set hs \<longrightarrow> map_of r2 f = map_of r f)
      \<and> (\<forall>c \<in> set cs. ch_field c \<in> set hs))
   \<and> (\<forall>r1 \<in> set (emitted (sc_rows sc) (sc_rows (advancedMatched req fd hs n i r mf sc))).
        \<forall>f. f \<notin> set hs \<longrightarrow> map_of r1 f = map_of r f)
   \<and> (orEmpty (replaceTargetField req) \<notin> set hs \<and> matchersCompile R adv \<longrightarrow>
        fst (scanRowsThrowing (advancedRow R req adv fd hs n) 0 rows sc) = None
        \<and> filter isError (emitted (sc_events sc)
             (sc_events (snd (scanRowsThrowing (advancedRow R req adv fd hs n) 0 rows sc)))) = []
        \<and> set (sc_rows (snd (scanRowsThrowing (advancedRow R req adv fd hs n) 0 rows sc)))
             \<subseteq> set (sc_rows sc) \<union> set rows
        \<and> totalReplacements (sc_stats (snd (scanRowsThrowing (advancedRow R req adv fd hs n) 0 rows sc)))
             = totalReplacements (sc_stats sc))
   \<and> (fetchText E (actualFilePath selected fp sr) = Inr csv \<and> papaParse E csv = ([], rows)
        \<and> invalidFields ops (fileHeaders R rows) \<noteq> [] \<longrightarrow>
        emitted (events st) (events (replayFile E R selected ops (fp, sr) st)) =
          [FileStart (sr_filename sr) fp,
           fieldsNotFoundEvent (sr_filename sr) (invalidFields ops (fileHeaders R rows))]
        \<and> saved (replayFile E R selected ops (fp, sr) st) = saved st
        \<and> outputFiles (replayFile E R selected ops (fp, sr) st) = outputFiles st
        \<and> processedRows (stats (replayFile E R selected ops (fp, sr) st)) = processedRows (stats st)
        \<and> fold (replayFile E R selected ops) ((fp, sr) # others) st =
            fold (replayFile E R selected ops) others (replayFile E R selected ops (fp, sr) st)
        \<and> (\<exists>a b c d. last (events (finishBatch E False
               (fold (replayFile E R selected ops) ((fp, sr) # others) st))) = Complete a b c d))"
proof -
  have a: "applyOperations hs ops (r, [], sc) = (r2, cs, sc2) \<longrightarrow>
      (\<forall>f. f \<notin> set hs \<longrightarrow> map_of r2 f = map_of r f)
      \<and> (\<forall>c \<in> set cs. ch_field c \<in> set hs)"
    using applyOperations_headers [of hs ops r sc r2 cs sc2] by blast
  have b: "\<forall>r1 \<in> set (emitted (sc_rows sc) (sc_rows (advancedMatched req fd hs n i r mf sc))).
        \<forall>f. f \<notin> set hs \<longrightarrow> map_of r1 f = map_of r f"
    using advancedMatched_rows_headers by blast
  have c: "orEmpty (replaceTargetField req) \<notin> set hs \<and> matchersCompile R adv \<longrightarrow>
        fst (scanRowsThrowing (advancedRow R req adv fd hs n) 0 rows sc) = None
        \<and> filter isError (emitted (sc_events sc)
             (sc_events (snd (scanRowsThrowing (advancedRow R req adv fd hs n) 0 rows sc)))) = []
        \<and> set (sc_rows (snd (scanRowsThrowing (advancedRow R req adv fd hs n) 0 rows sc)))
             \<subseteq> set (sc_rows sc) \<union> set rows
        \<and> totalReplacements (sc_stats (snd (scanRowsThrowing (advancedRow R req adv fd hs n) 0 rows sc)))
             = totalReplacements (sc_stats sc)"
  proof (intro impI)
    assume h: "orEmpty (replaceTargetField req) \<notin> set hs \<and> matchersCompile R adv"
    then have att: "attributing req hs" by (simp add: missing_target_attributing)
    from h have sc: "scanRowsThrowing (advancedRow R req adv fd hs n) 0 rows sc =
        (None, scanRows (advancedStep R req adv fd hs n) 0 rows sc)"
      by (simp add: advanced_scan_compiled)
    show "fst (scanRowsThrowing (advancedRow R req adv fd hs n) 0 rows sc) = None
        \<and> filter isError (emitted (sc_events sc)
             (sc_events (snd (scanRowsThrowing (advancedRow R req adv fd hs n) 0 rows sc)))) = []
        \<and> set (sc_rows (snd (scanRowsThrowing (advancedRow R req adv fd hs n) 0 rows sc)))
             \<subseteq> set (sc_rows sc) \<union> set rows
        \<and> totalReplacements (sc_stats (snd (scanRowsThrowing (advancedRow R req adv fd hs n) 0 rows sc)))
             = totalReplacements (sc_stats sc)"
      using advanced_scan_new_errors [OF att, of sc R adv fd n 0 rows]
        advanced_scan_attributing(2,4) [OF att, of R adv fd n 0 rows sc]
      by (simp add: sc)
  qed
  have d: "fetchText E (actualFilePath selected fp sr) = Inr csv \<and> papaParse E csv = ([], rows)
        \<and> invalidFields ops (fileHeaders R rows) \<noteq> [] \<longrightarrow>
        emitted (events st) (events (replayFile E R selected ops (fp, sr) st)) =
          [FileStart (sr_filename sr) fp,
           fieldsNotFoundEvent (sr_filename sr) (invalidFields ops (fileHeaders R rows))]
        \<and> saved (replayFile E R selected ops (fp, sr) st) = saved st
        \<and> outputFiles (replayFile E R selected ops (fp, sr) st) = outputFiles st
        \<and> processedRows (stats (replayFile E R selected ops (fp, sr) st)) = processedRows (stats st)
        \<and> fold (replayFile E R selected ops) ((fp, sr) # others) st =
            fold (replayFile E R selected ops) others (replayFile E R selected ops (fp, sr) st)
        \<and> (\<exists>a b c d. last (events (finishBatch E False
               (fold (replayFile E R selected ops) ((fp, sr) # others) st))) = Complete a b c d)"
  proof (intro impI)
    assume h: "fetchText E (actualFilePath selected fp sr) = Inr csv \<and> papaParse E csv = ([], rows)
        \<and> invalidFields ops (fileHeaders R rows) \<noteq> []"
    then have eq: "replayFile E R selected ops (fp, sr) st =
     sendEvent (fieldsNotFoundEvent (sr_filename sr) (invalidFields ops (fileHeaders R rows)))
       (sendEvent (FileStart (sr_filename sr) fp)
          (st\<lparr>stats := (stats st)\<lparr>currentFile := Some (sr_filename sr),
                                    totalRows := totalRows (stats st) + length rows\<rparr>\<rparr>))"
      using replayFile_missing_field by blast
    show "emitted (events st) (events (replayFile E R selected ops (fp, sr) st)) =
          [FileStart (sr_filename sr) fp,
           fieldsNotFoundEvent (sr_filename sr) (invalidFields ops (fileHeaders R rows))]
        \<and> saved (replayFile E R selected ops (fp, sr) st) = saved st
        \<and> outputFiles (replayFile E R selected ops (fp, sr) st) = outputFiles st
        \<and> processedRows (stats (replayFile E R selected ops (fp, sr) st)) = processedRows (stats st)
        \<and> fold (replayFile E R selected ops) ((fp, sr) # others) st =
            fold (replayFile E R selected ops) others (replayFile E R selected ops (fp, sr) st)
        \<and> (\<exists>a b c d. last (events (finishBatch E False
               (fold (replayFile E R selected ops) ((fp, sr) # others) st))) = Complete a b c d)"
      using finishBatch_last [of E False "fold (replayFile E R selected ops) ((fp, sr) # others) st"]
      by (simp add: eq emitted_def)
  qed
  from a b c d show ?thesis by blast
qed

theorem C8_absent_field_by_path_witness:
  "fetchText demoCollab (actualFilePath [citiesFile] citiesPath citiesResult) = Inr citiesCsv
   \<and> papaParse demoCollab citiesCsv = ([], citiesRows)
   \<and> invalidFields closeStatus (fileHeaders asciiRuntime citiesRows) \<noteq> []
   \<and> saved (replayFile demoCollab asciiRuntime [citiesFile] closeStatus (citiesPath, citiesResult)
        (initialState 1)) = []
   \<and> orEmpty (replaceTargetField statusAdvancedRequest) \<notin> set [''name'', ''state'']
   \<and> matchersCompile asciiRuntime stateEqualsNY
   \<and> fst (scanRowsThrowing (advancedRow asciiRuntime statusAdvancedRequest stateEqualsNY citiesFile
              [''name'', ''state''] 3) 0 citiesRows (startScan (initialState 1))) = None"
proof -
  have h3: "invalidFields closeStatus (fileHeaders asciiRuntime citiesRows) \<noteq> []"
    by (simp add: fileHeaders_cities invalidFields_def closeStatus_def)
  have h4: "orEmpty (replaceTargetField statusAdvancedRequest) \<notin> set [''name'', ''state'']"
    by (simp add: statusAdvancedRequest_def advancedRequest_def orEmpty_def)
  note t = C8_absent_field_by_path [where E = demoCollab and selected = "[citiesFile]"
      and fp = citiesPath and sr = citiesResult and csv = citiesCsv and rows = citiesRows
      and ops = closeStatus and R = asciiRuntime and st = "initialState 1"
      and req = statusAdvancedRequest and hs = "[''name'', ''state'']" and adv = stateEqualsNY
      and fd = citiesFile and n = 3 and sc = "startScan (initialState 1)"]
  from t fetch_cities parse_cities h3
  have "saved (replayFile demoCollab asciiRuntime [citiesFile] closeStatus (citiesPath, citiesResult)
        (initialState 1)) = saved (initialState 1)"
    by blast
  then have a: "saved (replayFile demoCollab asciiRuntime [citiesFile] closeStatus (citiesPath, citiesResult)
        (initialState 1)) = []"
    by (simp add: initialState_def)
  from t h4 matchersCompile_stateEqualsNY
  have b: "fst (scanRowsThrowing (advancedRow asciiRuntime statusAdvancedRequest stateEqualsNY citiesFile
              [''name'', ''state''] 3) 0 citiesRows (startScan (initialState 1))) = None"
    by blast
  from fetch_cities parse_cities h3 h4 matchersCompile_stateEqualsNY a b show ?thesis by simp
qed

text \<open>
  The claim as it stands fails on the replay route: with an operation on the header
  \<open>state\<close> and one on the absent field \<open>status\<close>, the file is not processed with
  \<open>status\<close> skipped; it is aborted with an error, and \<open>state\<close> is not written either.
\<close>

theorem C8_counterexample:
  "events (replacePOST demoCollab asciiRuntime stateAndStatusRequest) =
     [FileStart ''cities.csv'' ''/app/tmp/1_cities.csv'',
      ErrorEvent (Some ''cities.csv'') ''Fields not found in CSV headers: status'',
      Complete None None False
        \<lparr>totalFiles = 1, processedFiles = 0, totalRows = 3, processedRows = 0, totalMatches = 0,
         totalReplacements = 0, currentFile = Some ''cities.csv'', currentFileRows = None,
         currentFileMatches = None\<rparr>]
   \<and> outputFiles (replacePOST demoCollab asciiRuntime stateAndStatusRequest) = []
   \<and> saved (replacePOST demoCollab asciiRuntime stateAndStatusRequest) = []"
  by code_simp

section \<open>Pure search\<close>

lemma noRewrite_simps [simp]:
  "noRewrite (FileStart a b)" "noRewrite (FileInfo a c d)" "noRewrite (Stats f)"
  "noRewrite (FileComplete a c d g) = (d = 0 \<and> g = None)" "noRewrite (ErrorEvent h b)"
  "noRewrite (Complete k g l f) = (g = None \<and> \<not> l)"
  "noRewrite (RowProcessed a b c d e) = list_all unchangedRecord e"
  by (simp_all add: noRewrite_def)

lemma attributeFields_unchanged: "list_all unchangedRecord (attributeFields re r fs)"
  by (induction fs) (simp_all add: Let_def unchangedRecord_def)

lemma attribution_all_unchanged: "list_all unchangedRecord (attribution r mf)"
  by (simp add: attribution_def list_all_iff unchangedRecord_def)

lemma searchOnlyScan_statsTick: "searchOnlyScan s \<Longrightarrow> searchOnlyScan (statsTick n i s)"
  by (simp add: searchOnlyScan_def statsTick_def)

lemma simpleRow_searchOnly:
  "\<not> simpleIsReplaceMode req \<Longrightarrow> searchOnlyScan s \<Longrightarrow>
   searchOnlyScan (simpleRow req re fd hs rf n i r s)"
  by (auto simp: simpleRow_def Let_def searchOnlyScan_def statsTick_def rowProcessed_def
      attributeFields_unchanged)

lemma simpleRow_rows_searchOnly:
  "\<not> simpleIsReplaceMode req \<Longrightarrow>
   set (sc_rows (simpleRow req re fd hs rf n i r s)) \<subseteq> set (sc_rows s) \<union> {r}"
  by (auto simp: simpleRow_def Let_def)

lemma advancedMatched_searchOnly:
  "\<not> advancedIsReplaceMode req \<Longrightarrow> searchOnlyScan s \<Longrightarrow>
   searchOnlyScan (advancedMatched req fd hs n i r mf s)"
  by (auto simp: advancedMatched_def Let_def searchOnlyScan_def statsTick_def rowProcessed_def
      attribution_all_unchanged)

lemma advancedRow_searchOnly:
  "\<not> advancedIsReplaceMode req \<Longrightarrow> searchOnlyScan s \<Longrightarrow>
   advancedRow R req adv fd hs n i r s = Inr s1 \<Longrightarrow> searchOnlyScan s1"
  by (auto simp: advancedRow_def advancedMatched_searchOnly searchOnlyScan_statsTick
      split: sum.splits prod.splits if_splits)
     (auto simp: searchOnlyScan_def statsTick_def)

lemma simple_scan_searchOnly:
  "\<not> simpleIsReplaceMode req \<Longrightarrow> searchOnlyScan sc \<Longrightarrow>
   searchOnlyScan (scanRows (simpleRow req re fd hs rf n) i rows sc)"
  by (rule scanRows_invariant [where P = searchOnlyScan]) (simp_all add: simpleRow_searchOnly)

lemma advanced_scan_searchOnly:
  "\<not> advancedIsReplaceMode req \<Longrightarrow> searchOnlyScan sc \<Longrightarrow>
   searchOnlyScan (snd (scanRowsThrowing (advancedRow R req adv fd hs n) i rows sc))"
  by (rule scanRowsThrowing_invariant [where P = searchOnlyScan])
     (simp_all add: advancedRow_searchOnly)

lemma searchOnly_startScan:
  "searchOnlyState st \<Longrightarrow> totalReplacements (stats st1) = totalReplacements (stats st) \<Longrightarrow>
   events st1 = events st @ new \<Longrightarrow> list_all noRewrite new \<Longrightarrow> searchOnlyScan (startScan st1)"
  by (simp add: searchOnlyState_def searchOnlyScan_def)

lemma processFileSimple_searchOnly:
  assumes "\<not> simpleIsReplaceMode req" and "searchOnlyState st"
  shows "searchOnlyState (processFileSimple E R req fd st)"
proof -
  have scan: "searchOnlyScan (scanRows (simpleRow req re fd hs rf n) 0 rows
      (startScan (sendEvent ev (noteRows k (beginFile a b st)))))" if "noRewrite ev" for re hs rf n rows ev k a b
    using assms that
    by (intro simple_scan_searchOnly) (simp_all add: searchOnlyState_def searchOnlyScan_def)
  show ?thesis
    using assms scan
    by (auto simp: processFileSimple_def Let_def searchOnlyState_def searchOnlyScan_def
        parseErrorEvent_def split: sum.splits prod.splits)
qed

lemma processFileAdvanced_searchOnly:
  assumes "\<not> advancedIsReplaceMode req" and "searchOnlyState st"
  shows "searchOnlyState (processFileAdvanced E R req adv fd st)"
proof -
  have scan: "searchOnlyScan (snd (scanRowsThrowing (advancedRow R req adv fd hs n) 0 rows
      (startScan (sendEvent ev (noteRows k (beginFile a b st))))))" if "noRewrite ev" for hs n rows ev k a b
    using assms that
    by (intro advanced_scan_searchOnly) (simp_all add: searchOnlyState_def searchOnlyScan_def)
  have scan2: "scanRowsThrowing (advancedRow R req adv fd hs n) 0 rows
      (startScan (sendEvent (FileInfo x y z) (noteRows k (beginFile a b st)))) = (u, sc) \<Longrightarrow>
      searchOnlyScan sc" for hs n rows x y z k a b u sc
    using scan [of "FileInfo x y z" hs n rows k a b] by simp
  show ?thesis
    using assms
    by (auto simp: processFileAdvanced_def Let_def searchOnlyState_def 
        parseErrorEvent_def split: sum.splits prod.splits option.splits dest!: scan2)
       (auto simp: searchOnlyScan_def)
qed

lemma fold_searchOnly:
  assumes "\<And>x s. searchOnlyState s \<Longrightarrow> searchOnlyState (f x s)" and "searchOnlyState st"
  shows "searchOnlyState (fold f xs st)"
  using assms by (induction xs arbitrary: st) auto

lemma finishBatch_searchOnly:
  assumes "searchOnlyState st"
  shows "finishBatch E w st =
           sendEvent (Complete (if w then Some (outputFiles st) else None) None False (stats st)) st"
proof -
  have "filter hasOutput (outputFiles st) = []"
    using assms by (auto simp: searchOnlyState_def filter_empty_conv hasOutput_def list_all_iff)
  then show ?thesis by (simp add: finishBatch_def bundleOutputs_def)
qed

lemma searchOnly_initial: "searchOnlyState (initialState n)"
  by (simp add: searchOnlyState_def initialState_def initialStats_def)

lemma searchOnly_sendEvent: "noRewrite ev \<Longrightarrow> searchOnlyState st \<Longrightarrow> searchOnlyState (sendEvent ev st)"
  by (simp add: searchOnlyState_def)

lemma finishBatch_searchOnlyState:
  "searchOnlyState st \<Longrightarrow> searchOnlyState (finishBatch E w st)"
  by (simp add: finishBatch_searchOnly searchOnly_sendEvent)

lemma processFilesSimple_searchOnly:
  assumes "\<not> simpleIsReplaceMode req" and "searchOnlyState st"
  shows "searchOnlyState (processFilesSimple E R req st)"
  using assms
  by (simp add: processFilesSimple_def searchOnly_sendEvent finishBatch_searchOnlyState
      fold_searchOnly processFileSimple_searchOnly)

lemma processFilesWithAdvancedSearch_searchOnly:
  assumes "\<not> advancedIsReplaceMode req" and "searchOnlyState st"
  shows "searchOnlyState (processFilesWithAdvancedSearch E R req adv st)"
  using assms
  by (simp add: processFilesWithAdvancedSearch_def finishBatch_searchOnlyState
      fold_searchOnly processFileAdvanced_searchOnly)

lemma processPOST_searchOnly:
  assumes "\<not> inReplaceMode req"
  shows "searchOnlyState (processPOST E R req)"
  using assms
  by (auto simp: processPOST_def inReplaceMode_def Let_def searchOnly_sendEvent searchOnly_initial
      processFilesSimple_searchOnly processFilesWithAdvancedSearch_searchOnly
      split: option.splits if_splits)

section \<open>Replace mode and pure search\<close>

lemma simple_scan_rows_searchOnly:
  assumes "\<not> simpleIsReplaceMode req"
  shows "set (sc_rows (scanRows (simpleRow req re fd hs rf n) i rows sc)) \<subseteq> set (sc_rows sc) \<union> set rows"
proof (rule scanRows_invariant [where P = "\<lambda>s. set (sc_rows s) \<subseteq> set (sc_rows sc) \<union> set rows"])
  show "set (sc_rows sc) \<subseteq> set (sc_rows sc) \<union> set rows" by simp
next
  fix i r and s :: scan
  assume "r \<in> set rows" "set (sc_rows s) \<subseteq> set (sc_rows sc) \<union> set rows"
  then show "set (sc_rows (simpleRow req re fd hs rf n i r s)) \<subseteq> set (sc_rows sc) \<union> set rows"
    using simpleRow_rows_searchOnly [OF assms, of re fd hs rf n i r s] by blast
qed

lemma advancedRow_rows_searchOnly:
  "\<not> advancedIsReplaceMode req \<Longrightarrow> advancedRow R req adv fd hs n i r s = Inr s1 \<Longrightarrow>
   set (sc_rows s1) \<subseteq> set (sc_rows s) \<union> {r}"
  by (auto simp: advancedRow_def advancedMatched_def Let_def split: sum.splits prod.splits if_splits)

lemma advanced_scan_rows_searchOnly:
  assumes "\<not> advancedIsReplaceMode req"
  shows "set (sc_rows (snd (scanRowsThrowing (advancedRow R req adv fd hs n) i rows sc)))
           \<subseteq> set (sc_rows sc) \<union> set rows"
proof (rule scanRowsThrowing_invariant [where P = "\<lambda>s. set (sc_rows s) \<subseteq> set (sc_rows sc) \<union> set rows"])
  show "set (sc_rows sc) \<subseteq> set (sc_rows sc) \<union> set rows" by simp
next
  fix i r and s s1 :: scan
  assume "r \<in> set rows" "set (sc_rows s) \<subseteq> set (sc_rows sc) \<union> set rows"
    "advancedRow R req adv fd hs n i r s = Inr s1"
  then show "set (sc_rows s1) \<subseteq> set (sc_rows sc) \<union> set rows"
    using advancedRow_rows_searchOnly [OF assms, of R adv fd hs n i r s s1] by blast
qed

lemma noRewrite_events:
  assumes "list_all noRewrite evs"
  shows "RowProcessed a b k m cs \<in> set evs \<Longrightarrow> \<forall>c \<in> set cs. oldValue c = newValue c"
    and "FileComplete a m k np \<in> set evs \<Longrightarrow> k = 0 \<and> np = None"
    and "Complete outs url z s \<in> set evs \<Longrightarrow> url = None \<and> \<not> z"
proof -
  show "\<forall>c \<in> set cs. oldValue c = newValue c" if "RowProcessed a b k m cs \<in> set evs"
    using assms that by (force simp: list_all_iff noRewrite_def unchangedRecord_def)
  show "k = 0 \<and> np = None" if "FileComplete a m k np \<in> set evs"
    using assms that by (force simp: list_all_iff noRewrite_def)
  show "url = None \<and> \<not> z" if "Complete outs url z s \<in> set evs"
    using assms that by (force simp: list_all_iff noRewrite_def)
qed

text \<open>
  Claim C6, as amended.  A request of the search route is in replace mode exactly when,
  in simple mode, \<^verbatim>\<open>replaceTerm\<close> is defined and not the empty string, and, in advanced
  mode, \<^verbatim>\<open>replaceTargetField\<close> is defined and not empty and \<^verbatim>\<open>replaceValue\<close> is defined.
  A request that is not in replace mode (in particular one with no replacement input)
  runs as pure search: no file is written, no archive is requested, every output
  record has a null \<^verbatim>\<open>newPath\<close>, nothing is counted as replaced, every change record
  has equal old and new value, every \<^verbatim>\<open>file-complete\<close> has a null \<^verbatim>\<open>newPath\<close> and the
  \<^verbatim>\<open>complete\<close> event has a null \<^verbatim>\<open>downloadUrl\<close>; and the rows a scan retains are parsed
  rows, unmodified.
\<close>

theorem C6_replace_mode_and_pure_search:
  "(simpleIsReplaceMode req \<longleftrightarrow> (\<exists>t. replaceTerm req = Some t \<and> t \<noteq> []))
   \<and> (advancedIsReplaceMode req \<longleftrightarrow>
        (\<exists>f v. replaceTargetField req = Some f \<and> f \<noteq> [] \<and> replaceValue req = Some v))
   \<and> (replaceTerm req = None \<and> replaceValue req = None \<longrightarrow> \<not> inReplaceMode req)
   \<and> (\<not> inReplaceMode req \<longrightarrow>
        saved (processPOST E R req) = [] \<and> zipRequests (processPOST E R req) = []
        \<and> list_all (\<lambda>f. newPath f = None) (outputFiles (processPOST E R req))
        \<and> totalReplacements (stats (processPOST E R req)) = 0
        \<and> (\<forall>a b k m cs. RowProcessed a b k m cs \<in> set (events (processPOST E R req)) \<longrightarrow>
              (\<forall>c \<in> set cs. oldValue c = newValue c))
        \<and> (\<forall>a m k np. FileComplete a m k np \<in> set (events (processPOST E R req)) \<longrightarrow>
              k = 0 \<and> np = None)
        \<and> (\<forall>outs url z s. Complete outs url z s \<in> set (events (processPOST E R req)) \<longrightarrow>
              url = None \<and> \<not> z))
   \<and> (\<not> simpleIsReplaceMode req \<longrightarrow>
        set (sc_rows (scanRows (simpleRow req re fd hs rf n) i rows sc)) \<subseteq> set (sc_rows sc) \<union> set rows)
   \<and> (\<not> advancedIsReplaceMode req \<longrightarrow>
        set (sc_rows (snd (scanRowsThrowing (advancedRow R req adv fd hs n) i rows sc)))
          \<subseteq> set (sc_rows sc) \<union> set rows)"
proof -
  have a: "simpleIsReplaceMode req \<longleftrightarrow> (\<exists>t. replaceTerm req = Some t \<and> t \<noteq> [])"
    by (cases "replaceTerm req") (auto simp: simpleIsReplaceMode_def)
  have b: "advancedIsReplaceMode req \<longleftrightarrow>
        (\<exists>f v. replaceTargetField req = Some f \<and> f \<noteq> [] \<and> replaceValue req = Some v)"
    by (cases "replaceTargetField req"; cases "replaceValue req")
       (auto simp: advancedIsReplaceMode_def truthy_def)
  have c: "replaceTerm req = None \<and> replaceValue req = None \<longrightarrow> \<not> inReplaceMode req"
    by (auto simp: inReplaceMode_def simpleIsReplaceMode_def advancedIsReplaceMode_def
        split: option.splits)
  have d: "\<not> inReplaceMode req \<longrightarrow>
        saved (processPOST E R req) = [] \<and> zipRequests (processPOST E R req) = []
        \<and> list_all (\<lambda>f. newPath f = None) (outputFiles (processPOST E R req))
        \<and> totalReplacements (stats (processPOST E R req)) = 0
        \<and> (\<forall>a b k m cs. RowProcessed a b k m cs \<in> set (events (processPOST E R req)) \<longrightarrow>
              (\<forall>c \<in> set cs. oldValue c = newValue c))
        \<and> (\<forall>a m k np. FileComplete a m k np \<in> set (events (processPOST E R req)) \<longrightarrow>
              k = 0 \<and> np = None)
        \<and> (\<forall>outs url z s. Complete outs url z s \<in> set (events (processPOST E R req)) \<longrightarrow>
              url = None \<and> \<not> z)"
  proof (intro impI)
    assume "\<not> inReplaceMode req"
    then have so: "searchOnlyState (processPOST E R req)" by (rule processPOST_searchOnly)
    then have ev: "list_all noRewrite (events (processPOST E R req))"
      by (simp add: searchOnlyState_def)
    show "saved (processPOST E R req) = [] \<and> zipRequests (processPOST E R req) = []
        \<and> list_all (\<lambda>f. newPath f = None) (outputFiles (processPOST E R req))
        \<and> totalReplacements (stats (processPOST E R req)) = 0
        \<and> (\<forall>a b k m cs. RowProcessed a b k m cs \<in> set (events (processPOST E R req)) \<longrightarrow>
              (\<forall>c \<in> set cs. oldValue c = newValue c))
        \<and> (\<forall>a m k np. FileComplete a m k np \<in> set (events (processPOST E R req)) \<longrightarrow>
              k = 0 \<and> np = None)
        \<and> (\<forall>outs url z s. Complete outs url z s \<in> set (events (processPOST E R req)) \<longrightarrow>
              url = None \<and> \<not> z)"
      using so noRewrite_events [OF ev] by (simp add: searchOnlyState_def) blast
  qed
  from a b c d simple_scan_rows_searchOnly [of req re fd hs rf n i rows sc]
    advanced_scan_rows_searchOnly [of req R adv fd hs n i rows sc]
  show ?thesis by blast
qed

theorem C6_replace_mode_and_pure_search_witness:
  "replaceTerm simpleRequest = None \<and> replaceValue simpleRequest = None
   \<and> saved (processPOST demoCollab asciiRuntime simpleRequest) = []
   \<and> totalReplacements (stats (processPOST demoCollab asciiRuntime simpleRequest)) = 0
   \<and> list_all (\<lambda>f. newPath f = None) (outputFiles (processPOST demoCollab asciiRuntime simpleRequest))"
proof -
  have h: "replaceTerm simpleRequest = None \<and> replaceValue simpleRequest = None"
    by (simp add: simpleRequest_def)
  note t = C6_replace_mode_and_pure_search [where req = simpleRequest and E = demoCollab
      and R = asciiRuntime]
  from t h have "\<not> inReplaceMode simpleRequest" by blast
  with t have "saved (processPOST demoCollab asciiRuntime simpleRequest) = []
   \<and> totalReplacements (stats (processPOST demoCollab asciiRuntime simpleRequest)) = 0
   \<and> list_all (\<lambda>f. newPath f = None) (outputFiles (processPOST demoCollab asciiRuntime simpleRequest))"
    by blast
  with h show ?thesis by simp
qed

text \<open>
  The claim as it stands fails in simple mode: a replacement term that is supplied
  (not undefined) but empty leaves the request in search mode, with a null
  \<^verbatim>\<open>newPath\<close> and no file written.
\<close>

theorem C6_counterexample:
  "replaceTerm emptyReplaceRequest \<noteq> None
   \<and> \<not> simpleIsReplaceMode emptyReplaceRequest
   \<and> outputFiles (processPOST demoCollab asciiRuntime emptyReplaceRequest) =
       [\<lparr>originalPath = ''/app/tmp/1_cities.csv'', newPath = None\<rparr>]
   \<and> saved (processPOST demoCollab asciiRuntime emptyReplaceRequest) = []"
  by code_simp

section \<open>Retained rows under the match filter\<close>

text \<open>
  Claim C5 at a failing input.  Advanced mode, replace mode, \<^verbatim>\<open>showOnlyMatches = true\<close>: the
  first and the third row of the file satisfy the row predicate (both are counted as
  matches), but the first row already holds the replacement value, produces no change
  record and is dropped: the retained rows, and the file that is written, hold the
  third row only.
\<close>

theorem C5_advanced_drops_matched_row:
  "showOnlyMatches onlyMatchesRequest
   \<and> rowMatchesAdvanced asciiRuntime [(''name'', ''Ann''), (''state'', ''NY'')] [''name'', ''state'']
        stateEqualsNY = Inr (True, [''state''])
   \<and> rowMatchesAdvanced asciiRuntime [(''name'', ''Cy''), (''state'', ''ny'')] [''name'', ''state'']
        stateEqualsNY = Inr (True, [''state''])
   \<and> sc_rows (snd (scanRowsThrowing
        (advancedRow asciiRuntime onlyMatchesRequest stateEqualsNY citiesFile [''name'', ''state''] 3)
        0 citiesRows (startScan (initialState 1)))) = [[(''name'', ''Cy''), (''state'', ''NY'')]]
   \<and> sc_matches (snd (scanRowsThrowing
        (advancedRow asciiRuntime onlyMatchesRequest stateEqualsNY citiesFile [''name'', ''state''] 3)
        0 citiesRows (startScan (initialState 1)))) = 2
   \<and> saved (processPOST demoCollab asciiRuntime onlyMatchesRequest) =
        [(''/app/tmp/1700_1_cities_replaced.csv'',
          ''name,state'' @ [CHR 0x0D, CHR 0x0A] @ ''Cy,NY'')]"
  by code_simp

section \<open>The archive of several artifacts\<close>

text \<open>
  Claim C9 at a failing input.  Two files each produce an artifact, written by
  \<^verbatim>\<open>saveProcessedFile\<close> under \<^verbatim>\<open>/app/tmp/1700_1_cities_replaced.csv\<close> and
  \<^verbatim>\<open>/app/tmp/1701_2_orders_replaced.csv\<close>.  The archive is requested once and the
  \<^verbatim>\<open>complete\<close> event reports it with \<^verbatim>\<open>isZip = true\<close>, but its two entries are built
  with \<^verbatim>\<open>path.basename\<close> of the download locators, which keeps the
  \<^verbatim>\<open>download?file=\<close> prefix of the query string: the files the archive is asked to
  bundle are not the artifacts, and none of them was written.
\<close>

theorem C9_archive_entries_are_not_the_artifacts:
  "map fst (saved (processPOST demoCollab asciiRuntime advancedRequest)) =
     [''/app/tmp/1700_1_cities_replaced.csv'', ''/app/tmp/1701_2_orders_replaced.csv'']
   \<and> map newPath (outputFiles (processPOST demoCollab asciiRuntime advancedRequest)) =
     [Some ''/api/download?file=1700_1_cities_replaced.csv'',
      Some ''/api/download?file=1701_2_orders_replaced.csv'']
   \<and> zipRequests (processPOST demoCollab asciiRuntime advancedRequest) =
     [(''/app/tmp/processed_1702.zip'',
       [(''download?file=1700_1_cities_replaced.csv'',
         ''/app/tmp/download?file=1700_1_cities_replaced.csv''),
        (''download?file=1701_2_orders_replaced.csv'',
         ''/app/tmp/download?file=1701_2_orders_replaced.csv'')])]
   \<and> list_all (\<lambda>entry. snd entry \<notin> set (map fst (saved (processPOST demoCollab asciiRuntime advancedRequest))))
        (concat (map snd (zipRequests (processPOST demoCollab asciiRuntime advancedRequest))))
   \<and> last (events (processPOST demoCollab asciiRuntime advancedRequest)) =
       Complete (Some (outputFiles (processPOST demoCollab asciiRuntime advancedRequest)))
         (Some ''/api/download?file=processed_1702.zip'') True
         (stats (processPOST demoCollab asciiRuntime advancedRequest))"
  by code_simp

section \<open>Retained rows and the end of a batch\<close>

lemma simpleRow_rows:
  "sc_rows (simpleRow req re fd hs rf n i r s) =
     sc_rows s @
     (if rowMatchedSimple re hs r
      then [if simpleIsReplaceMode req
            then appliedRow rf (sameValueOps (orEmpty (replaceTerm req)) rf) r else r]
      else if showOnlyMatches req then [] else [r])"
  by (simp add: simpleRow_def Let_def replaceInFields_eq applyOperations_eq split: prod.splits)

lemma simple_scan_rows:
  "sc_rows (scanRows (simpleRow req re fd hs rf n) i rows sc) =
     sc_rows sc @
     map (\<lambda>r. if rowMatchedSimple re hs r \<and> simpleIsReplaceMode req
               then appliedRow rf (sameValueOps (orEmpty (replaceTerm req)) rf) r else r)
       (if showOnlyMatches req then filter (rowMatchedSimple re hs) rows else rows)"
proof (induction rows arbitrary: i sc)
  case Nil then show ?case by simp
next
  case (Cons r rs)
  show ?case
    by (simp only: scanRows.simps Cons.IH) (simp add: simpleRow_rows)
qed

lemma advancedStep_rows_all:
  "\<not> showOnlyMatches req \<Longrightarrow>
   length (sc_rows (advancedStep R req adv fd hs n i r s)) = Suc (length (sc_rows s))"
  by (simp add: advancedStep_def advancedMatched_def Let_def split: prod.splits)

lemma advanced_scan_rows_all:
  assumes "\<not> showOnlyMatches req"
  shows "length (sc_rows (scanRows (advancedStep R req adv fd hs n) i rows sc)) =
           length (sc_rows sc) + length rows"
proof (induction rows arbitrary: i sc)
  case Nil then show ?case by simp
next
  case (Cons r rs)
  show ?case
    by (simp only: scanRows.simps Cons.IH) (simp add: advancedStep_rows_all [OF assms])
qed

text \<open>
  The retained rows of the search route.  In simple mode the retained rows are, in
  order, the parsed rows that pass the row test when \<^verbatim>\<open>showOnlyMatches\<close> is true (each
  in its replaced form in replace mode) and all parsed rows otherwise; in advanced mode
  with \<^verbatim>\<open>showOnlyMatches\<close> false (and matchers that compile) the scan retains one row per
  parsed row.
\<close>

theorem retained_rows_simple_and_unfiltered:
  "sc_rows (scanRows (simpleRow req re fd hs rf n) i rows sc) =
     sc_rows sc @
     map (\<lambda>r. if rowMatchedSimple re hs r \<and> simpleIsReplaceMode req
               then appliedRow rf (sameValueOps (orEmpty (replaceTerm req)) rf) r else r)
       (if showOnlyMatches req then filter (rowMatchedSimple re hs) rows else rows)
   \<and> (\<not> showOnlyMatches req \<and> matchersCompile R adv \<longrightarrow>
        fst (scanRowsThrowing (advancedRow R req adv fd hs n) i rows sc) = None
        \<and> length (sc_rows (snd (scanRowsThrowing (advancedRow R req adv fd hs n) i rows sc))) =
            length (sc_rows sc) + length rows)"
  using simple_scan_rows [of req re fd hs rf n i rows sc] advanced_scan_rows_all [of req R adv fd hs n i rows sc]
  by (simp add: advanced_scan_compiled)

theorem retained_rows_simple_and_unfiltered_witness:
  "\<not> showOnlyMatches advancedRequest \<and> matchersCompile asciiRuntime stateEqualsNY
   \<and> length (sc_rows (snd (scanRowsThrowing
        (advancedRow asciiRuntime advancedRequest stateEqualsNY citiesFile [''name'', ''state''] 3)
        0 citiesRows (startScan (initialState 1))))) = 3"
proof -
  have h: "\<not> showOnlyMatches advancedRequest" by (simp add: advancedRequest_def)
  from retained_rows_simple_and_unfiltered [where req = advancedRequest and R = asciiRuntime
      and adv = stateEqualsNY and fd = citiesFile and hs = "[''name'', ''state'']" and n = 3
      and i = 0 and rows = citiesRows and sc = "startScan (initialState 1)"]
    h matchersCompile_stateEqualsNY
  have "length (sc_rows (snd (scanRowsThrowing
        (advancedRow asciiRuntime advancedRequest stateEqualsNY citiesFile [''name'', ''state''] 3)
        0 citiesRows (startScan (initialState 1))))) =
        length (sc_rows (startScan (initialState 1))) + length citiesRows"
    by blast
  then have "length (sc_rows (snd (scanRowsThrowing
        (advancedRow asciiRuntime advancedRequest stateEqualsNY citiesFile [''name'', ''state''] 3)
        0 citiesRows (startScan (initialState 1))))) = 3"
    by (simp add: citiesRows_def)
  with h matchersCompile_stateEqualsNY show ?thesis by simp
qed

lemma createZipFile_outcome:
  "createZipFile E entries st =
     (case archiver E (pathJoin (tmpDir E) (''processed_'' @ showNat (dateNow E (clock st)) @ ''.zip'')) entries of
        Some msg \<Rightarrow> Inl msg
      | None \<Rightarrow> Inr (pathJoin (tmpDir E) (''processed_'' @ showNat (dateNow E (clock st)) @ ''.zip'')),
      st\<lparr>clock := Suc (clock st),
         zipRequests := zipRequests st @
           [(pathJoin (tmpDir E) (''processed_'' @ showNat (dateNow E (clock st)) @ ''.zip''), entries)]\<rparr>)"
  by (simp add: createZipFile_def Let_def split: option.splits)

text \<open>
  The end of a batch.  With exactly one output record that has a locator, the download
  locator is that record's \<^verbatim>\<open>newPath\<close> and \<^verbatim>\<open>isZip\<close> is false, and no archive is requested;
  with none, there is no download; with several, one archive is requested, with one
  entry per such record, and when the archive run fails the download locator is null
  and \<^verbatim>\<open>isZip\<close> is false.  In every case the batch ends with its \<^verbatim>\<open>complete\<close> event.
\<close>

theorem bundle_single_none_and_failure:
  "(filter hasOutput (outputFiles st) = [f] \<longrightarrow> bundleOutputs E st = ((newPath f, False), st))
   \<and> (filter hasOutput (outputFiles st) = [] \<longrightarrow> bundleOutputs E st = ((None, False), st))
   \<and> (length (filter hasOutput (outputFiles st)) > 1 \<longrightarrow>
        emitted (zipRequests st) (zipRequests (snd (bundleOutputs E st))) =
          [(pathJoin (tmpDir E) (''processed_'' @ showNat (dateNow E (clock st)) @ ''.zip''),
            map (zipEntry E) (filter hasOutput (outputFiles st)))]
        \<and> (archiver E (pathJoin (tmpDir E) (''processed_'' @ showNat (dateNow E (clock st)) @ ''.zip''))
              (map (zipEntry E) (filter hasOutput (outputFiles st))) \<noteq> None \<longrightarrow>
            fst (bundleOutputs E st) = (None, False)))
   \<and> (\<exists>a b c d. last (events (finishBatch E w st)) = Complete a b c d
        \<and> (b, c) = fst (bundleOutputs E st))"
proof -
  have a: "filter hasOutput (outputFiles st) = [f] \<longrightarrow> bundleOutputs E st = ((newPath f, False), st)"
    by (simp add: bundleOutputs_def Let_def)
  have b: "filter hasOutput (outputFiles st) = [] \<longrightarrow> bundleOutputs E st = ((None, False), st)"
    by (simp add: bundleOutputs_def Let_def)
  have c: "length (filter hasOutput (outputFiles st)) > 1 \<longrightarrow>
        emitted (zipRequests st) (zipRequests (snd (bundleOutputs E st))) =
          [(pathJoin (tmpDir E) (''processed_'' @ showNat (dateNow E (clock st)) @ ''.zip''),
            map (zipEntry E) (filter hasOutput (outputFiles st)))]
        \<and> (archiver E (pathJoin (tmpDir E) (''processed_'' @ showNat (dateNow E (clock st)) @ ''.zip''))
              (map (zipEntry E) (filter hasOutput (outputFiles st))) \<noteq> None \<longrightarrow>
            fst (bundleOutputs E st) = (None, False))"
    by (auto simp: bundleOutputs_def Let_def createZipFile_outcome emitted_def split: option.splits)
  have d: "\<exists>a b c d. last (events (finishBatch E w st)) = Complete a b c d
        \<and> (b, c) = fst (bundleOutputs E st)"
    by (auto simp: finishBatch_def split: prod.splits)
  from a b c d show ?thesis by blast
qed

theorem bundle_single_none_and_failure_witness:
  "fst (bundleOutputs brokenZipCollab
      ((initialState 2)\<lparr>outputFiles :=
         [\<lparr>originalPath = ''a.csv'', newPath = Some ''/api/download?file=1_a.csv''\<rparr>,
          \<lparr>originalPath = ''b.csv'', newPath = Some ''/api/download?file=2_b.csv''\<rparr>]\<rparr>)) = (None, False)
   \<and> bundleOutputs demoCollab
      ((initialState 2)\<lparr>outputFiles :=
         [\<lparr>originalPath = ''a.csv'', newPath = Some ''/api/download?file=1_a.csv''\<rparr>,
          \<lparr>originalPath = ''b.csv'', newPath = None\<rparr>]\<rparr>)
      = ((Some ''/api/download?file=1_a.csv'', False),
         (initialState 2)\<lparr>outputFiles :=
         [\<lparr>originalPath = ''a.csv'', newPath = Some ''/api/download?file=1_a.csv''\<rparr>,
          \<lparr>originalPath = ''b.csv'', newPath = None\<rparr>]\<rparr>)"
proof -
  let ?two = "(initialState 2)\<lparr>outputFiles :=
         [\<lparr>originalPath = ''a.csv'', newPath = Some ''/api/download?file=1_a.csv''\<rparr>,
          \<lparr>originalPath = ''b.csv'', newPath = Some ''/api/download?file=2_b.csv''\<rparr>]\<rparr>"
  let ?one = "(initialState 2)\<lparr>outputFiles :=
         [\<lparr>originalPath = ''a.csv'', newPath = Some ''/api/download?file=1_a.csv''\<rparr>,
          \<lparr>originalPath = ''b.csv'', newPath = None\<rparr>]\<rparr>"
  have h1: "length (filter hasOutput (outputFiles ?two)) > 1"
    by (simp add: hasOutput_def)
  have h2: "archiver brokenZipCollab zp es \<noteq> None" for zp es
    by (simp add: brokenZipCollab_def)
  have h3: "filter hasOutput (outputFiles ?one) =
      [\<lparr>originalPath = ''a.csv'', newPath = Some ''/api/download?file=1_a.csv''\<rparr>]"
    by (simp add: hasOutput_def)
  from bundle_single_none_and_failure [where st = ?two and E = brokenZipCollab] h1 h2
  have a: "fst (bundleOutputs brokenZipCollab ?two) = (None, False)" by blast
  from bundle_single_none_and_failure [where st = ?one and E = demoCollab
      and f = "\<lparr>originalPath = ''a.csv'', newPath = Some ''/api/download?file=1_a.csv''\<rparr>"] h3
  have b: "bundleOutputs demoCollab ?one = ((Some ''/api/download?file=1_a.csv'', False), ?one)"
    by simp
  from a b show ?thesis by simp
qed

end
